(* ===== verification/Go_Prelude.thy ===== *)
theory Go_Prelude
  imports Main "HOL-Library.Signed_Division"
begin

section \<open>Prelude: machine integers, time, results and loops of Go\<close>

text \<open>
  What every component of the gateway shares: Go's 64-bit \<open>int\<close> / \<open>int64\<close> (kept as an
  \<^typ>\<open>int\<close> with the wrap-around of every addition written out), \<open>time.Time\<close> and
  \<open>time.Duration\<close> with the saturation of \<open>Time.Sub\<close>, errors as the left side of a sum,
  and the \<open>for _, x := range xs\<close> loop with an early \<open>return err\<close>.
\<close>

named_theorems go_time "definitions of the time and duration operations"
named_theorems go_i64 "bounds and identities of 64-bit arithmetic"
named_theorems go_res "rules for results and loops with early return"


subsection \<open>64-bit signed integers\<close>

type_synonym i64 = int

definition min_i64 :: int where "min_i64 = - (2 ^ 63)"
definition max_i64 :: int where "max_i64 = 2 ^ 63 - 1"

definition in_i64 :: "int \<Rightarrow> bool" where
  "in_i64 x \<longleftrightarrow> min_i64 \<le> x \<and> x \<le> max_i64"

lemma in_i64_0 [simp]: "in_i64 0"
  by (simp add: in_i64_def min_i64_def max_i64_def)

text \<open>Two's complement wrap-around of \<open>+\<close>, \<open>-\<close> and \<open>*\<close> on \<open>int64\<close>.\<close>

definition wrap64 :: "int \<Rightarrow> i64" where
  "wrap64 x = (x + 2 ^ 63) mod 2 ^ 64 - 2 ^ 63"

text \<open>Saturation, as \<open>Time.Sub\<close> does.\<close>

definition sat64 :: "int \<Rightarrow> i64" where
  "sat64 x = (if x < min_i64 then min_i64 else if max_i64 < x then max_i64 else x)"

lemmas i64_bounds = min_i64_def max_i64_def in_i64_def

lemma in_i64_wrap64 [simp, go_i64]: "in_i64 (wrap64 x)"
proof -
  have "0 \<le> (x + 2 ^ 63) mod 2 ^ 64" and "(x + 2 ^ 63) mod 2 ^ 64 < 2 ^ 64" by simp_all
  then show ?thesis by (simp add: wrap64_def i64_bounds)
qed

lemma wrap64_id [simp, go_i64]: "in_i64 x \<Longrightarrow> wrap64 x = x"
  by (simp add: wrap64_def i64_bounds)

lemma wrap64_bounded: "- (2 ^ 63) \<le> x \<Longrightarrow> x < 2 ^ 63 \<Longrightarrow> wrap64 x = x"
  by (rule wrap64_id) (simp add: i64_bounds)

lemma wrap64_add [simp, go_i64]: "wrap64 (wrap64 x + y) = wrap64 (x + y)"
proof -
  have "(x + 2 ^ 63) mod 2 ^ 64 - 2 ^ 63 + y + 2 ^ 63 = (x + 2 ^ 63) mod 2 ^ 64 + y" by simp
  then show ?thesis unfolding wrap64_def by (simp only: mod_add_left_eq) (simp add: ac_simps)
qed

lemma in_i64_sat64 [simp, go_i64]: "in_i64 (sat64 x)"
  by (simp add: sat64_def i64_bounds)

lemma sat64_id [simp, go_i64]: "in_i64 x \<Longrightarrow> sat64 x = x"
  by (simp add: sat64_def i64_bounds)

lemma sat64_pos [go_i64]: "0 < x \<Longrightarrow> 0 < sat64 x"
  by (simp add: sat64_def i64_bounds)

lemma sat64_nonneg [go_i64]: "0 \<le> x \<Longrightarrow> 0 \<le> sat64 x"
  by (simp add: sat64_def i64_bounds)

lemma sat64_le [go_i64]: "x \<le> y \<Longrightarrow> min_i64 \<le> y \<Longrightarrow> sat64 x \<le> y"
  by (simp add: sat64_def i64_bounds)

lemma sat64_mono: "x \<le> y \<Longrightarrow> sat64 x \<le> sat64 y"
  by (simp add: sat64_def i64_bounds)

lemma in_i64_between [go_i64]: "in_i64 a \<Longrightarrow> in_i64 b \<Longrightarrow> a \<le> x \<Longrightarrow> x \<le> b \<Longrightarrow> in_i64 x"
  by (simp add: i64_bounds)


lemma int_div_less_iff:
  fixes a m n :: int assumes "0 < m" shows "a div m < n \<longleftrightarrow> a < n * m"
proof
  assume "a div m < n"
  then have "(a div m + 1) * m \<le> n * m" using assms by (intro mult_right_mono) simp_all
  then have "a div m * m + m \<le> n * m" by (simp add: distrib_right)
  then show "a < n * m" using div_mult_mod_eq [of a m] pos_mod_bound [OF assms, of a] by linarith
next
  assume lt: "a < n * m"
  have "a div m * m \<le> a" using assms by (simp add: minus_mod_eq_div_mult [symmetric])
  with lt have "a div m * m < n * m" by simp
  then show "a div m < n" using assms by simp
qed


subsection \<open>Time and durations\<close>

text \<open>
  A \<open>time.Time\<close> is the number of nanoseconds since Go's zero time, so the zero value
  \<open>time.Time{}\<close> is 0 and \<open>t.IsZero()\<close> is \<open>t = 0\<close>. A \<open>time.Duration\<close> is an \<open>int64\<close>
  count of nanoseconds.
\<close>

type_synonym gotime = int
type_synonym duration = i64

definition zero_time :: gotime where "zero_time = 0"

definition nanos_ms :: duration where "nanos_ms = 1000000"
definition nanos_second :: duration where "nanos_second = 1000000000"
definition nanos_minute :: duration where "nanos_minute = 60000000000"

definition time_add :: "gotime \<Rightarrow> duration \<Rightarrow> gotime" where
  "time_add t d = t + d"

definition time_sub :: "gotime \<Rightarrow> gotime \<Rightarrow> duration" where
  "time_sub t u = sat64 (t - u)"

definition time_before :: "gotime \<Rightarrow> gotime \<Rightarrow> bool" where
  "time_before t u \<longleftrightarrow> t < u"

definition time_after :: "gotime \<Rightarrow> gotime \<Rightarrow> bool" where
  "time_after t u \<longleftrightarrow> u < t"

lemmas time_unit_defs = nanos_ms_def nanos_second_def nanos_minute_def
lemmas time_defs [go_time] =
  zero_time_def time_add_def time_sub_def time_before_def time_after_def time_unit_defs

text \<open>\<open>Duration.Round\<close>: half away from zero, saturating when the rounded value overflows.\<close>

definition duration_round :: "duration \<Rightarrow> duration \<Rightarrow> duration" where
  "duration_round d m =
     (if m \<le> 0 then d
      else let r = d smod m in
        if d < 0 then
          (let r' = - r in
           if r' + r' < m then wrap64 (d + r')
           else (let d1 = wrap64 (wrap64 (d - m) + r') in if d1 < d then d1 else min_i64))
        else if r + r < m then wrap64 (d - r)
        else (let d1 = wrap64 (wrap64 (d + m) - r) in if d < d1 then d1 else max_i64))"

lemma smod_nonneg: "0 \<le> (d :: int) \<Longrightarrow> 0 < m \<Longrightarrow> d smod m = d mod m"
  by (cases "d = 0") (simp_all add: signed_modulo_int_def)

lemma sdiv_nonneg: "0 \<le> (d :: int) \<Longrightarrow> 0 < m \<Longrightarrow> d sdiv m = d div m"
  by (cases "d = 0") (simp_all add: signed_divide_int_def)

text \<open>Division that rounds up.\<close>

lemma ceiling_div:
  fixes d q :: int
  assumes "0 < d" "0 < q"
  shows "d \<le> (d + q - 1) div q * q" "((d + q - 1) div q - 1) * q < d" "1 \<le> (d + q - 1) div q"
proof -
  define k r where "k = (d + q - 1) div q" and "r = (d + q - 1) mod q"
  have "k * q + r = d + q - 1" "r < q" "0 \<le> r"
    using assms by (simp_all add: k_def r_def)
  then show "d \<le> (d + q - 1) div q * q" "((d + q - 1) div q - 1) * q < d"
    unfolding k_def [symmetric] by (simp_all add: left_diff_distrib)
  show "1 \<le> (d + q - 1) div q"
    using assms pos_imp_zdiv_pos_iff [of q "d + q - 1"] by linarith
qed

text \<open>Rounding a non-negative duration stays non-negative and moves it by at most half a unit.\<close>

lemma duration_round_nonneg:
  assumes d: "0 \<le> d" "in_i64 d" and m: "0 < m" "in_i64 m"
  shows "0 \<le> duration_round d m"
proof (cases "d mod m + d mod m < m")
  case True
  have le: "d mod m \<le> d" "0 \<le> d mod m"
    using d(1) m(1) by (simp_all add: zmod_le_nonneg_dividend)
  have "in_i64 (d - d mod m)"
    by (rule in_i64_between [OF in_i64_0 d(2)]) (use le in simp_all)
  then show ?thesis
    using True d(1) m(1) le by (simp add: duration_round_def smod_nonneg Let_def)
next
  case False
  then show ?thesis
    using d(1) m(1) by (simp add: duration_round_def smod_nonneg Let_def max_i64_def)
qed

lemma duration_round_exact:
  assumes d: "0 \<le> d" and m: "0 < m" and fits: "d + m \<le> max_i64"
  shows "duration_round d m = (if d mod m + d mod m < m then d - d mod m else d + m - d mod m)"
proof -
  let ?r = "d mod m"
  have r: "0 \<le> ?r" "?r < m" "?r \<le> d" using m d by (simp_all add: zmod_le_nonneg_dividend)
  have "wrap64 (d - ?r) = d - ?r" "wrap64 (d + m) = d + m" "wrap64 (d + m - ?r) = d + m - ?r"
    by (rule wrap64_id, use d m fits r in \<open>simp add: i64_bounds\<close>)+
  with d m r show ?thesis by (simp add: duration_round_def smod_nonneg Let_def)
qed

lemma duration_round_upper:
  assumes d: "0 \<le> d" and m: "0 < m" and fits: "d + m \<le> max_i64"
  shows "2 * duration_round d m \<le> 2 * d + m"
proof -
  let ?r = "d mod m"
  have r: "0 \<le> ?r" "?r < m" using m by simp_all
  have le: "?r \<le> d" using d m by (simp add: zmod_le_nonneg_dividend)
  have w1: "wrap64 (d - ?r) = d - ?r"
    by (rule wrap64_id) (use d m le fits r in \<open>simp add: i64_bounds\<close>)
  have w2: "wrap64 (wrap64 (d + m) - ?r) = d + m - ?r"
  proof -
    have "wrap64 (d + m) = d + m"
      by (rule wrap64_id) (use d m fits in \<open>simp add: i64_bounds\<close>)
    moreover have "wrap64 (d + m - ?r) = d + m - ?r"
      by (rule wrap64_id) (use d m le fits r in \<open>simp add: i64_bounds\<close>)
    ultimately show ?thesis by simp
  qed
  show ?thesis
    using d m r by (auto simp: duration_round_def smod_nonneg Let_def w1 w2)
qed


subsection \<open>Results\<close>

text \<open>
  A Go function returning \<open>(T, error)\<close> returns \<open>Inl e\<close> or \<open>Inr x\<close>. \<open>bind_res\<close> is
  \<open>if err != nil \<lbrace> return err \<rbrace>\<close>.
\<close>

fun bind_res :: "'e + 'a \<Rightarrow> ('a \<Rightarrow> 'e + 'b) \<Rightarrow> 'e + 'b" where
  "bind_res (Inl e) f = Inl e"
| "bind_res (Inr x) f = f x"

lemma bind_res_Inr_iff [simp, go_res]:
  "bind_res m f = Inr y \<longleftrightarrow> (\<exists>x. m = Inr x \<and> f x = Inr y)"
  by (cases m) auto

lemma bind_res_Inl_iff [go_res]:
  "bind_res m f = Inl e \<longleftrightarrow> m = Inl e \<or> (\<exists>x. m = Inr x \<and> f x = Inl e)"
  by (cases m) auto

text \<open>\<open>guard_res b e\<close> is \<open>if b \<lbrace> return e \<rbrace>\<close>.\<close>

definition guard_res :: "bool \<Rightarrow> 'e \<Rightarrow> 'e + unit" where
  "guard_res b e = (if b then Inl e else Inr ())"

lemma guard_res_Inr [simp, go_res]: "guard_res b e = Inr u \<longleftrightarrow> \<not> b"
  by (simp add: guard_res_def)

lemma guard_res_Inl [simp, go_res]: "guard_res b e = Inl e' \<longleftrightarrow> b \<and> e' = e"
  by (auto simp: guard_res_def)

text \<open>A \<open>range\<close> loop over a slice whose body updates a state and may return early.\<close>

fun loop_res :: "('a \<Rightarrow> 's \<Rightarrow> 'e + 's) \<Rightarrow> 'a list \<Rightarrow> 's \<Rightarrow> 'e + 's" where
  "loop_res f [] s = Inr s"
| "loop_res f (x # xs) s = bind_res (f x s) (loop_res f xs)"

lemma loop_res_append [simp, go_res]:
  "loop_res f (xs @ ys) s = bind_res (loop_res f xs s) (loop_res f ys)"
proof (induction xs arbitrary: s)
  case Nil
  then show ?case by simp
next
  case (Cons x xs)
  then show ?case by (cases "f x s") auto
qed

text \<open>The loop rule: an invariant over the elements already visited.\<close>

lemma loop_res_inv:
  assumes "loop_res f xs s = Inr t" and "P [] s"
    and "\<And>ys x s s'. P ys s \<Longrightarrow> f x s = Inr s' \<Longrightarrow> P (ys @ [x]) s'"
  shows "P xs t"
proof -
  have "P (ys @ xs) t" if "loop_res f xs s = Inr t" "P ys s" for ys
    using that
  proof (induction xs arbitrary: ys s)
    case Nil
    then show ?case by simp
  next
    case (Cons x xs)
    then obtain s' where s': "f x s = Inr s'" "loop_res f xs s' = Inr t" by auto
    with Cons.prems(2) assms(3) have "P (ys @ [x]) s'" by blast
    with Cons.IH [OF s'(2)] show ?case by force
  qed
  from this [of "[]"] assms show ?thesis by simp
qed

text \<open>A loop that finished ran its body successfully on every element.\<close>

lemma loop_res_all:
  assumes "loop_res f xs s = Inr t" and "x \<in> set xs"
  shows "\<exists>s1 s2. f x s1 = Inr s2"
  using assms
proof (induction xs arbitrary: s)
  case Nil
  then show ?case by simp
next
  case (Cons y ys)
  then show ?case by (cases "x = y") auto
qed

text \<open>The loop that only checks: it keeps no state.\<close>

definition check_all :: "('a \<Rightarrow> 'e + unit) \<Rightarrow> 'a list \<Rightarrow> 'e + unit" where
  "check_all f xs = loop_res (\<lambda>x _. f x) xs ()"

lemma check_all_simps [simp, go_res]:
  "check_all f [] = Inr ()"
  "check_all f (x # xs) = bind_res (f x) (\<lambda>_. check_all f xs)"
  by (simp_all add: check_all_def)

lemma check_all_Inr [go_res]: "check_all f xs = Inr () \<longleftrightarrow> (\<forall>x \<in> set xs. f x = Inr ())"
  by (induction xs) auto


subsection \<open>Lists\<close>

text \<open>\<open>last_n n xs\<close>: the newest \<open>n\<close> entries, the abstract content of a bounded log.\<close>

definition last_n :: "nat \<Rightarrow> 'a list \<Rightarrow> 'a list" where
  "last_n n xs = drop (length xs - n) xs"

lemma length_last_n [simp]: "length (last_n n xs) = min n (length xs)"
  by (simp add: last_n_def)

lemma last_n_all [simp]: "length xs \<le> n \<Longrightarrow> last_n n xs = xs"
  by (simp add: last_n_def)

lemma last_n_last_n: "last_n m (last_n n xs) = last_n (min m n) xs"
proof -
  have "length xs - (length xs - n + m) + (length xs - n) = length xs - min m n" by arith
  then show ?thesis by (simp add: last_n_def)
qed

lemma last_n_append_last_n: "last_n n (last_n n xs @ ys) = last_n n (xs @ ys)"
proof (cases "length xs \<le> n")
  case True
  then show ?thesis by simp
next
  case False
  then have "length xs + length ys - n = (length xs - n) + length ys" by arith
  moreover have "drop (min n (length xs) + length ys - n) (drop (length xs - n) xs) =
      drop ((length xs - n) + length ys) xs"
    using False by (simp add: add.commute)
  ultimately show ?thesis using False by (simp add: last_n_def)
qed

lemma last_n_snoc: "0 < n \<Longrightarrow> last_n n (xs @ [x]) = last_n (n - 1) xs @ [x]"
  by (auto simp: last_n_def Suc_diff_le)

lemma set_last_n: "set (last_n n xs) \<subseteq> set xs"
  by (simp add: last_n_def set_drop_subset)

text \<open>The builtin \<open>copy(dst, src)\<close>: overwrites a prefix of \<open>dst\<close>, in place.\<close>

definition go_copy :: "'a list \<Rightarrow> 'a list \<Rightarrow> 'a list" where
  "go_copy dst src = take (length dst) src @ drop (length src) dst"

lemma length_go_copy [simp]: "length (go_copy dst src) = length dst"
  by (simp add: go_copy_def)

text \<open>Moving the tail of a slice to its front and cutting the slice is dropping a prefix.\<close>

lemma take_go_copy_drop [simp]: "take (length xs - n) (go_copy xs (drop n xs)) = drop n xs"
  by (simp add: go_copy_def)

lemma filter_suffix_le: "length (filter P ys) \<le> length (filter P (xs @ ys))"
  by simp

end
