(* ===== verification/Go_Strings.thy ===== *)
theory Go_Strings
  imports Go_Prelude "HOL-Library.Sublist"
begin

section \<open>Go strings and the part of package strings the gateway uses\<close>

text \<open>
  A Go string is a sequence of bytes, here a \<^typ>\<open>string\<close> (a \<^typ>\<open>char\<close> is a byte), so
  \<open>len\<close> is \<^const>\<open>length\<close>. \<open>TrimSpace\<close> knows every white-space rune of Unicode by its
  UTF-8 encoding. Case mapping (\<open>ToLower\<close>, \<open>ToUpper\<close>, \<open>EqualFold\<close>) is written for ASCII
  letters; other bytes are left unchanged, which differs from Go on non-ASCII letters only.
\<close>

named_theorems go_str "facts about Go strings used as rewrite rules"


subsection \<open>Bytes\<close>

abbreviation byte :: "char \<Rightarrow> nat" where "byte c \<equiv> of_char c"

definition is_upper :: "char \<Rightarrow> bool" where "is_upper c \<longleftrightarrow> 65 \<le> byte c \<and> byte c \<le> 90"
definition is_lower :: "char \<Rightarrow> bool" where "is_lower c \<longleftrightarrow> 97 \<le> byte c \<and> byte c \<le> 122"
definition is_digit :: "char \<Rightarrow> bool" where "is_digit c \<longleftrightarrow> 48 \<le> byte c \<and> byte c \<le> 57"

definition is_alnum :: "char \<Rightarrow> bool" where
  "is_alnum c \<longleftrightarrow> is_upper c \<or> is_lower c \<or> is_digit c"

text \<open>An ASCII letter changes case by its bit 5, the sixth digit.\<close>

fun set_bit5 :: "bool \<Rightarrow> char \<Rightarrow> char" where
  "set_bit5 b (Char b0 b1 b2 b3 b4 b5 b6 b7) = Char b0 b1 b2 b3 b4 b b6 b7"

definition lower_char :: "char \<Rightarrow> char" where
  "lower_char c = (if is_upper c then set_bit5 True c else c)"

definition upper_char :: "char \<Rightarrow> char" where
  "upper_char c = (if is_lower c then set_bit5 False c else c)"

lemma upper_bits: "is_upper (Char b0 b1 b2 b3 b4 b5 b6 b7) \<Longrightarrow> \<not> b5 \<and> b6 \<and> \<not> b7"
  and lower_bits: "is_lower (Char b0 b1 b2 b3 b4 b5 b6 b7) \<Longrightarrow> b5 \<and> b6 \<and> \<not> b7"
proof -
  have le: "of_bool b \<le> (1 :: nat)" for b by simp
  note bits = le [of b0] le [of b1] le [of b2] le [of b3] le [of b4]
  show "is_upper (Char b0 b1 b2 b3 b4 b5 b6 b7) \<Longrightarrow> \<not> b5 \<and> b6 \<and> \<not> b7"
    using bits by (cases b5; cases b6; cases b7; simp add: is_upper_def)
  show "is_lower (Char b0 b1 b2 b3 b4 b5 b6 b7) \<Longrightarrow> b5 \<and> b6 \<and> \<not> b7"
    using bits by (cases b5; cases b6; cases b7; simp add: is_lower_def)
qed

lemma set_bit5_lower: "is_upper c \<Longrightarrow> byte (set_bit5 True c) = byte c + 32"
  by (cases c) (use upper_bits in fastforce)

lemma set_bit5_upper: "is_lower c \<Longrightarrow> byte (set_bit5 False c) + 32 = byte c"
  by (cases c) (use lower_bits in fastforce)

lemma set_bit5_set_bit5 [simp]: "set_bit5 a (set_bit5 b c) = set_bit5 a c"
  by (cases c) simp

lemma set_bit5_id: "is_upper c \<Longrightarrow> set_bit5 False c = c" "is_lower c \<Longrightarrow> set_bit5 True c = c"
  by (cases c; use upper_bits lower_bits in fastforce)+

lemma is_lower_set_bit5: "is_upper c \<Longrightarrow> is_lower (set_bit5 True c)"
  using set_bit5_lower [of c] by (simp add: is_upper_def is_lower_def)

lemma is_upper_set_bit5: "is_lower c \<Longrightarrow> is_upper (set_bit5 False c)"
  using set_bit5_upper [of c] by (simp add: is_upper_def is_lower_def)

lemma not_upper_lower: "is_lower c \<Longrightarrow> \<not> is_upper c"
  by (simp add: is_upper_def is_lower_def)

lemma byte_bound: "byte c < 256"
  by (rule nat_of_char_less_256)

lemma lower_char_idem [simp]: "lower_char (lower_char c) = lower_char c"
  by (simp add: lower_char_def not_upper_lower is_lower_set_bit5)

lemma upper_char_idem [simp]: "upper_char (upper_char c) = upper_char c"
  using is_upper_set_bit5 not_upper_lower by (auto simp: upper_char_def)

lemma lower_upper_char [simp]: "lower_char (upper_char c) = lower_char c"
  by (auto simp: upper_char_def lower_char_def is_upper_set_bit5 set_bit5_id not_upper_lower)

definition to_lower :: "string \<Rightarrow> string" where "to_lower s = map lower_char s"
definition to_upper :: "string \<Rightarrow> string" where "to_upper s = map upper_char s"
definition equal_fold :: "string \<Rightarrow> string \<Rightarrow> bool" where
  "equal_fold s t \<longleftrightarrow> to_lower s = to_lower t"

lemma to_lower_idem [simp]: "to_lower (to_lower s) = to_lower s"
  by (simp add: to_lower_def)

lemma to_upper_idem [simp]: "to_upper (to_upper s) = to_upper s"
  by (simp add: to_upper_def)

lemma to_lower_Nil [simp]: "to_lower [] = []" "to_lower s = [] \<longleftrightarrow> s = []"
  by (auto simp: to_lower_def)

lemma to_upper_Nil [simp]: "to_upper [] = []" "to_upper s = [] \<longleftrightarrow> s = []"
  by (auto simp: to_upper_def)

lemma length_to_lower [simp]: "length (to_lower s) = length s"
  by (simp add: to_lower_def)

lemma equal_fold_refl [simp]: "equal_fold s s"
  by (simp add: equal_fold_def)


subsection \<open>Prefixes and suffixes\<close>

definition trim_prefix :: "string \<Rightarrow> string \<Rightarrow> string" where
  "trim_prefix s p = (if prefix p s then drop (length p) s else s)"

definition trim_suffix :: "string \<Rightarrow> string \<Rightarrow> string" where
  "trim_suffix s p = (if suffix p s then take (length s - length p) s else s)"

lemma trim_prefix_append [simp, go_str]: "trim_prefix (p @ s) p = s"
  by (simp add: trim_prefix_def)

lemma trim_suffix_append [simp, go_str]: "trim_suffix (s @ p) p = s"
  by (simp add: trim_suffix_def suffix_def)

text \<open>\<open>TrimRight(s, "/")\<close> with a one-byte cut set.\<close>

definition trim_right_byte :: "char \<Rightarrow> string \<Rightarrow> string" where
  "trim_right_byte c s = rev (dropWhile (\<lambda>x. x = c) (rev s))"

lemma trim_right_byte_no_suffix [simp]: "\<not> suffix [c] (trim_right_byte c s)"
proof (cases "dropWhile (\<lambda>x. x = c) (rev s)")
  case Nil
  then show ?thesis unfolding trim_right_byte_def by (simp only:) (simp add: suffix_def)
next
  case (Cons x xs)
  then have "x \<noteq> c"
    using hd_dropWhile [of "\<lambda>x. x = c" "rev s"] by (metis list.distinct(1) list.sel(1))
  with Cons show ?thesis unfolding trim_right_byte_def by (simp only:) (simp add: suffix_def)
qed

lemma trim_right_byte_idem [simp]: "trim_right_byte c (trim_right_byte c s) = trim_right_byte c s"
  by (simp add: trim_right_byte_def)

text \<open>\<open>Trim(s, cutset)\<close> with a set of single bytes.\<close>

definition trim_bytes :: "char list \<Rightarrow> string \<Rightarrow> string" where
  "trim_bytes cs s =
     rev (dropWhile (\<lambda>x. x \<in> set cs) (rev (dropWhile (\<lambda>x. x \<in> set cs) s)))"


subsection \<open>White space\<close>

text \<open>
  The runes of \<open>unicode.IsSpace\<close>, encoded: the six ASCII ones, U+0085, U+00A0, U+1680,
  U+2000 to U+200A, U+2028, U+2029, U+202F, U+205F and U+3000.
\<close>

definition space_encodings :: "string list" where
  "space_encodings =
     [[CHR 0x09], [CHR 0x0A], [CHR 0x0B], [CHR 0x0C], [CHR 0x0D], [CHR 0x20],
      [CHR 0xC2, CHR 0x85], [CHR 0xC2, CHR 0xA0], [CHR 0xE1, CHR 0x9A, CHR 0x80],
      [CHR 0xE2, CHR 0x80, CHR 0x80], [CHR 0xE2, CHR 0x80, CHR 0x81],
      [CHR 0xE2, CHR 0x80, CHR 0x82], [CHR 0xE2, CHR 0x80, CHR 0x83],
      [CHR 0xE2, CHR 0x80, CHR 0x84], [CHR 0xE2, CHR 0x80, CHR 0x85],
      [CHR 0xE2, CHR 0x80, CHR 0x86], [CHR 0xE2, CHR 0x80, CHR 0x87],
      [CHR 0xE2, CHR 0x80, CHR 0x88], [CHR 0xE2, CHR 0x80, CHR 0x89],
      [CHR 0xE2, CHR 0x80, CHR 0x8A], [CHR 0xE2, CHR 0x80, CHR 0xA8],
      [CHR 0xE2, CHR 0x80, CHR 0xA9], [CHR 0xE2, CHR 0x80, CHR 0xAF],
      [CHR 0xE2, CHR 0x81, CHR 0x9F], [CHR 0xE3, CHR 0x80, CHR 0x80]]"

text \<open>
  Bytes a white-space rune can start or end with, the controls, the blank and everything
  outside ASCII; every other byte stops a trim.
\<close>

definition space_byte :: "char \<Rightarrow> bool" where
  "space_byte c \<longleftrightarrow> byte c \<le> 32 \<or> digit7 c"

lemma digit7_byte: "digit7 c \<longleftrightarrow> 128 \<le> byte c"
proof (cases c)
  case (Char b0 b1 b2 b3 b4 b5 b6 b7)
  have le: "of_bool b \<le> (1 :: nat)" for b by simp
  show ?thesis
    unfolding Char using le [of b0] le [of b1] le [of b2] le [of b3] le [of b4] le [of b5] le [of b6]
    by (cases b7) simp_all
qed

lemma space_byte_iff: "space_byte c \<longleftrightarrow> byte c \<le> 32 \<or> 128 \<le> byte c"
  by (simp add: space_byte_def digit7_byte)

lemma is_alnum_not_space: "is_alnum c \<Longrightarrow> \<not> space_byte c"
  by (auto simp: space_byte_iff is_alnum_def is_upper_def is_lower_def is_digit_def)

lemma is_digit_not_space: "is_digit c \<Longrightarrow> \<not> space_byte c"
  by (simp add: is_alnum_not_space is_alnum_def)

text \<open>The number of bytes of the white-space rune \<open>s\<close> starts with, 0 if it starts with none.\<close>

definition space_len :: "string list \<Rightarrow> string \<Rightarrow> nat" where
  "space_len encs s =
     (case s of [] \<Rightarrow> 0
      | c # _ \<Rightarrow>
         (if space_byte c then
            (case find (\<lambda>e. prefix e s) encs of None \<Rightarrow> 0 | Some e \<Rightarrow> length e)
          else 0))"

lemma space_len_Nil [simp]: "space_len encs [] = 0"
  by (simp add: space_len_def)

function trim_left_by :: "string list \<Rightarrow> string \<Rightarrow> string" where
  "trim_left_by encs s =
     (if space_len encs s = 0 then s else trim_left_by encs (drop (space_len encs s) s))"
  by pat_completeness auto
termination
proof (relation "measure (\<lambda>(encs, s). length s)")
  fix encs :: "string list" and s
  assume "space_len encs s \<noteq> 0"
  then show "((encs, drop (space_len encs s) s), encs, s) \<in> measure (\<lambda>(encs, s). length s)"
    by (cases s) (auto simp: space_len_def)
qed simp

declare trim_left_by.simps [simp del]

definition trim_left :: "string \<Rightarrow> string" where
  "trim_left s = trim_left_by space_encodings s"

definition trim_right :: "string \<Rightarrow> string" where
  "trim_right s = rev (trim_left_by (map rev space_encodings) (rev s))"

definition trim_space :: "string \<Rightarrow> string" where
  "trim_space s = trim_right (trim_left s)"

lemma trim_left_by_suffix: "suffix (trim_left_by encs s) s"
proof (induction encs s rule: trim_left_by.induct)
  case (1 encs s)
  show ?case
  proof (cases "space_len encs s = 0")
    case True
    then show ?thesis by (simp add: trim_left_by.simps [of encs s])
  next
    case False
    with 1 have "suffix (trim_left_by encs (drop (space_len encs s) s)) (drop (space_len encs s) s)"
      by simp
    with False show ?thesis
      by (simp add: trim_left_by.simps [of encs s] suffix_order.order_trans [OF _ suffix_drop])
  qed
qed

lemma space_len_trim_left_by [simp]: "space_len encs (trim_left_by encs s) = 0"
proof (induction encs s rule: trim_left_by.induct)
  case (1 encs s)
  then show ?case by (cases "space_len encs s = 0") (simp_all add: trim_left_by.simps [of encs s])
qed

lemma trim_left_by_id: "space_len encs s = 0 \<Longrightarrow> trim_left_by encs s = s"
  by (simp add: trim_left_by.simps [of encs s])

lemma trim_left_by_Nil [simp]: "trim_left_by encs [] = []"
  by (simp add: trim_left_by_id)

text \<open>A byte outside ASCII and above the blank never starts a white-space rune.\<close>

lemma space_len_nonspace: "\<not> space_byte c \<Longrightarrow> space_len encs (c # s) = 0"
  by (simp add: space_len_def)

lemma space_len_prefix_0: "space_len encs (s @ t) = 0 \<Longrightarrow> [] \<notin> set encs \<Longrightarrow> space_len encs s = 0"
proof (rule ccontr)
  assume z: "space_len encs (s @ t) = 0" and ne: "[] \<notin> set encs" and "space_len encs s \<noteq> 0"
  then obtain c s' e where s: "s = c # s'" "space_byte c"
    and e: "find (\<lambda>e. prefix e s) encs = Some e"
    by (cases s) (auto simp: space_len_def split: if_splits option.splits)
  from e have "e \<in> set encs" "prefix e s" by (auto simp: find_Some_iff)
  then have "prefix e (s @ t)" by auto
  with \<open>e \<in> set encs\<close> obtain e' where e': "find (\<lambda>e. prefix e (s @ t)) encs = Some e'"
    by (cases "find (\<lambda>e. prefix e (s @ t)) encs") (auto simp: find_None_iff)
  then have "e' \<in> set encs" by (auto simp: find_Some_iff)
  with ne have "e' \<noteq> []" by auto
  with z e' s show False by (simp add: space_len_def)
qed

lemma Nil_notin_encodings: "[] \<notin> set space_encodings" "[] \<notin> set (map rev space_encodings)"
  by (simp_all add: space_encodings_def)

text \<open>Trimming twice is trimming once, and the result is a factor of the input.\<close>

lemma trim_space_ends:
  "space_len space_encodings (trim_space s) = 0"
  "space_len (map rev space_encodings) (rev (trim_space s)) = 0"
proof -
  have "suffix (rev (trim_space s)) (rev (trim_left s))"
    by (simp add: trim_space_def trim_right_def trim_left_by_suffix)
  then obtain t where "trim_left s = trim_space s @ t"
    by (metis prefixE suffix_to_prefix rev_rev_ident)
  moreover have "space_len space_encodings (trim_left s) = 0"
    by (simp add: trim_left_def)
  ultimately show "space_len space_encodings (trim_space s) = 0"
    using space_len_prefix_0 Nil_notin_encodings(1) by metis
  show "space_len (map rev space_encodings) (rev (trim_space s)) = 0"
    by (simp add: trim_space_def trim_right_def)
qed

lemma trim_space_idI:
  "space_len space_encodings s = 0 \<Longrightarrow> space_len (map rev space_encodings) (rev s) = 0 \<Longrightarrow>
   trim_space s = s"
  by (simp add: trim_space_def trim_left_def trim_right_def trim_left_by_id)

lemma trim_space_idem [simp, go_str]: "trim_space (trim_space s) = trim_space s"
  by (rule trim_space_idI) (rule trim_space_ends)+

lemma trim_space_Nil [simp, go_str]: "trim_space [] = []"
  by (simp add: trim_space_def trim_left_def trim_right_def)

lemma trim_space_sublist: "sublist (trim_space s) s"
proof -
  have "suffix (trim_left s) s" by (simp add: trim_left_def trim_left_by_suffix)
  moreover have "suffix (rev (trim_space s)) (rev (trim_left s))"
    by (simp add: trim_space_def trim_right_def trim_left_by_suffix)
  ultimately show ?thesis
    by (metis suffix_to_prefix rev_rev_ident prefix_imp_sublist suffix_imp_sublist
        sublist_order.order_trans)
qed

lemma set_trim_space: "set (trim_space s) \<subseteq> set s"
  using trim_space_sublist by (rule set_mono_sublist)

lemma length_trim_space: "length (trim_space s) \<le> length s"
  using trim_space_sublist by (rule sublist_length_le)

text \<open>Text that starts and ends with visible ASCII is left alone.\<close>

lemma trim_space_visible [go_str]:
  "s \<noteq> [] \<Longrightarrow> \<not> space_byte (hd s) \<Longrightarrow> \<not> space_byte (last s) \<Longrightarrow> trim_space s = s"
proof (rule trim_space_idI)
  assume *: "s \<noteq> []" "\<not> space_byte (hd s)" "\<not> space_byte (last s)"
  from *(1,2) show "space_len space_encodings s = 0"
    by (cases s) (simp_all add: space_len_nonspace)
  from *(1,3) show "space_len (map rev space_encodings) (rev s) = 0"
    by (cases s rule: rev_cases) (simp_all add: space_len_nonspace)
qed

lemma trim_space_all_visible: "\<forall>c \<in> set s. \<not> space_byte c \<Longrightarrow> trim_space s = s"
  by (cases "s = []") (auto intro!: trim_space_visible)


subsection \<open>Split and Join\<close>

text \<open>\<open>strings.Split(s, sep)\<close> for a one-byte separator: always at least one part.\<close>

fun split_on :: "char \<Rightarrow> string \<Rightarrow> string list" where
  "split_on c [] = [[]]"
| "split_on c (x # xs) =
     (if x = c then [] # split_on c xs
      else (case split_on c xs of [] \<Rightarrow> [[x]] | p # ps \<Rightarrow> (x # p) # ps))"

fun join_with :: "string \<Rightarrow> string list \<Rightarrow> string" where
  "join_with sep [] = []"
| "join_with sep [s] = s"
| "join_with sep (s # t # ss) = s @ sep @ join_with sep (t # ss)"

lemma split_on_nonempty [simp]: "split_on c s \<noteq> []"
  by (induction s) (auto split: list.splits)

lemma join_split [go_str]: "join_with [c] (split_on c s) = s"
proof (induction s)
  case Nil
  then show ?case by simp
next
  case (Cons x xs)
  then show ?case by (cases "split_on c xs"; cases "tl (split_on c xs)") auto
qed

lemma split_on_parts: "p \<in> set (split_on c s) \<Longrightarrow> c \<notin> set p"
proof (induction s arbitrary: p)
  case Nil
  then show ?case by simp
next
  case (Cons x xs)
  then show ?case by (cases "split_on c xs") (auto split: if_splits)
qed

lemma split_on_notin [simp]: "c \<notin> set s \<Longrightarrow> split_on c s = [s]"
  by (induction s) auto

lemma split_on_append: "c \<notin> set p \<Longrightarrow> split_on c (p @ c # s) = p # split_on c s"
  by (induction p) auto

lemma split_join [go_str]:
  "ps \<noteq> [] \<Longrightarrow> \<forall>p \<in> set ps. c \<notin> set p \<Longrightarrow> split_on c (join_with [c] ps) = ps"
proof (induction "[c]" ps rule: join_with.induct)
  case (3 s t ss)
  then show ?case using split_on_append [of c s "join_with [c] (t # ss)"] by simp
qed auto

text \<open>\<open>strings.SplitN(s, sep, 2)\<close>: split at the first separator, if there is one.\<close>

fun split_first :: "char \<Rightarrow> string \<Rightarrow> (string \<times> string) option" where
  "split_first c [] = None"
| "split_first c (x # xs) =
     (if x = c then Some ([], xs)
      else (case split_first c xs of None \<Rightarrow> None | Some (a, b) \<Rightarrow> Some (x # a, b)))"

lemma split_first_append [simp, go_str]: "c \<notin> set a \<Longrightarrow> split_first c (a @ c # b) = Some (a, b)"
  by (induction a) auto

lemma split_first_SomeD: "split_first c s = Some (a, b) \<Longrightarrow> s = a @ c # b \<and> c \<notin> set a"
proof (induction s arbitrary: a)
  case Nil
  then show ?case by simp
next
  case (Cons x xs)
  then show ?case by (auto split: if_splits option.splits)
qed

lemma split_first_Some: "split_first c s = Some (a, b) \<longleftrightarrow> s = a @ c # b \<and> c \<notin> set a"
  using split_first_SomeD split_first_append by metis

lemma split_first_None: "split_first c s = None \<longleftrightarrow> c \<notin> set s"
  by (induction s) (auto split: option.splits)

text \<open>\<open>strings.IndexByte\<close>: the first position of a byte, \<open>None\<close> for Go's \<open>-1\<close>.\<close>

definition index_byte :: "string \<Rightarrow> char \<Rightarrow> nat option" where
  "index_byte s c = map_option (\<lambda>(a, _). length a) (split_first c s)"

definition contains_sub :: "string \<Rightarrow> string \<Rightarrow> bool" where
  "contains_sub s t \<longleftrightarrow> sublist t s"


subsection \<open>Decimal numbers\<close>

text \<open>\<open>strconv.Itoa\<close> on a non-negative number, and its inverse on digit strings.\<close>

fun nat_digits :: "nat \<Rightarrow> string" where
  "nat_digits n =
     (if n < 10 then [char_of (48 + n)] else nat_digits (n div 10) @ [char_of (48 + n mod 10)])"

declare nat_digits.simps [simp del]

definition itoa :: "int \<Rightarrow> string" where
  "itoa x = (if x < 0 then CHR ''-'' # nat_digits (nat (- x)) else nat_digits (nat x))"

fun digits_value :: "nat \<Rightarrow> string \<Rightarrow> nat" where
  "digits_value acc [] = acc"
| "digits_value acc (c # cs) = digits_value (10 * acc + (byte c - 48)) cs"

lemma digits_value_append:
  "digits_value acc (s @ [c]) = 10 * digits_value acc s + (byte c - 48)"
  by (induction s arbitrary: acc) auto

lemma nat_digits_digits: "\<forall>c \<in> set (nat_digits n). is_digit c"
proof (induction n rule: nat_digits.induct)
  case (1 n)
  then show ?case by (auto simp: nat_digits.simps [of n] is_digit_def)
qed

lemma nat_digits_nonempty [simp]: "nat_digits n \<noteq> []"
  by (simp add: nat_digits.simps [of n])

text \<open>No leading zero, except for 0 itself.\<close>

lemma nat_digits_hd: "length (nat_digits n) = 1 \<or> hd (nat_digits n) \<noteq> CHR ''0''"
proof (induction n rule: nat_digits.induct)
  case (1 n)
  show ?case
  proof (cases "n < 10")
    case True
    then show ?thesis by (simp add: nat_digits.simps [of n])
  next
    case False
    have "hd (nat_digits (n div 10)) \<noteq> CHR ''0''"
    proof (cases "n div 10 < 10")
      case True
      have "byte (char_of (48 + n div 10) :: char) \<noteq> 48" using True False by simp
      then have "char_of (48 + n div 10) \<noteq> CHR ''0''" by force
      then show ?thesis using True by (simp add: nat_digits.simps [of "n div 10"])
    next
      case False': False
      then have "length (nat_digits (n div 10)) \<noteq> 1"
        by (simp add: nat_digits.simps [of "n div 10"])
      then show ?thesis using 1 False by blast
    qed
    then show ?thesis using False by (simp add: nat_digits.simps [of n])
  qed
qed

lemma digits_value_nat_digits: "digits_value 0 (nat_digits n) = n"
proof (induction n rule: nat_digits.induct)
  case (1 n)
  then show ?case
    by (cases "n < 10") (simp_all add: nat_digits.simps [of n] digits_value_append)
qed

text \<open>
  \<open>strconv.ParseInt(s, 10, 64)\<close>: an optional sign, then one or more digits, then the range
  check of \<open>int64\<close>. (The underscore form is only for base 0.)
\<close>

datatype parse_error = ErrSyntax | ErrRange

definition parse_int64 :: "string \<Rightarrow> parse_error + i64" where
  "parse_int64 s =
     (let (neg, ds) =
        (case s of [] \<Rightarrow> (False, [])
         | c # cs \<Rightarrow> if c = CHR ''+'' then (False, cs) else if c = CHR ''-'' then (True, cs)
                     else (False, s))
      in if ds = [] \<or> \<not> list_all is_digit ds then Inl ErrSyntax
         else (let v = int (digits_value 0 ds) in
           if neg then (if v \<le> 2 ^ 63 then Inr (- v) else Inl ErrRange)
           else (if v < 2 ^ 63 then Inr v else Inl ErrRange)))"

lemma parse_int64_range: "parse_int64 s = Inr n \<Longrightarrow> in_i64 n"
  by (auto simp: parse_int64_def Let_def i64_bounds split: list.splits if_splits)

lemma itoa_digits: "0 \<le> x \<Longrightarrow> c \<in> set (itoa x) \<Longrightarrow> is_digit c"
  using nat_digits_digits [of "nat x"] by (auto simp: itoa_def)

lemma itoa_chars: "c \<in> set (itoa x) \<Longrightarrow> is_digit c \<or> c = CHR ''-''"
  using nat_digits_digits by (auto simp: itoa_def split: if_splits)

lemma length_nat_digits: "n < 10 ^ Suc k \<Longrightarrow> length (nat_digits n) \<le> Suc k"
proof (induction k arbitrary: n)
  case 0
  then show ?case by (simp add: nat_digits.simps [of n])
next
  case (Suc k)
  then have "length (nat_digits (n div 10)) \<le> Suc k" by (simp add: less_mult_imp_div_less)
  then show ?case by (simp add: nat_digits.simps [of n])
qed

lemma length_itoa: "in_i64 x \<Longrightarrow> 1 \<le> length (itoa x) \<and> length (itoa x) \<le> 20"
proof -
  assume "in_i64 x"
  then have "\<bar>x\<bar> < 10 ^ 19" by (simp add: i64_bounds abs_less_iff)
  then have "nat \<bar>x\<bar> < 10 ^ Suc 18" by (simp add: nat_less_iff)
  from length_nat_digits [OF this] show ?thesis
    by (cases "nat_digits (nat \<bar>x\<bar>)") (auto simp: itoa_def split: if_splits)
qed

lemma parse_int64_itoa:
  assumes "in_i64 n"
  shows "parse_int64 (itoa n) = Inr n"
proof (cases "n < 0")
  case True
  then show ?thesis
    using assms nat_digits_digits [of "nat (- n)"]
    by (simp add: parse_int64_def itoa_def list_all_iff digits_value_nat_digits i64_bounds)
next
  case False
  obtain c cs where ds: "nat_digits (nat n) = c # cs" by (cases "nat_digits (nat n)") auto
  then have "is_digit c" using nat_digits_digits [of "nat n"] by auto
  then have "c \<noteq> CHR ''+''" "c \<noteq> CHR ''-''" by (auto simp: is_digit_def)
  then show ?thesis
    using assms False nat_digits_digits [of "nat n"] digits_value_nat_digits [of "nat n"]
    by (simp add: parse_int64_def itoa_def list_all_iff ds i64_bounds)
qed

end
