(* ===== verification/Go_Json.thy ===== *)
theory Go_Json
  imports Go_Strings "HOL-Library.Char_ord" "HOL-Library.List_Lexorder"
begin

section \<open>encoding/json: the encoder behind \<open>writeJSON\<close>\<close>

text \<open>
  The values the gateway encodes, as \<open>json.NewEncoder(w).Encode\<close> writes them: the keys of a map
  (\<open>JObject\<close>) sorted, the fields of a struct (\<open>JStruct\<close>) in order, HTML characters and U+2028 / U+2029 escaped, bytes that are not UTF-8 replaced by
  \<open>\ufffd\<close>. Numbers carry their printed text.
\<close>

datatype json =
  JNull
| JBool bool
| JNumber string
| JString string
| JArray "json list"
| JObject "(string \<times> json) list"
| JStruct "(string \<times> json) list"


subsection \<open>UTF-8\<close>

text \<open>
  \<open>utf8.DecodeRune\<close>'s acceptance table: the length of the well-formed encoding a string
  starts with, 0 when there is none.
\<close>

definition is_cont :: "char \<Rightarrow> bool" where
  "is_cont c \<longleftrightarrow> 0x80 \<le> byte c \<and> byte c \<le> 0xBF"

definition second_ok :: "nat \<Rightarrow> nat \<Rightarrow> bool" where
  "second_ok b0 b1 \<longleftrightarrow>
     (if b0 = 0xE0 then 0xA0 \<le> b1 \<and> b1 \<le> 0xBF
      else if b0 = 0xED then 0x80 \<le> b1 \<and> b1 \<le> 0x9F
      else if b0 = 0xF0 then 0x90 \<le> b1 \<and> b1 \<le> 0xBF
      else if b0 = 0xF4 then 0x80 \<le> b1 \<and> b1 \<le> 0x8F
      else 0x80 \<le> b1 \<and> b1 \<le> 0xBF)"

definition utf8_width :: "nat \<Rightarrow> nat" where
  "utf8_width b =
     (if b < 0x80 then 1 else if 0xC2 \<le> b \<and> b \<le> 0xDF then 2
      else if 0xE0 \<le> b \<and> b \<le> 0xEF then 3 else if 0xF0 \<le> b \<and> b \<le> 0xF4 then 4 else 0)"

definition utf8_len :: "string \<Rightarrow> nat" where
  "utf8_len s =
     (case s of [] \<Rightarrow> 0
      | c # cs \<Rightarrow>
          (let n = utf8_width (byte c) in
           if n \<le> 1 then n
           else if length s < n then 0
           else if second_ok (byte c) (byte (hd cs)) \<and> list_all is_cont (take (n - 2) (tl cs)) then n
           else 0))"

lemma utf8_len_le: "utf8_len s \<le> length s"
  by (auto simp: utf8_len_def utf8_width_def Let_def Suc_le_eq split: list.splits if_splits)


subsection \<open>Strings\<close>

definition hex_nibble :: "nat \<Rightarrow> char" where
  "hex_nibble n = (if n < 10 then char_of (48 + n) else char_of (87 + n))"

definition json_escape_ascii :: "char \<Rightarrow> string" where
  "json_escape_ascii c =
     (if c = CHR 0x22 \<or> c = CHR 0x5C then [CHR 0x5C, c]
      else if c = CHR 0x08 then [CHR 0x5C, CHR ''b'']
      else if c = CHR 0x0C then [CHR 0x5C, CHR ''f'']
      else if c = CHR 0x0A then [CHR 0x5C, CHR ''n'']
      else if c = CHR 0x0D then [CHR 0x5C, CHR ''r'']
      else if c = CHR 0x09 then [CHR 0x5C, CHR ''t'']
      else if byte c < 0x20 \<or> c = CHR ''<'' \<or> c = CHR ''>'' \<or> c = CHR ''&''
      then CHR 0x5C # ''u00'' @ [hex_nibble (byte c div 16), hex_nibble (byte c mod 16)]
      else [c])"

function json_escape :: "string \<Rightarrow> string" where
  "json_escape [] = []"
| "json_escape (c # cs) =
     (if byte c < 0x80 then json_escape_ascii c @ json_escape cs
      else
        (let n = utf8_len (c # cs); enc = take n (c # cs) in
         if n = 0 then CHR 0x5C # ''ufffd'' @ json_escape cs
         else if enc = [CHR 0xE2, CHR 0x80, CHR 0xA8]
         then CHR 0x5C # ''u2028'' @ json_escape (drop n (c # cs))
         else if enc = [CHR 0xE2, CHR 0x80, CHR 0xA9]
         then CHR 0x5C # ''u2029'' @ json_escape (drop n (c # cs))
         else enc @ json_escape (drop n (c # cs))))"
  by pat_completeness auto
termination by (relation "measure length") auto

definition json_string :: "string \<Rightarrow> string" where
  "json_string s = CHR 0x22 # json_escape s @ [CHR 0x22]"


subsection \<open>Values\<close>

fun json_encode :: "json \<Rightarrow> string" where
  "json_encode JNull = ''null''"
| "json_encode (JBool b) = (if b then ''true'' else ''false'')"
| "json_encode (JNumber s) = s"
| "json_encode (JString s) = json_string s"
| "json_encode (JArray vs) = ''['' @ join_with '','' (map json_encode vs) @ '']''"
| "json_encode (JObject kvs) =
     ''{'' @ join_with '',''
       (map (\<lambda>(k, t). json_string k @ '':'' @ t)
          (sort_key fst (map (\<lambda>(k, v). (k, json_encode v)) kvs))) @ ''}''"
| "json_encode (JStruct kvs) =
     ''{'' @ join_with '','' (map (\<lambda>(k, t). json_string k @ '':'' @ t)
       (map (\<lambda>(k, v). (k, json_encode v)) kvs)) @ ''}''"

definition json_int :: "int \<Rightarrow> json" where
  "json_int n = JNumber (itoa n)"

end
