(* ===== verification/Go_Url.thy ===== *)
theory Go_Url
  imports Go_Strings
begin

section \<open>net/url\<close>

text \<open>
  The URL parser the configuration is validated with and requests are built with. \<open>url_parse\<close>
  follows \<open>url.Parse\<close>: fragment, scheme, query, authority with user information and port,
  percent-decoding per component. An error is \<open>None\<close>; the code never looks at its text.
\<close>


subsection \<open>Percent-encoding\<close>

datatype url_encoding = EncodePath | EncodeHost | EncodeZone | EncodeUserPassword | EncodeFragment

definition quote_char :: char where "quote_char = CHR 0x27"

definition should_escape :: "char \<Rightarrow> url_encoding \<Rightarrow> bool" where
  "should_escape c mode =
     (if is_alnum c then False
      else if (mode = EncodeHost \<or> mode = EncodeZone) \<and>
              (c \<in> set ''!$&()*+,;=:[]<>'' \<or> c = quote_char \<or> c = CHR 0x22) then False
      else if c \<in> set ''-_.~'' then False
      else if c \<in> set ''$&+,/:;=?@'' then
        (case mode of
           EncodePath \<Rightarrow> c = CHR ''?''
         | EncodeUserPassword \<Rightarrow> c \<in> set ''@/?:''
         | EncodeFragment \<Rightarrow> False
         | _ \<Rightarrow> True)
      else if mode = EncodeFragment \<and> c \<in> set ''!()*'' then False
      else True)"

definition unhex :: "char \<Rightarrow> nat option" where
  "unhex c =
     (if is_digit c then Some (byte c - 48)
      else if 97 \<le> byte c \<and> byte c \<le> 102 then Some (byte c - 87)
      else if 65 \<le> byte c \<and> byte c \<le> 70 then Some (byte c - 55)
      else None)"

fun url_unescape :: "url_encoding \<Rightarrow> string \<Rightarrow> string option" where
  "url_unescape mode [] = Some []"
| "url_unescape mode (c # s) =
     (if c = CHR ''%'' then
        (case s of
           a # b # rest \<Rightarrow>
             (case (unhex a, unhex b) of
                (Some x, Some y) \<Rightarrow>
                  (if mode = EncodeHost \<and> x < 8 \<and> \<not> (a = CHR ''2'' \<and> b = CHR ''5'') then None
                   else if mode = EncodeZone \<and> \<not> (a = CHR ''2'' \<and> b = CHR ''5'') \<and>
                           16 * x + y \<noteq> 32 \<and> should_escape (char_of (16 * x + y)) EncodeHost then None
                   else map_option (Cons (char_of (16 * x + y))) (url_unescape mode rest))
              | _ \<Rightarrow> None)
         | _ \<Rightarrow> None)
      else if (mode = EncodeHost \<or> mode = EncodeZone) \<and> byte c < 128 \<and> should_escape c mode then None
      else map_option (Cons c) (url_unescape mode s))"

definition upper_hex :: "nat \<Rightarrow> char" where
  "upper_hex n = (if n < 10 then char_of (48 + n) else char_of (55 + n))"

definition url_escape :: "url_encoding \<Rightarrow> string \<Rightarrow> string" where
  "url_escape mode s =
     concat (map (\<lambda>c. if should_escape c mode
       then [CHR ''%'', upper_hex (byte c div 16), upper_hex (byte c mod 16)] else [c]) s)"

lemma unhex_upper_hex: "n < 16 \<Longrightarrow> unhex (upper_hex n) = Some n"
  by (auto simp: unhex_def upper_hex_def is_digit_def)

text \<open>Escaping a path and reading it back yields the path.\<close>

lemma url_unescape_escape: "url_unescape EncodePath (url_escape EncodePath s) = Some s"
proof (induction s)
  case Nil
  then show ?case by (simp add: url_escape_def)
next
  case (Cons c s)
  have "byte c div 16 < 16" "byte c mod 16 < 16" using byte_bound [of c] by (arith, simp)
  then have hex: "unhex (upper_hex (byte c div 16)) = Some (byte c div 16)"
    "unhex (upper_hex (byte c mod 16)) = Some (byte c mod 16)" by (simp_all add: unhex_upper_hex)
  have "16 * (byte c div 16) + byte c mod 16 = byte c" by simp
  then have "char_of (16 * (byte c div 16) + byte c mod 16) = c"
    by (simp only: char_of_char)
  moreover have "should_escape CHR ''%'' EncodePath" by code_simp
  ultimately show ?case
    using Cons hex by (auto simp: url_escape_def)
qed


subsection \<open>URLs\<close>

record url =
  url_scheme :: string
  url_opaque :: string
  url_user :: "string option"
  url_host :: string
  url_path :: string
  url_raw_path :: string
  url_raw_query :: string
  url_force_query :: bool
  url_fragment :: string

definition empty_url :: url where
  "empty_url = \<lparr>url_scheme = [], url_opaque = [], url_user = None, url_host = [], url_path = [],
     url_raw_path = [], url_raw_query = [], url_force_query = False, url_fragment = []\<rparr>"

text \<open>\<open>strings.Cut\<close> at the first, and a split at the last occurrence of a byte.\<close>

definition str_cut :: "char \<Rightarrow> string \<Rightarrow> string \<times> string" where
  "str_cut c s = (case split_first c s of None \<Rightarrow> (s, []) | Some (a, b) \<Rightarrow> (a, b))"

definition split_last :: "char \<Rightarrow> string \<Rightarrow> (string \<times> string) option" where
  "split_last c s =
     (case split_first c (rev s) of None \<Rightarrow> None | Some (a, b) \<Rightarrow> Some (rev b, rev a))"

fun find_sub :: "string \<Rightarrow> string \<Rightarrow> (string \<times> string) option" where
  "find_sub t [] = (if t = [] then Some ([], []) else None)"
| "find_sub t (c # s) =
     (if prefix t (c # s) then Some ([], c # s)
      else map_option (apfst (Cons c)) (find_sub t s))"

text \<open>The scheme: letters, then letters, digits and \<open>+-.\<close>; \<open>None\<close> for a missing scheme.\<close>

fun scheme_scan :: "bool \<Rightarrow> string \<Rightarrow> string option" where
  "scheme_scan first [] = None"
| "scheme_scan first (c # s) =
     (if is_upper c \<or> is_lower c then map_option (Cons c) (scheme_scan False s)
      else if is_digit c \<or> c \<in> set ''+-.'' then
        (if first then None else map_option (Cons c) (scheme_scan False s))
      else if c = CHR '':'' \<and> \<not> first then Some []
      else None)"

definition get_scheme :: "string \<Rightarrow> (string \<times> string) option" where
  "get_scheme s =
     (if prefix '':'' s then None
      else (case scheme_scan True s of
          None \<Rightarrow> Some ([], s)
        | Some sch \<Rightarrow> Some (sch, drop (Suc (length sch)) s)))"

definition valid_optional_port :: "string \<Rightarrow> bool" where
  "valid_optional_port p = (p = [] \<or> (hd p = CHR '':'' \<and> list_all is_digit (tl p)))"

definition parse_host :: "string \<Rightarrow> string option" where
  "parse_host host =
     (if prefix ''['' host then
        (case split_last CHR '']'' host of
           None \<Rightarrow> None
         | Some (inner, port) \<Rightarrow>
             (if \<not> valid_optional_port port then None
              else (case find_sub ''%25'' inner of
                  None \<Rightarrow> url_unescape EncodeHost host
                | Some (pre, zone) \<Rightarrow>
                    (case (url_unescape EncodeHost pre, url_unescape EncodeZone zone,
                           url_unescape EncodeHost (CHR '']'' # port)) of
                       (Some a, Some b, Some c) \<Rightarrow> Some (a @ b @ c)
                     | _ \<Rightarrow> None))))
      else (case split_last CHR '':'' host of
          Some (_, port) \<Rightarrow>
            (if \<not> valid_optional_port (CHR '':'' # port) then None else url_unescape EncodeHost host)
        | None \<Rightarrow> url_unescape EncodeHost host))"

definition valid_userinfo :: "string \<Rightarrow> bool" where
  "valid_userinfo s = list_all (\<lambda>c. is_alnum c \<or> c \<in> set ''-._:~!$&()*+,;=%@'' \<or> c = quote_char) s"

definition parse_userinfo :: "string \<Rightarrow> string option" where
  "parse_userinfo s =
     (if \<not> valid_userinfo s then None
      else (case split_first CHR '':'' s of
          None \<Rightarrow> url_unescape EncodeUserPassword s
        | Some (u, p) \<Rightarrow>
            (case (url_unescape EncodeUserPassword u, url_unescape EncodeUserPassword p) of
               (Some a, Some b) \<Rightarrow> Some (a @ '':'' @ b) | _ \<Rightarrow> None)))"

text \<open>The user information (if there is any) and the host.\<close>

definition parse_authority :: "string \<Rightarrow> (string option \<times> string) option" where
  "parse_authority a =
     (case split_last CHR ''@'' a of
        None \<Rightarrow> map_option (Pair None) (parse_host a)
      | Some (user, h) \<Rightarrow>
          (case (parse_host h, parse_userinfo user) of
             (Some host, Some u) \<Rightarrow> Some (Some u, host) | _ \<Rightarrow> None))"

definition set_path :: "string \<Rightarrow> url \<Rightarrow> url option" where
  "set_path p u =
     (case url_unescape EncodePath p of
        None \<Rightarrow> None
      | Some path \<Rightarrow>
          Some (u\<lparr>url_path := path,
                  url_raw_path := (if p = url_escape EncodePath path then [] else p)\<rparr>))"

definition has_ctl :: "string \<Rightarrow> bool" where
  "has_ctl s = list_ex (\<lambda>c. byte c < 32 \<or> byte c = 127) s"

definition url_parse_rest :: "string \<Rightarrow> string \<Rightarrow> url option" where
  "url_parse_rest sch rest =
     (let u = empty_url\<lparr>url_scheme := to_lower sch\<rparr>;
          (rest, u) =
            (if suffix ''?'' rest \<and> CHR ''?'' \<notin> set (butlast rest)
             then (butlast rest, u\<lparr>url_force_query := True\<rparr>)
             else (let (r, q) = str_cut CHR ''?'' rest in (r, u\<lparr>url_raw_query := q\<rparr>)))
      in if \<not> prefix ''/'' rest \<and> sch \<noteq> [] then Some (u\<lparr>url_opaque := rest\<rparr>)
         else if \<not> prefix ''/'' rest \<and> CHR '':'' \<in> set (fst (str_cut CHR ''/'' rest)) then None
         else if prefix ''//'' rest \<and> (sch \<noteq> [] \<or> \<not> prefix ''///'' rest) then
           (let (authority, path) =
                  (case split_first CHR ''/'' (drop 2 rest) of
                     None \<Rightarrow> (drop 2 rest, []) | Some (a, p) \<Rightarrow> (a, CHR ''/'' # p))
            in (case parse_authority authority of
                  None \<Rightarrow> None
                | Some (user, host) \<Rightarrow> set_path path (u\<lparr>url_user := user, url_host := host\<rparr>)))
         else set_path rest u)"

definition url_parse :: "string \<Rightarrow> url option" where
  "url_parse raw =
     (let (s, frag) = str_cut CHR ''#'' raw in
      case (if has_ctl s then None
            else if s = ''*'' then Some (empty_url\<lparr>url_path := ''*''\<rparr>)
            else (case get_scheme s of
                None \<Rightarrow> None
              | Some (sch, rest) \<Rightarrow> url_parse_rest sch rest)) of
        None \<Rightarrow> None
      | Some u \<Rightarrow>
          (if frag = [] then Some u
           else map_option (\<lambda>f. u\<lparr>url_fragment := f\<rparr>) (url_unescape EncodeFragment frag)))"


subsection \<open>Printing\<close>

definition valid_encoded_path :: "string \<Rightarrow> bool" where
  "valid_encoded_path s =
     list_all (\<lambda>c. c \<in> set ''!$&()*+,;=:@[]%'' \<or> c = quote_char \<or> \<not> should_escape c EncodePath) s"

definition escaped_path :: "url \<Rightarrow> string" where
  "escaped_path u =
     (if url_raw_path u \<noteq> [] \<and> valid_encoded_path (url_raw_path u) \<and>
         url_unescape EncodePath (url_raw_path u) = Some (url_path u) then url_raw_path u
      else if url_path u = ''*'' then ''*''
      else url_escape EncodePath (url_path u))"

text \<open>\<open>URL.String\<close> for a URL with a host and without user information.\<close>

definition url_string :: "url \<Rightarrow> string" where
  "url_string u =
     (let path = escaped_path u in
      (if url_scheme u \<noteq> [] then url_scheme u @ '':'' else []) @ ''//''
      @ url_escape EncodeHost (url_host u)
      @ (if path \<noteq> [] \<and> hd path \<noteq> CHR ''/'' then ''/'' else []) @ path
      @ (if url_force_query u \<or> url_raw_query u \<noteq> [] then ''?'' @ url_raw_query u else [])
      @ (if url_fragment u \<noteq> [] then ''#'' @ url_escape EncodeFragment (url_fragment u) else []))"


end
