(* ===== verification/Go_Duration.thy ===== *)
theory Go_Duration
  imports Go_Strings
begin

section \<open>time.ParseDuration\<close>

text \<open>
  The duration syntax of the configuration, e.g. \<open>1m30s\<close>, with the overflow checks of the
  standard library. The fraction of a unit is multiplied out exactly here; Go computes it in
  \<open>float64\<close>, so a value with a long fraction may differ by a nanosecond.
\<close>

definition two63 :: int where "two63 = 2 ^ 63"

definition digit_of :: "char \<Rightarrow> int" where "digit_of c = int (byte c) - 48"

text \<open>\<open>leadingInt\<close>: the value of the leading digits, \<open>None\<close> on overflow.\<close>

fun leading_int :: "int \<Rightarrow> string \<Rightarrow> int option" where
  "leading_int v [] = Some v"
| "leading_int v (c # s) =
     (if two63 div 10 < v then None
      else let v = v * 10 + digit_of c in if two63 < v then None else leading_int v s)"

text \<open>\<open>leadingFraction\<close>: the digits that fit, with their scale.\<close>

fun leading_fraction :: "int \<Rightarrow> int \<Rightarrow> string \<Rightarrow> int \<times> int" where
  "leading_fraction v scale [] = (v, scale)"
| "leading_fraction v scale (c # s) =
     (if (two63 - 1) div 10 < v then (v, scale)
      else let y = v * 10 + digit_of c in
        if two63 < y then (v, scale) else leading_fraction y (scale * 10) s)"

definition unit_nanos :: "string \<Rightarrow> int option" where
  "unit_nanos u =
     map_of [(''ns'', 1), (''us'', 1000), ([CHR 0xC2, CHR 0xB5, CHR ''s''], 1000),
       ([CHR 0xCE, CHR 0xBC, CHR ''s''], 1000), (''ms'', 1000000), (''s'', 1000000000),
       (''m'', 60000000000), (''h'', 3600000000000)] u"

definition is_number_char :: "char \<Rightarrow> bool" where
  "is_number_char c \<longleftrightarrow> c = CHR ''.'' \<or> is_digit c"

text \<open>The digits after a decimal point, if there is one, and the text after them.\<close>

definition split_fraction :: "string \<Rightarrow> string \<times> string" where
  "split_fraction s =
     (if prefix ''.'' s then (takeWhile is_digit (tl s), dropWhile is_digit (tl s)) else ([], s))"

text \<open>One term: its nanoseconds and the text after it.\<close>

definition duration_term :: "string \<Rightarrow> (int \<times> string) option" where
  "duration_term s =
     (let whole = takeWhile is_digit s;
          (frac, s) = split_fraction (dropWhile is_digit s);
          u = takeWhile (\<lambda>c. \<not> is_number_char c) s; s = dropWhile (\<lambda>c. \<not> is_number_char c) s
      in if whole = [] \<and> frac = [] then None
         else case (leading_int 0 whole, unit_nanos u) of
           (Some v, Some unit) \<Rightarrow>
             (let (f, scale) = leading_fraction 0 1 frac in
              if two63 div unit < v then None
              else let v = v * unit + (f * unit) div scale in
                if two63 < v then None else Some (v, s))
         | _ \<Rightarrow> None)"

lemma unit_nanos_nonempty: "unit_nanos u = Some k \<Longrightarrow> u \<noteq> []"
  by (auto simp: unit_nanos_def)

lemma split_fraction_shorter: "length (snd (split_fraction s)) \<le> length s"
  using length_dropWhile_le [of is_digit "tl s"] by (auto simp: split_fraction_def)

lemma split_fraction_digits: "c \<in> set (fst (split_fraction s)) \<Longrightarrow> is_digit c"
  by (auto simp: split_fraction_def dest: set_takeWhileD split: if_splits)

lemma duration_termD:
  assumes "duration_term s = Some (v, s')"
  obtains whole frac u t n k f scale where "split_fraction (dropWhile is_digit s) = (frac, t)"
    "whole = takeWhile is_digit s" "u = takeWhile (\<lambda>c. \<not> is_number_char c) t" "u \<noteq> []"
    "s' = dropWhile (\<lambda>c. \<not> is_number_char c) t" "leading_int 0 whole = Some n"
    "unit_nanos u = Some k" "leading_fraction 0 1 frac = (f, scale)"
    "v = n * k + (f * k) div scale" "v \<le> two63"
proof -
  obtain frac t where t: "split_fraction (dropWhile is_digit s) = (frac, t)" by (metis prod.collapse)
  show thesis
    using assms that [OF t refl refl unit_nanos_nonempty _]
    by (auto simp: duration_term_def t Let_def split: if_splits option.splits prod.splits)
qed

lemma duration_term_shorter:
  assumes "duration_term s = Some (v, s')" shows "length s' < length s"
proof (rule duration_termD [OF assms])
  fix frac t u
  assume *: "split_fraction (dropWhile is_digit s) = (frac, t)" "u \<noteq> []"
    "u = takeWhile (\<lambda>c. \<not> is_number_char c) t" "s' = dropWhile (\<lambda>c. \<not> is_number_char c) t"
  have "length t = length u + length s'"
    using takeWhile_dropWhile_id [of "\<lambda>c. \<not> is_number_char c" t] *(3,4) by (metis length_append)
  moreover have "length t \<le> length s"
    using *(1) split_fraction_shorter [of "dropWhile is_digit s"] length_dropWhile_le [of is_digit s]
    by simp
  ultimately show ?thesis using *(2) by (cases u) auto
qed

function duration_terms :: "int \<Rightarrow> string \<Rightarrow> int option" where
  "duration_terms d s =
     (if s = [] then Some d
      else case duration_term s of
        None \<Rightarrow> None
      | Some (v, s') \<Rightarrow> (if two63 < d + v then None else duration_terms (d + v) s'))"
  by pat_completeness auto
termination
  by (relation "measure (\<lambda>(d, s). length s)") (auto dest: duration_term_shorter)

declare duration_terms.simps [simp del]

definition time_parse_duration :: "string \<Rightarrow> duration option" where
  "time_parse_duration s =
     (let neg = (s \<noteq> [] \<and> hd s = CHR ''-'');
          s = (if s \<noteq> [] \<and> (hd s = CHR ''-'' \<or> hd s = CHR ''+'') then tl s else s)
      in if s = ''0'' then Some 0
         else if s = [] then None
         else case duration_terms 0 s of
           None \<Rightarrow> None
         | Some d \<Rightarrow> (if neg then Some (- d) else if max_i64 < d then None else Some d))"


subsection \<open>The result is an \<open>int64\<close>\<close>

lemma unit_nanos_pos: "unit_nanos u = Some k \<Longrightarrow> 0 < k"
  by (auto simp: unit_nanos_def split: if_splits)

lemma digit_of_nonneg: "is_digit c \<Longrightarrow> 0 \<le> digit_of c"
  by (simp add: is_digit_def digit_of_def)

lemma leading_int_nonneg: "leading_int v s = Some r \<Longrightarrow> 0 \<le> v \<Longrightarrow> \<forall>c \<in> set s. is_digit c \<Longrightarrow> 0 \<le> r"
  by (induction v s rule: leading_int.induct) (auto simp: Let_def digit_of_nonneg split: if_splits)

lemma leading_fraction_nonneg:
  "leading_fraction v k s = (f, scale) \<Longrightarrow> 0 \<le> v \<Longrightarrow> 0 < k \<Longrightarrow> \<forall>c \<in> set s. is_digit c \<Longrightarrow>
   0 \<le> f \<and> 0 < scale"
  by (induction v k s rule: leading_fraction.induct)
     (auto simp: Let_def digit_of_nonneg split: if_splits)

lemma duration_term_nonneg:
  assumes "duration_term s = Some (v, s')" shows "0 \<le> v"
proof (rule duration_termD [OF assms])
  fix whole frac u t n k f scale
  assume *: "split_fraction (dropWhile is_digit s) = (frac, t)" "whole = takeWhile is_digit s"
    "leading_int 0 whole = Some n" "unit_nanos u = Some k" "leading_fraction 0 1 frac = (f, scale)"
    "v = n * k + (f * k) div scale"
  have "0 \<le> n" using leading_int_nonneg [OF *(3)] *(2) by (auto dest: set_takeWhileD)
  moreover have "0 \<le> f \<and> 0 < scale"
    using leading_fraction_nonneg [OF *(5)] split_fraction_digits [of _ "dropWhile is_digit s"] *(1)
    by auto
  moreover have "0 < k" using *(4) by (rule unit_nanos_pos)
  ultimately show ?thesis using *(6) by (simp add: pos_imp_zdiv_nonneg_iff)
qed

lemma duration_terms_range: "0 \<le> d \<Longrightarrow> d \<le> two63 \<Longrightarrow> duration_terms d s = Some r \<Longrightarrow> 0 \<le> r \<and> r \<le> two63"
proof (induction d s rule: duration_terms.induct)
  case (1 d s)
  then show ?case
    by (auto simp: duration_terms.simps [of d s] dest: duration_term_nonneg
        split: if_splits option.splits prod.splits)
qed

lemma time_parse_duration_range: "time_parse_duration s = Some d \<Longrightarrow> in_i64 d"
  using duration_terms_range [of 0]
  by (fastforce simp: time_parse_duration_def Let_def i64_bounds two63_def
      split: if_splits option.splits)

end
