(* ===== verification/Go_Netip.thy ===== *)
theory Go_Netip
  imports Go_Strings "HOL-Library.Word"
begin

section \<open>net/netip: addresses and prefixes\<close>

text \<open>
  IP addresses and CIDR prefixes as the trusted-proxy code uses them: the parsers, \<open>Unmap\<close>,
  \<open>Masked\<close>, \<open>Contains\<close> and \<open>String\<close>. The zero \<open>Addr\<close> never escapes the parsers, so an
  address is an IPv4 or an IPv6 address with its zone (empty when there is none).
\<close>

datatype ip_addr = IPv4 "32 word" | IPv6 "128 word" string


subsection \<open>Parsing\<close>

definition ipv4_octet :: "string \<Rightarrow> nat option" where
  "ipv4_octet p =
     (if p \<noteq> [] \<and> list_all is_digit p \<and> (length p = 1 \<or> hd p \<noteq> CHR ''0'') \<and>
         digits_value 0 p \<le> 255 then Some (digits_value 0 p) else None)"

definition parse_ipv4 :: "string \<Rightarrow> 32 word option" where
  "parse_ipv4 s =
     (case map ipv4_octet (split_on CHR ''.'' s) of
        [Some a, Some b, Some c, Some d] \<Rightarrow> 
          Some (of_int (((int a * 256 + int b) * 256 + int c) * 256 + int d))
      | _ \<Rightarrow> None)"

definition hex_value :: "char \<Rightarrow> nat option" where
  "hex_value c =
     (if is_digit c then Some (byte c - 48)
      else if 97 \<le> byte c \<and> byte c \<le> 102 then Some (byte c - 87)
      else if 65 \<le> byte c \<and> byte c \<le> 70 then Some (byte c - 55)
      else None)"

fun hex_number :: "int \<Rightarrow> string \<Rightarrow> int" where
  "hex_number acc [] = acc"
| "hex_number acc (c # s) =
     (case hex_value c of None \<Rightarrow> acc | Some v \<Rightarrow> hex_number (16 * acc + int v) s)"

text \<open>
  The loop of \<open>parseIPv6\<close>, at most eight groups: the groups read, the position of \<open>::\<close>, and
  what is left of the text.
\<close>

fun ipv6_groups ::
  "nat \<Rightarrow> int list \<Rightarrow> nat option \<Rightarrow> string \<Rightarrow> (int list \<times> nat option \<times> string) option" where
  "ipv6_groups 0 gs ell s = Some (gs, ell, s)"
| "ipv6_groups (Suc n) gs ell s =
     (let h = takeWhile (\<lambda>c. hex_value c \<noteq> None) s; rest = drop (length h) s in
      if h = [] \<or> 4 < length h then None
      else if prefix ''.'' rest then
        (if (ell = None \<and> length gs \<noteq> 6) \<or> 6 < length gs then None
         else (case parse_ipv4 s of
             None \<Rightarrow> None
           | Some w \<Rightarrow> Some (gs @ [uint w div 65536, uint w mod 65536], ell, [])))
      else
        (let gs = gs @ [hex_number 0 h] in
         if rest = [] then Some (gs, ell, [])
         else if hd rest \<noteq> CHR '':'' \<or> length rest = 1 then None
         else if prefix '':'' (tl rest) then
           (if ell \<noteq> None then None
            else if drop 2 rest = [] then Some (gs, Some (length gs), [])
            else ipv6_groups n gs (Some (length gs)) (drop 2 rest))
         else ipv6_groups n gs ell (tl rest)))"

definition groups_word :: "int list \<Rightarrow> int" where
  "groups_word gs = foldl (\<lambda>acc g. acc * 65536 + g) 0 gs"

definition ipv6_finish :: "int list \<Rightarrow> nat option \<Rightarrow> string \<Rightarrow> 128 word option" where
  "ipv6_finish gs ell s =
     (if s \<noteq> [] then None
      else if length gs < 8 then
        (case ell of
           None \<Rightarrow> None
         | Some k \<Rightarrow>
             Some (of_int (groups_word (take k gs @ replicate (8 - length gs) 0 @ drop k gs))))
      else if ell \<noteq> None then None
      else Some (of_int (groups_word gs)))"

definition parse_ipv6 :: "string \<Rightarrow> ip_addr option" where
  "parse_ipv6 s =
     (let (s, zone) = (case split_first CHR ''%'' s of None \<Rightarrow> (s, None) | Some (a, z) \<Rightarrow> (a, Some z)) in
      if zone = Some [] then None
      else let z = (case zone of None \<Rightarrow> [] | Some z \<Rightarrow> z);
               ell = prefix ''::'' s; s = (if ell then drop 2 s else s)
        in if ell \<and> s = [] then Some (IPv6 0 z)
           else case ipv6_groups 8 [] (if ell then Some 0 else None) s of
             None \<Rightarrow> None
           | Some (gs, e, rest) \<Rightarrow> map_option (\<lambda>w. IPv6 w z) (ipv6_finish gs e rest))"

text \<open>\<open>ParseAddr\<close> is decided by the first of \<open>.\<close>, \<open>:\<close> and \<open>%\<close>.\<close>

definition parse_addr :: "string \<Rightarrow> ip_addr option" where
  "parse_addr s =
     (case dropWhile (\<lambda>c. c \<notin> {CHR ''.'', CHR '':'', CHR ''%''}) s of
        [] \<Rightarrow> None
      | c # _ \<Rightarrow>
          (if c = CHR ''.'' then map_option IPv4 (parse_ipv4 s)
           else if c = CHR '':'' then parse_ipv6 s
           else None))"


subsection \<open>Addresses\<close>

definition is_4in6 :: "ip_addr \<Rightarrow> bool" where
  "is_4in6 a = (case a of IPv4 _ \<Rightarrow> False | IPv6 w _ \<Rightarrow> drop_bit 32 w = 0xffff)"

definition addr_unmap :: "ip_addr \<Rightarrow> ip_addr" where
  "addr_unmap a =
     (case a of IPv4 w \<Rightarrow> IPv4 w
      | IPv6 w z \<Rightarrow> (if is_4in6 (IPv6 w z) then IPv4 (ucast w) else IPv6 w z))"

definition addr_zone :: "ip_addr \<Rightarrow> string" where
  "addr_zone a = (case a of IPv4 _ \<Rightarrow> [] | IPv6 _ z \<Rightarrow> z)"

definition bit_len :: "ip_addr \<Rightarrow> nat" where
  "bit_len a = (case a of IPv4 _ \<Rightarrow> 32 | IPv6 _ _ \<Rightarrow> 128)"

lemma addr_unmap_idem [simp]: "addr_unmap (addr_unmap a) = addr_unmap a"
  by (cases a) (simp_all add: addr_unmap_def)

lemma not_4in6_unmap [simp]: "\<not> is_4in6 (addr_unmap a)"
  by (cases a) (simp_all add: addr_unmap_def is_4in6_def)


subsection \<open>Printing\<close>

definition ipv4_string :: "32 word \<Rightarrow> string" where
  "ipv4_string w =
     (let n = uint w in
      itoa (n div 16777216) @ ''.'' @ itoa (n div 65536 mod 256) @ ''.'' @
      itoa (n div 256 mod 256) @ ''.'' @ itoa (n mod 256))"

definition word_groups :: "128 word \<Rightarrow> int list" where
  "word_groups w = map (\<lambda>i. uint w div 65536 ^ (7 - i) mod 65536) [0..<8]"

function hex_digits :: "int \<Rightarrow> string" where
  "hex_digits n =
     (let d = (if n mod 16 < 10 then char_of (48 + nat (n mod 16)) else char_of (87 + nat (n mod 16)))
      in if n < 16 then [d] else hex_digits (n div 16) @ [d])"
  by pat_completeness auto
termination by (relation "measure nat") auto

declare hex_digits.simps [simp del]

text \<open>The longest run of at least two zero groups, the first of its length.\<close>

definition zero_run :: "int list \<Rightarrow> nat \<times> nat" where
  "zero_run gs =
     foldl (\<lambda>(zs, ze) i. let l = length (takeWhile (\<lambda>g. g = 0) (drop i gs))
        in if 2 \<le> l \<and> ze - zs < l then (i, i + l) else (zs, ze)) (255, 255) [0..<8]"

definition ipv6_string :: "128 word \<Rightarrow> string" where
  "ipv6_string w =
     (let gs = word_groups w; (zs, ze) = zero_run gs;
          colons = (\<lambda>xs. join_with '':'' (map hex_digits xs))
      in if zs < 8 then colons (take zs gs) @ ''::'' @ colons (drop ze gs) else colons gs)"

definition addr_string :: "ip_addr \<Rightarrow> string" where
  "addr_string a =
     (case a of
        IPv4 w \<Rightarrow> ipv4_string w
      | IPv6 w z \<Rightarrow>
          (if is_4in6 a then ''::ffff:'' @ ipv4_string (ucast w) else ipv6_string w)
          @ (if z \<noteq> [] then ''%'' @ z else []))"


subsection \<open>Prefixes\<close>

record ip_prefix =
  pf_addr :: ip_addr
  pf_bits :: nat

definition addr_mask :: "ip_addr \<Rightarrow> nat \<Rightarrow> ip_addr" where
  "addr_mask a b =
     (case a of
        IPv4 w \<Rightarrow> IPv4 (push_bit (32 - b) (drop_bit (32 - b) w))
      | IPv6 w z \<Rightarrow> IPv6 (push_bit (128 - b) (drop_bit (128 - b) w)) [])"

definition prefix_masked :: "ip_prefix \<Rightarrow> ip_prefix" where
  "prefix_masked p = p\<lparr>pf_addr := addr_mask (pf_addr p) (pf_bits p)\<rparr>"

definition prefix_from :: "ip_addr \<Rightarrow> nat \<Rightarrow> ip_prefix" where
  "prefix_from a b =
     \<lparr>pf_addr = (case a of IPv4 w \<Rightarrow> IPv4 w | IPv6 w _ \<Rightarrow> IPv6 w []), pf_bits = b\<rparr>"

definition prefix_contains :: "ip_prefix \<Rightarrow> ip_addr \<Rightarrow> bool" where
  "prefix_contains p a =
     (case (pf_addr p, a) of
        (IPv4 w, IPv4 v) \<Rightarrow> drop_bit (32 - pf_bits p) w = drop_bit (32 - pf_bits p) v
      | (IPv6 w _, IPv6 v z) \<Rightarrow> z = [] \<and> drop_bit (128 - pf_bits p) w = drop_bit (128 - pf_bits p) v
      | _ \<Rightarrow> False)"

definition str_split_last :: "char \<Rightarrow> string \<Rightarrow> (string \<times> string) option" where
  "str_split_last c s =
     (case split_first c (rev s) of None \<Rightarrow> None | Some (a, b) \<Rightarrow> Some (rev b, rev a))"

definition parse_prefix :: "string \<Rightarrow> ip_prefix option" where
  "parse_prefix s =
     (case str_split_last CHR ''/'' s of
        None \<Rightarrow> None
      | Some (ip, bits) \<Rightarrow>
          (case parse_addr ip of
             None \<Rightarrow> None
           | Some a \<Rightarrow>
               (if addr_zone a \<noteq> [] then None
                else if 1 < length bits \<and> \<not> (49 \<le> byte (hd bits) \<and> byte (hd bits) \<le> 57) then None
                else (case parse_int64 bits of
                    Inl _ \<Rightarrow> None
                  | Inr n \<Rightarrow>
                      (if n < 0 \<or> int (bit_len a) < n then None
                       else Some \<lparr>pf_addr = a, pf_bits = nat n\<rparr>)))))"

lemma parse_prefix_bits: "parse_prefix s = Some p \<Longrightarrow> pf_bits p \<le> bit_len (pf_addr p)"
  by (auto simp: parse_prefix_def split: option.splits sum.splits if_splits)


subsection \<open>Masking and containment\<close>

lemma drop_push_drop: "drop_bit n (push_bit n (drop_bit n (w :: 'a :: len word))) = drop_bit n w"
  by (rule bit_word_eqI) (auto simp: bit_drop_bit_eq bit_push_bit_iff dest: bit_imp_le_length)

text \<open>Masking a prefix does not change the addresses it contains, and masking twice nothing.\<close>

lemma prefix_contains_masked [simp]: "prefix_contains (prefix_masked p) a = prefix_contains p a"
  by (auto simp: prefix_contains_def prefix_masked_def addr_mask_def drop_push_drop
      split: ip_addr.split)

lemma prefix_masked_idem [simp]: "prefix_masked (prefix_masked p) = prefix_masked p"
  by (simp add: prefix_masked_def addr_mask_def drop_push_drop split: ip_addr.split)

lemma prefix_masked_host [simp]:
  "prefix_masked (prefix_from a (bit_len a)) = prefix_from a (bit_len a)"
  by (simp add: prefix_masked_def prefix_from_def addr_mask_def bit_len_def split: ip_addr.split)

text \<open>A full-length prefix contains its address only.\<close>

lemma prefix_contains_host:
  "addr_zone a = [] \<Longrightarrow> prefix_contains (prefix_from a (bit_len a)) b \<longleftrightarrow> b = a"
  by (auto simp: prefix_contains_def prefix_from_def bit_len_def addr_zone_def split: ip_addr.splits)

lemma prefix_contains_zone: "prefix_contains p a \<Longrightarrow> addr_zone a = []"
  by (auto simp: prefix_contains_def addr_zone_def split: ip_addr.splits)


subsection \<open>Round trip of IPv4 addresses\<close>

lemma itoa_nat: "itoa (int n) = nat_digits n"
  by (simp add: itoa_def)

lemma ipv4_octet_itoa:
  assumes "0 \<le> n" "n < 256" shows "map_option int (ipv4_octet (itoa n)) = Some n"
proof -
  obtain m where m: "n = int m" using assms(1) by (rule nonneg_int_cases)
  then show ?thesis
    using assms nat_digits_digits [of m] nat_digits_hd [of m]
    by (auto simp: itoa_nat ipv4_octet_def digits_value_nat_digits list_all_iff)
qed

lemma ipv4_string_join:
  "ipv4_string w = join_with ''.'' (map itoa
     [uint w div 16777216, uint w div 65536 mod 256, uint w div 256 mod 256, uint w mod 256])"
  by (simp add: ipv4_string_def Let_def)

lemma octets_value:
  "(((n div 16777216 * 256 + n div 65536 mod 256) * 256 + n div 256 mod 256) * 256 + n mod 256) = (n :: int)"
proof -
  have "n div 16777216 * 256 + n div 65536 mod 256 = n div 65536"
    using div_mult_mod_eq [of "n div 65536" 256] by (simp add: zdiv_zmult2_eq [symmetric])
  moreover have "n div 65536 * 256 + n div 256 mod 256 = n div 256"
    using div_mult_mod_eq [of "n div 256" 256] by (simp add: zdiv_zmult2_eq [symmetric])
  ultimately show ?thesis by simp
qed

lemma dot_not_digit: "0 \<le> n \<Longrightarrow> CHR ''.'' \<notin> set (itoa n)"
  using nat_digits_digits [of "nat n"] by (auto simp: itoa_def is_digit_def)

lemma parse_ipv4_string: "parse_ipv4 (ipv4_string w) = Some w"
proof -
  have "uint w < 2 ^ 32" using uint_bounded [of w] by simp
  then have "0 \<le> uint w div 16777216" "uint w div 16777216 < 256"
    by (simp_all add: pos_imp_zdiv_nonneg_iff)
  from ipv4_octet_itoa [OF this] obtain a where
    a: "ipv4_octet (itoa (uint w div 16777216)) = Some a" "int a = uint w div 16777216" by auto
  have part: "\<exists>a. ipv4_octet (itoa (k mod 256)) = Some a \<and> int a = k mod 256" for k
    using ipv4_octet_itoa [of "k mod 256"] by auto
  obtain b where b: "ipv4_octet (itoa (uint w div 65536 mod 256)) = Some b"
    "int b = uint w div 65536 mod 256" using part by blast
  obtain c where c: "ipv4_octet (itoa (uint w div 256 mod 256)) = Some c"
    "int c = uint w div 256 mod 256" using part by blast
  obtain d where d: "ipv4_octet (itoa (uint w mod 256)) = Some d"
    "int d = uint w mod 256" using part by blast
  have split: "split_on CHR ''.'' (ipv4_string w) = map itoa
     [uint w div 16777216, uint w div 65536 mod 256, uint w div 256 mod 256, uint w mod 256]"
    unfolding ipv4_string_join
    by (rule split_join) (auto simp: dot_not_digit pos_imp_zdiv_nonneg_iff)
  have "parse_ipv4 (ipv4_string w) = Some (of_int (((uint w div 16777216 * 256 +
      uint w div 65536 mod 256) * 256 + uint w div 256 mod 256) * 256 + uint w mod 256))"
    unfolding parse_ipv4_def split list.map a(1) b(1) c(1) d(1)
    by (simp only: list.case option.case a(2) b(2) c(2) d(2))
  then show ?thesis by (simp only: octets_value word_of_int_uint)
qed

lemma parse_addr_ipv4: "parse_addr (addr_string (IPv4 w)) = Some (IPv4 w)"
proof -
  have skip: "dropWhile (\<lambda>c. c \<notin> {CHR ''.'', CHR '':'', CHR ''%''}) (ds @ CHR ''.'' # rest) = CHR ''.'' # rest"
    if "\<forall>c \<in> set ds. is_digit c" for ds rest
    using that by (induction ds) (auto simp: is_digit_def)
  have "0 \<le> uint w div 16777216" by (simp add: pos_imp_zdiv_nonneg_iff)
  then have "\<forall>c \<in> set (itoa (uint w div 16777216)). is_digit c"
    using nat_digits_digits by (simp add: itoa_def)
  from skip [OF this] show ?thesis
    by (simp add: parse_addr_def addr_string_def ipv4_string_def Let_def
        parse_ipv4_string [unfolded ipv4_string_def Let_def, simplified])
qed

end
