(* ===== verification/Http_Header.thy ===== *)
theory Http_Header
  imports Go_Strings "HOL-Library.AList"
begin

section \<open>net/http: header maps, response writers and requests\<close>

text \<open>
  An \<open>http.Header\<close> is a \<open>map[string][]string\<close>, here an association list with distinct
  keys whose order is one iteration order of the map. Every access goes through
  \<open>textproto.CanonicalMIMEHeaderKey\<close>. What the gateway relies on is stated once, as the
  locale \<open>header_map\<close>, whose laws the association list satisfies.
\<close>


subsection \<open>Canonical keys\<close>

definition header_byte :: "char \<Rightarrow> bool" where
  "header_byte c \<longleftrightarrow> is_alnum c \<or> c \<in> set ''!#$%&*+-.^_`|~'' \<or> c = CHR 0x27"

fun canonical_from :: "bool \<Rightarrow> string \<Rightarrow> string" where
  "canonical_from up [] = []"
| "canonical_from up (c # cs) =
     (let c' = (if up then upper_char c else lower_char c)
      in c' # canonical_from (c' = CHR ''-'') cs)"

definition canonical_key :: "string \<Rightarrow> string" where
  "canonical_key s = (if list_all header_byte s then canonical_from True s else s)"

lemma set_bit5_neq_dash: "is_upper c \<Longrightarrow> set_bit5 True c \<noteq> CHR ''-''"
  "is_lower c \<Longrightarrow> set_bit5 False c \<noteq> CHR ''-''"
proof -
  show "is_upper c \<Longrightarrow> set_bit5 True c \<noteq> CHR ''-''"
    using is_lower_set_bit5 [of c] by (auto simp: is_lower_def)
  show "is_lower c \<Longrightarrow> set_bit5 False c \<noteq> CHR ''-''"
    using is_upper_set_bit5 [of c] by (auto simp: is_upper_def)
qed

lemma lower_char_dash [simp]: "lower_char c = CHR ''-'' \<longleftrightarrow> c = CHR ''-''"
  by (auto simp: lower_char_def set_bit5_neq_dash is_upper_def)

lemma upper_char_dash [simp]: "upper_char c = CHR ''-'' \<longleftrightarrow> c = CHR ''-''"
  by (auto simp: upper_char_def set_bit5_neq_dash is_lower_def)

lemma header_byte_lower [simp]: "header_byte (lower_char c) = header_byte c"
  by (auto simp: lower_char_def header_byte_def is_alnum_def dest: is_lower_set_bit5)

lemma upper_lower_char: "upper_char (lower_char c) = upper_char c"
  by (auto simp: upper_char_def lower_char_def is_lower_set_bit5 set_bit5_id not_upper_lower)

lemma canonical_from_lower: "canonical_from up (to_lower s) = canonical_from up s"
  by (induction s arbitrary: up) (simp_all add: to_lower_def Let_def upper_lower_char)

lemma lower_canonical_from [simp]: "to_lower (canonical_from up s) = to_lower s"
  by (induction s arbitrary: up) (auto simp: to_lower_def Let_def)

lemma canonical_from_idem [simp]: "canonical_from up (canonical_from up s) = canonical_from up s"
  by (metis canonical_from_lower lower_canonical_from)

lemma list_all_header_byte_lower: "list_all header_byte (to_lower s) = list_all header_byte s"
  by (simp add: to_lower_def list_all_iff)

lemma list_all_header_byte_canonical: "list_all header_byte (canonical_from up s) = list_all header_byte s"
  by (metis list_all_header_byte_lower lower_canonical_from)

lemma canonical_key_idem [simp]: "canonical_key (canonical_key s) = canonical_key s"
  by (simp add: canonical_key_def list_all_header_byte_canonical)

lemma to_lower_canonical_key [simp]: "to_lower (canonical_key s) = to_lower s"
  by (simp add: canonical_key_def)

text \<open>Two well-formed names denote the same header when they differ in case only.\<close>

lemma canonical_key_eq_iff:
  assumes "list_all header_byte s" "list_all header_byte t"
  shows "canonical_key s = canonical_key t \<longleftrightarrow> to_lower s = to_lower t"
  using assms by (metis canonical_key_def canonical_from_lower to_lower_canonical_key)

lemma canonical_key_neqI: "to_lower s \<noteq> to_lower t \<Longrightarrow> canonical_key s \<noteq> canonical_key t"
  by (metis to_lower_canonical_key)


subsection \<open>The interface of a header map\<close>

locale header_map =
  fixes norm :: "string \<Rightarrow> string"
    and vals :: "'h \<Rightarrow> string \<Rightarrow> string list"
    and put :: "'h \<Rightarrow> string \<Rightarrow> string \<Rightarrow> 'h"
    and append_val :: "'h \<Rightarrow> string \<Rightarrow> string \<Rightarrow> 'h"
    and remove :: "'h \<Rightarrow> string \<Rightarrow> 'h"
  assumes vals_put: "vals (put h k v) k' = (if norm k' = norm k then [v] else vals h k')"
    and vals_append: "vals (append_val h k v) k' =
                        (if norm k' = norm k then vals h k' @ [v] else vals h k')"
    and vals_remove: "vals (remove h k) k' = (if norm k' = norm k then [] else vals h k')"
begin

text \<open>A sequence of \<open>Set\<close> calls: the last value written under a name is the one read.\<close>

lemma vals_put_all:
  "vals (foldl (\<lambda>h (k, v). put h k v) h kvs) k' =
     (case find (\<lambda>(k, v). norm k = norm k') (rev kvs) of
        None \<Rightarrow> vals h k' | Some (k, v) \<Rightarrow> [v])"
proof (induction kvs rule: rev_induct)
  case Nil
  then show ?case by simp
next
  case (snoc kv kvs)
  then show ?case by (cases kv) (auto simp: vals_put)
qed

lemma vals_put_all_other:
  "\<forall>(k, v) \<in> set kvs. norm k \<noteq> norm k' \<Longrightarrow>
   vals (foldl (\<lambda>h (k, v). put h k v) h kvs) k' = vals h k'"
  by (induction kvs arbitrary: h) (auto simp: vals_put)

text \<open>A sequence of \<open>Add\<close> calls under one name appends its values in order.\<close>

lemma vals_append_all:
  "vals (foldl (\<lambda>h v. append_val h k v) h vs) k' =
     (if norm k' = norm k then vals h k' @ vs else vals h k')"
  by (induction vs arbitrary: h) (auto simp: vals_append)

lemmas vals_ops = vals_put vals_append vals_remove vals_append_all

end


subsection \<open>Header maps\<close>

type_synonym header = "(string \<times> string list) list"

definition header_values :: "header \<Rightarrow> string \<Rightarrow> string list" where
  "header_values h k = (case map_of h (canonical_key k) of None \<Rightarrow> [] | Some vs \<Rightarrow> vs)"

definition header_get :: "header \<Rightarrow> string \<Rightarrow> string" where
  "header_get h k = (case header_values h k of [] \<Rightarrow> [] | v # _ \<Rightarrow> v)"

definition header_set :: "header \<Rightarrow> string \<Rightarrow> string \<Rightarrow> header" where
  "header_set h k v = AList.update (canonical_key k) [v] h"

definition header_add :: "header \<Rightarrow> string \<Rightarrow> string \<Rightarrow> header" where
  "header_add h k v = AList.update (canonical_key k) (header_values h k @ [v]) h"

definition header_del :: "header \<Rightarrow> string \<Rightarrow> header" where
  "header_del h k = AList.delete (canonical_key k) h"

definition header_wf :: "header \<Rightarrow> bool" where
  "header_wf h \<longleftrightarrow> distinct (map fst h)"

interpretation hm: header_map canonical_key header_values header_set header_add header_del
  by unfold_locales
     (auto simp: header_values_def header_set_def header_add_def header_del_def
        update_conv' delete_conv')

lemmas header_vals [simp] = hm.vals_put hm.vals_append hm.vals_remove

lemma header_wf_ops [simp, intro]:
  "header_wf []"
  "header_wf h \<Longrightarrow> header_wf (header_set h k v)"
  "header_wf h \<Longrightarrow> header_wf (header_add h k v)"
  "header_wf h \<Longrightarrow> header_wf (header_del h k)"
  by (simp_all add: header_wf_def header_set_def header_add_def header_del_def distinct_update
      distinct_delete)

lemma header_values_Nil [simp]: "header_values [] k = []"
  by (simp add: header_values_def)

lemma header_values_canonical [simp]: "header_values h (canonical_key k) = header_values h k"
  by (simp add: header_values_def)

lemma header_get_set [simp]:
  "header_get (header_set h k v) k' = (if canonical_key k' = canonical_key k then v else header_get h k')"
  by (simp add: header_get_def)

lemma header_get_del [simp]:
  "header_get (header_del h k) k' = (if canonical_key k' = canonical_key k then [] else header_get h k')"
  by (simp add: header_get_def)


subsection \<open>Response writers\<close>

text \<open>
  A \<open>http.ResponseWriter\<close> holds the header map being built, the status line and headers
  already sent (the headers are frozen when the status is sent), the body bytes delivered, and
  how many more bytes the peer takes before it goes away (\<open>rw_room\<close>, known to nobody).
  A second final \<open>WriteHeader\<close> is ignored; informational codes other than 101 do not end
  the header phase. Codes below 100 or above 999, on which net/http panics, are outside the
  model.
\<close>

record response_writer =
  rw_header :: header
  rw_sent :: "(int \<times> header) option"
  rw_body :: string
  rw_room :: nat

definition new_writer :: "nat \<Rightarrow> response_writer" where
  "new_writer room = \<lparr>rw_header = [], rw_sent = None, rw_body = [], rw_room = room\<rparr>"

definition set_header :: "response_writer \<Rightarrow> string \<Rightarrow> string \<Rightarrow> response_writer" where
  "set_header w k v = w\<lparr>rw_header := header_set (rw_header w) k v\<rparr>"

definition write_header :: "response_writer \<Rightarrow> int \<Rightarrow> response_writer" where
  "write_header w code =
     (if rw_sent w \<noteq> None \<or> (100 \<le> code \<and> code \<le> 199 \<and> code \<noteq> 101) then w
      else w\<lparr>rw_sent := Some (code, rw_header w)\<rparr>)"

text \<open>\<open>Write\<close>: the number of bytes delivered, whether it failed, and the writer after it.\<close>

definition conn_write :: "response_writer \<Rightarrow> string \<Rightarrow> (nat \<times> bool) \<times> response_writer" where
  "conn_write w b =
     (let w = write_header w 200; n = min (rw_room w) (length b)
      in ((n, n < length b), w\<lparr>rw_body := rw_body w @ take n b, rw_room := rw_room w - n\<rparr>))"

definition write_body :: "response_writer \<Rightarrow> string \<Rightarrow> response_writer" where
  "write_body w b = snd (conn_write w b)"

definition rw_status :: "response_writer \<Rightarrow> int option" where
  "rw_status w = map_option fst (rw_sent w)"

text \<open>\<open>http.Error\<close> and \<open>http.NotFound\<close>.\<close>

definition http_error :: "response_writer \<Rightarrow> string \<Rightarrow> int \<Rightarrow> response_writer" where
  "http_error w msg code =
     (let h = header_del (rw_header w) ''Content-Length'';
          h = header_set h ''Content-Type'' ''text/plain; charset=utf-8'';
          h = header_set h ''X-Content-Type-Options'' ''nosniff''
      in write_body (write_header (w\<lparr>rw_header := h\<rparr>) code) (msg @ [CHR 0x0A]))"

definition http_not_found :: "response_writer \<Rightarrow> response_writer" where
  "http_not_found w = http_error w ''404 page not found'' 404"

lemma write_header_sent [simp]: "rw_sent w = Some x \<Longrightarrow> write_header w code = w"
  by (simp add: write_header_def)

lemma rw_sent_write_header:
  "200 \<le> code \<Longrightarrow> rw_sent w = None \<Longrightarrow> rw_sent (write_header w code) = Some (code, rw_header w)"
  by (simp add: write_header_def)

lemma rw_sent_http_error:
  "200 \<le> code \<Longrightarrow> rw_sent w = None \<Longrightarrow> rw_status (http_error w msg code) = Some code"
  by (simp add: http_error_def write_body_def conn_write_def write_header_def rw_status_def Let_def)

lemma rw_status_kept [simp]: "rw_sent w \<noteq> None \<Longrightarrow> rw_sent (http_error w msg code) = rw_sent w"
  by (auto simp: http_error_def write_body_def conn_write_def write_header_def Let_def)

lemma rw_sent_set_header [simp]: "rw_sent (set_header w k v) = rw_sent w"
  by (simp add: set_header_def)


subsection \<open>Requests\<close>

text \<open>
  The fields of \<open>*http.Request\<close> the gateway reads. \<open>rq_uri\<close> is \<open>URL.RequestURI()\<close>, the
  escaped form net/url builds. A body is \<open>None\<close> for \<open>nil\<close> or \<open>http.NoBody\<close>, and
  otherwise the bytes it yields with whether reading ends in an error instead of EOF.
\<close>

record request_body =
  rb_bytes :: string
  rb_fails :: bool

record request =
  rq_method :: string
  rq_path :: string
  rq_query :: string
  rq_uri :: string
  rq_header :: header
  rq_remote :: string
  rq_body :: "request_body option"
  rq_length :: i64

end
