(* ===== verification/Circuit_Breaker.thy ===== *)
theory Circuit_Breaker
  imports Go_Strings
begin

section \<open>The provider circuit breaker (internal/gateway/circuitbreaker.go)\<close>

text \<open>
  The state machine every provider transport consults: \<open>allow\<close> before a request,
  \<open>finish\<close> after it, \<open>snapshot\<close> for the operator and \<open>cloneWithPolicy\<close> on reload. Each
  method runs under the breaker's mutex, so a call is one atomic step; concurrent requests
  are interleavings of such steps (\<open>circuit_step\<close> below), with the permits handed out and
  not yet returned as the second part of the state. The system clock is an argument.
\<close>


subsection \<open>State\<close>

definition defaultCircuitFailureThreshold :: i64 where "defaultCircuitFailureThreshold = 5"
definition defaultCircuitOpenFor :: duration where "defaultCircuitOpenFor = 30 * nanos_second"

datatype circuit_state = CircuitClosed | CircuitOpen | CircuitHalfOpen

fun circuit_state_string :: "circuit_state \<Rightarrow> string" where
  "circuit_state_string CircuitClosed = ''closed''"
| "circuit_state_string CircuitOpen = ''open''"
| "circuit_state_string CircuitHalfOpen = ''half_open''"

record circuit_policy =
  cp_enabled :: bool
  cp_threshold :: i64
  cp_open_for :: duration

record circuit_permit =
  permit_probe :: bool

record circuit_breaker =
  cb_enabled :: bool
  cb_state :: circuit_state
  cb_failures :: i64
  cb_threshold :: i64
  cb_open_for :: duration
  cb_open_until :: gotime

record circuit_snapshot =
  cs_provider :: string
  cs_state :: string
  cs_failures :: i64
  cs_retry_after :: duration


subsection \<open>Operations\<close>

definition defaultCircuitPolicy :: circuit_policy where
  "defaultCircuitPolicy =
     \<lparr>cp_enabled = True, cp_threshold = defaultCircuitFailureThreshold,
      cp_open_for = defaultCircuitOpenFor\<rparr>"

definition newCircuitBreakerWithPolicy :: "circuit_policy \<Rightarrow> circuit_breaker" where
  "newCircuitBreakerWithPolicy policy =
     (let policy = (if cp_threshold policy \<le> 0
                    then policy\<lparr>cp_threshold := defaultCircuitFailureThreshold\<rparr> else policy);
          policy = (if cp_open_for policy \<le> 0
                    then policy\<lparr>cp_open_for := defaultCircuitOpenFor\<rparr> else policy)
      in \<lparr>cb_enabled = cp_enabled policy, cb_state = CircuitClosed, cb_failures = 0,
          cb_threshold = cp_threshold policy, cb_open_for = cp_open_for policy,
          cb_open_until = zero_time\<rparr>)"

definition newCircuitBreaker :: "i64 \<Rightarrow> duration \<Rightarrow> circuit_breaker" where
  "newCircuitBreaker threshold openFor =
     (let policy = defaultCircuitPolicy;
          policy = (if 0 < threshold then policy\<lparr>cp_threshold := threshold\<rparr> else policy);
          policy = (if 0 < openFor then policy\<lparr>cp_open_for := openFor\<rparr> else policy)
      in newCircuitBreakerWithPolicy policy)"

text \<open>The receiver of \<open>cloneWithPolicy\<close> may be \<open>nil\<close>, here \<open>None\<close>.\<close>

definition cloneWithPolicy ::
  "circuit_breaker option \<Rightarrow> circuit_policy \<Rightarrow> gotime \<Rightarrow> circuit_breaker" where
  "cloneWithPolicy old policy now =
     (case old of
        None \<Rightarrow> newCircuitBreakerWithPolicy policy
      | Some b \<Rightarrow>
          (let next = newCircuitBreakerWithPolicy policy in
           if \<not> cb_enabled next \<or> \<not> cb_enabled b then next
           else
             (let next = next\<lparr>cb_state := cb_state b, cb_failures := cb_failures b,
                              cb_open_until := cb_open_until b\<rparr>;
                  next = (if cb_state next = CircuitOpen \<and> \<not> time_before now (cb_open_until next)
                          then next\<lparr>cb_state := CircuitHalfOpen, cb_open_until := zero_time\<rparr>
                          else next)
              in if cb_state next = CircuitClosed \<and> cb_threshold next \<le> cb_failures next
                 then next\<lparr>cb_state := CircuitOpen,
                           cb_open_until := time_add now (cb_open_for next)\<rparr>
                 else next)))"

definition circuit_allow ::
  "circuit_breaker \<Rightarrow> gotime \<Rightarrow> (circuit_permit \<times> bool \<times> duration) \<times> circuit_breaker" where
  "circuit_allow b now =
     (if \<not> cb_enabled b then ((\<lparr>permit_probe = False\<rparr>, True, 0), b)
      else (case cb_state b of
        CircuitOpen \<Rightarrow>
          (if time_before now (cb_open_until b)
           then ((\<lparr>permit_probe = False\<rparr>, False, time_sub (cb_open_until b) now), b)
           else ((\<lparr>permit_probe = True\<rparr>, True, 0), b\<lparr>cb_state := CircuitHalfOpen\<rparr>))
      | CircuitHalfOpen \<Rightarrow> ((\<lparr>permit_probe = False\<rparr>, False, nanos_second), b)
      | CircuitClosed \<Rightarrow> ((\<lparr>permit_probe = False\<rparr>, True, 0), b)))"

definition circuit_finish ::
  "circuit_breaker \<Rightarrow> circuit_permit \<Rightarrow> bool \<Rightarrow> gotime \<Rightarrow> circuit_breaker" where
  "circuit_finish b permit failed now =
     (if \<not> cb_enabled b then b
      else if permit_probe permit then
        (if failed
         then b\<lparr>cb_state := CircuitOpen, cb_failures := cb_threshold b,
                cb_open_until := time_add now (cb_open_for b)\<rparr>
         else b\<lparr>cb_state := CircuitClosed, cb_failures := 0, cb_open_until := zero_time\<rparr>)
      else if cb_state b \<noteq> CircuitClosed then b
      else if \<not> failed then b\<lparr>cb_failures := 0\<rparr>
      else
        (let b = b\<lparr>cb_failures := wrap64 (cb_failures b + 1)\<rparr>
         in if cb_threshold b \<le> cb_failures b
            then b\<lparr>cb_state := CircuitOpen, cb_open_until := time_add now (cb_open_for b)\<rparr>
            else b))"

definition circuit_snapshot :: "circuit_breaker \<Rightarrow> gotime \<Rightarrow> circuit_snapshot" where
  "circuit_snapshot b now =
     (if \<not> cb_enabled b
      then \<lparr>cs_provider = [], cs_state = ''disabled'', cs_failures = 0, cs_retry_after = 0\<rparr>
      else
        (let (state, retry) =
           (if cb_state b = CircuitOpen then
              (if time_before now (cb_open_until b)
               then (CircuitOpen, time_sub (cb_open_until b) now)
               else (CircuitHalfOpen, 0))
            else (cb_state b, 0))
         in \<lparr>cs_provider = [], cs_state = circuit_state_string state,
             cs_failures = cb_failures b, cs_retry_after = retry\<rparr>))"

text \<open>
  \<open>circuitSnapshots\<close> ranges over the provider map, here the list of its entries in one
  iteration order.
\<close>

definition circuitSnapshots ::
  "(string \<times> circuit_breaker) list \<Rightarrow> gotime \<Rightarrow> circuit_snapshot list" where
  "circuitSnapshots providers now =
     map (\<lambda>(name, b). (circuit_snapshot b now)\<lparr>cs_provider := name\<rparr>) providers"

lemmas circuit_defs =
  circuit_allow_def circuit_finish_def newCircuitBreakerWithPolicy_def cloneWithPolicy_def


subsection \<open>Well-formed breakers\<close>

text \<open>
  \<open>circuit_wf b\<close>: the policy is positive, the failure count is in range and, while the
  circuit is closed, below the threshold. \<open>circuit_inv b n\<close> adds the number \<open>n\<close> of probe
  permits handed out and not returned: the breaker is half open exactly while one is out.
\<close>

definition circuit_wf :: "circuit_breaker \<Rightarrow> bool" where
  "circuit_wf b \<longleftrightarrow>
     0 < cb_threshold b \<and> in_i64 (cb_threshold b) \<and> 0 < cb_open_for b \<and> in_i64 (cb_open_for b) \<and>
     0 \<le> cb_failures b \<and> in_i64 (cb_failures b) \<and>
     (cb_state b = CircuitClosed \<longrightarrow> cb_failures b < cb_threshold b) \<and>
     (\<not> cb_enabled b \<longrightarrow> cb_state b = CircuitClosed)"

definition circuit_inv :: "circuit_breaker \<Rightarrow> nat \<Rightarrow> bool" where
  "circuit_inv b n \<longleftrightarrow> circuit_wf b \<and> n = (if cb_state b = CircuitHalfOpen then 1 else 0)"

definition policy_wf :: "circuit_policy \<Rightarrow> bool" where
  "policy_wf p \<longleftrightarrow> in_i64 (cp_threshold p) \<and> in_i64 (cp_open_for p)"

lemma default_policy_wf [simp]: "policy_wf defaultCircuitPolicy"
  by (simp add: policy_wf_def defaultCircuitPolicy_def defaultCircuitFailureThreshold_def
      defaultCircuitOpenFor_def nanos_second_def i64_bounds)

lemma new_breaker_simps [simp]:
  "cb_enabled (newCircuitBreakerWithPolicy p) = cp_enabled p"
  "cb_state (newCircuitBreakerWithPolicy p) = CircuitClosed"
  "cb_failures (newCircuitBreakerWithPolicy p) = 0"
  "cb_open_until (newCircuitBreakerWithPolicy p) = zero_time"
  "cb_threshold (newCircuitBreakerWithPolicy p) =
     (if cp_threshold p \<le> 0 then defaultCircuitFailureThreshold else cp_threshold p)"
  "cb_open_for (newCircuitBreakerWithPolicy p) =
     (if cp_open_for p \<le> 0 then defaultCircuitOpenFor else cp_open_for p)"
  by (simp_all add: newCircuitBreakerWithPolicy_def Let_def)

lemma new_breaker_wf: "policy_wf p \<Longrightarrow> circuit_wf (newCircuitBreakerWithPolicy p)"
  by (simp add: circuit_wf_def policy_wf_def defaultCircuitFailureThreshold_def
      defaultCircuitOpenFor_def nanos_second_def i64_bounds)

lemma new_breaker_inv: "policy_wf p \<Longrightarrow> circuit_inv (newCircuitBreakerWithPolicy p) 0"
  by (simp add: circuit_inv_def new_breaker_wf)

lemma failures_inc_no_wrap:
  "circuit_wf b \<Longrightarrow> cb_state b = CircuitClosed \<Longrightarrow> wrap64 (cb_failures b + 1) = cb_failures b + 1"
  by (intro wrap64_id) (auto simp: circuit_wf_def i64_bounds)

lemma circuit_allow_wf: "circuit_wf b \<Longrightarrow> circuit_allow b now = (r, b') \<Longrightarrow> circuit_wf b'"
  by (auto simp: circuit_allow_def circuit_wf_def split: if_splits circuit_state.splits)

lemma circuit_finish_wf: "circuit_wf b \<Longrightarrow> circuit_wf (circuit_finish b p failed now)"
  by (auto simp: circuit_finish_def circuit_wf_def Let_def i64_bounds wrap64_bounded)

lemma clone_wf:
  assumes "policy_wf p" "\<And>b. old = Some b \<Longrightarrow> circuit_wf b"
  shows "circuit_wf (cloneWithPolicy old p now)"
proof (cases old)
  case None
  with assms(1) show ?thesis by (simp add: cloneWithPolicy_def new_breaker_wf)
next
  case (Some b)
  with assms(2) have "circuit_wf b" by simp
  then show ?thesis using new_breaker_wf [OF assms(1)]
    by (auto simp: Some cloneWithPolicy_def circuit_wf_def Let_def)
qed

text \<open>Fields no step writes.\<close>

lemma circuit_allow_frame:
  "circuit_allow b now = (r, b') \<Longrightarrow>
   cb_enabled b' = cb_enabled b \<and> cb_threshold b' = cb_threshold b \<and>
   cb_open_for b' = cb_open_for b \<and> cb_failures b' = cb_failures b"
  by (auto simp: circuit_allow_def split: if_splits circuit_state.splits)

lemma circuit_finish_frame [simp]:
  "cb_enabled (circuit_finish b p failed now) = cb_enabled b"
  "cb_threshold (circuit_finish b p failed now) = cb_threshold b"
  "cb_open_for (circuit_finish b p failed now) = cb_open_for b"
  by (simp_all add: circuit_finish_def Let_def)


subsection \<open>The contract a transport relies on\<close>

text \<open>
  The client of a breaker calls \<open>admit\<close> before a request and \<open>complete\<close> once after it.
  \<open>inv b n\<close> is the provider's invariant with \<open>n\<close> probes out.
\<close>

locale breaker_gate =
  fixes admit :: "'b \<Rightarrow> gotime \<Rightarrow> (circuit_permit \<times> bool \<times> duration) \<times> 'b"
    and complete :: "'b \<Rightarrow> circuit_permit \<Rightarrow> bool \<Rightarrow> gotime \<Rightarrow> 'b"
    and inv :: "'b \<Rightarrow> nat \<Rightarrow> bool"
  assumes inv_admit: "inv b n \<Longrightarrow> admit b now = ((p, ok, d), b') \<Longrightarrow>
      inv b' (n + (if permit_probe p then 1 else 0))"
    and probe_ok: "admit b now = ((p, ok, d), b') \<Longrightarrow> permit_probe p \<Longrightarrow> ok"
    and inv_complete: "inv b n \<Longrightarrow> (permit_probe p \<Longrightarrow> 0 < n) \<Longrightarrow>
      inv (complete b p failed now) (n - (if permit_probe p then 1 else 0))"
    and inv_probes: "inv b n \<Longrightarrow> n \<le> 1"
    and reject_wait: "inv b n \<Longrightarrow> admit b now = ((p, False, d), b') \<Longrightarrow> 0 < d \<and> b' = b"
begin

text \<open>While a probe is out, another admission never hands out a second one.\<close>

lemma no_second_probe:
  "inv b 1 \<Longrightarrow> admit b now = ((p, ok, d), b') \<Longrightarrow> \<not> permit_probe p"
  using inv_admit [of b 1 now p ok d b'] inv_probes by fastforce

text \<open>One request, admitted and completed, keeps the invariant with the same probes out.\<close>

lemma inv_request:
  "inv b n \<Longrightarrow> admit b now = ((p, True, d), b') \<Longrightarrow> inv (complete b' p failed later) n"
  using inv_admit [of b n now p True d b']
    inv_complete [of b' "n + (if permit_probe p then 1 else 0)" p failed later] by auto

end

interpretation cb: breaker_gate circuit_allow circuit_finish circuit_inv
proof unfold_locales
  fix b now p ok d b' and n :: nat
  assume "circuit_inv b n" and "circuit_allow b now = ((p, ok, d), b')"
  then show "circuit_inv b' (n + (if permit_probe p then 1 else 0))"
    using circuit_allow_wf [of b now "(p, ok, d)" b']
    by (auto simp: circuit_inv_def circuit_allow_def split: if_splits circuit_state.splits)
next
  fix b now p ok d b'
  assume "circuit_allow b now = ((p, ok, d), b')" and "permit_probe p"
  then show ok by (auto simp: circuit_allow_def split: if_splits circuit_state.splits)
next
  fix b failed now and p :: circuit_permit and n :: nat
  assume "circuit_inv b n" and "permit_probe p \<Longrightarrow> 0 < n"
  then show "circuit_inv (circuit_finish b p failed now) (n - (if permit_probe p then 1 else 0))"
    using circuit_finish_wf [of b p failed now]
    by (auto simp: circuit_inv_def circuit_finish_def circuit_wf_def Let_def split: if_splits)
next
  fix b and n :: nat
  assume "circuit_inv b n"
  then show "n \<le> 1" by (simp add: circuit_inv_def)
next
  fix b now p d b' and n :: nat
  assume "circuit_inv b n" and "circuit_allow b now = ((p, False, d), b')"
  then show "0 < d \<and> b' = b"
    by (auto simp: circuit_allow_def time_sub_def time_before_def nanos_second_def sat64_pos
        split: if_splits circuit_state.splits)
qed


subsection \<open>Concurrent requests\<close>

text \<open>
  The breaker with the permits of the requests in flight. A request is admitted or refused,
  and a request in flight may complete at any later time, in any order.
\<close>

type_synonym circuit_sys = "circuit_breaker \<times> circuit_permit list"

inductive circuit_step :: "circuit_sys \<Rightarrow> circuit_sys \<Rightarrow> bool" where
  admitted: "circuit_allow b now = ((p, True, d), b') \<Longrightarrow> circuit_step (b, ps) (b', p # ps)"
| refused: "circuit_allow b now = ((p, False, d), b') \<Longrightarrow> circuit_step (b, ps) (b', ps)"
| completed: "p \<in> set ps \<Longrightarrow>
    circuit_step (b, ps) (circuit_finish b p failed now, remove1 p ps)"

inductive circuit_reachable :: "circuit_policy \<Rightarrow> circuit_sys \<Rightarrow> bool" for policy where
  start: "circuit_reachable policy (newCircuitBreakerWithPolicy policy, [])"
| step: "circuit_reachable policy s \<Longrightarrow> circuit_step s t \<Longrightarrow> circuit_reachable policy t"

inductive_cases circuit_stepE: "circuit_step (b, ps) t"

definition probes :: "circuit_permit list \<Rightarrow> nat" where
  "probes ps = length (filter permit_probe ps)"

lemma probes_simps [simp]:
  "probes [] = 0"
  "probes (p # ps) = (if permit_probe p then 1 else 0) + probes ps"
  by (simp_all add: probes_def)

lemma probes_remove1:
  "p \<in> set ps \<Longrightarrow> probes (remove1 p ps) = probes ps - (if permit_probe p then 1 else 0)"
  by (induction ps) (auto simp: probes_def)

lemma probes_pos: "p \<in> set ps \<Longrightarrow> permit_probe p \<Longrightarrow> 0 < probes ps"
  by (induction ps) auto

lemma circuit_step_inv:
  assumes "circuit_step s t" and "circuit_inv (fst s) (probes (snd s))"
  shows "circuit_inv (fst t) (probes (snd t))"
  using assms
proof (induction rule: circuit_step.induct)
  case (admitted b now p d b' ps)
  then show ?case using cb.inv_admit [of b "probes ps" now p True d b'] by (simp add: add.commute)
next
  case (refused b now p d b' ps)
  then show ?case using cb.reject_wait by fastforce
next
  case (completed p ps b failed now)
  then show ?case using cb.inv_complete [of b "probes ps" p failed now]
    by (simp add: probes_remove1 probes_pos)
qed

lemma circuit_reachable_inv:
  assumes "circuit_reachable policy s" and "policy_wf policy"
  shows "circuit_inv (fst s) (probes (snd s))"
  using assms
proof (induction rule: circuit_reachable.induct)
  case start
  then show ?case by (simp add: new_breaker_inv)
next
  case (step s t)
  then show ?case by (blast intro: circuit_step_inv)
qed

lemma circuit_reachable_enabled:
  "circuit_reachable policy s \<Longrightarrow> cb_enabled (fst s) = cp_enabled policy"
proof (induction rule: circuit_reachable.induct)
  case start
  then show ?case by simp
next
  case (step s t)
  from step(2,3) show ?case
    by (induction rule: circuit_step.induct) (auto dest: circuit_allow_frame)
qed


subsection \<open>Counting consecutive failures\<close>

text \<open>
  The specification of the closed circuit: the length of the run of failures the outcome
  history ends with. \<open>finish_all\<close> returns ordinary permits with the given outcomes.
\<close>

definition trailing_failures :: "bool list \<Rightarrow> nat" where
  "trailing_failures os = length (takeWhile id (rev os))"

definition ordinary_permit :: circuit_permit where
  "ordinary_permit = \<lparr>permit_probe = False\<rparr>"

definition finish_all :: "circuit_breaker \<Rightarrow> (bool \<times> gotime) list \<Rightarrow> circuit_breaker" where
  "finish_all b os = foldl (\<lambda>b (failed, now). circuit_finish b ordinary_permit failed now) b os"

lemma trailing_failures_simps [simp]:
  "trailing_failures [] = 0"
  "trailing_failures (os @ [f]) = (if f then Suc (trailing_failures os) else 0)"
  by (simp_all add: trailing_failures_def)

lemma finish_all_snoc [simp]:
  "finish_all b [] = b"
  "finish_all b (os @ [(failed, now)]) = circuit_finish (finish_all b os) ordinary_permit failed now"
  by (simp_all add: finish_all_def)

text \<open>The threshold was reached at some point of the history.\<close>

definition reached :: "i64 \<Rightarrow> bool list \<Rightarrow> bool" where
  "reached th os \<longleftrightarrow> (\<exists>n \<le> length os. th \<le> int (trailing_failures (take n os)))"

lemma reached_Nil [simp]: "0 < th \<Longrightarrow> \<not> reached th []"
  by (simp add: reached_def)

lemma reached_snoc [simp]:
  "reached th (os @ [f]) \<longleftrightarrow> reached th os \<or> th \<le> int (trailing_failures (os @ [f]))"
proof
  assume "reached th (os @ [f])"
  then obtain n where "n \<le> Suc (length os)" "th \<le> int (trailing_failures (take n (os @ [f])))"
    by (auto simp: reached_def)
  then show "reached th os \<or> th \<le> int (trailing_failures (os @ [f]))"
    by (cases "n \<le> length os") (auto simp: reached_def le_Suc_eq)
next
  assume "reached th os \<or> th \<le> int (trailing_failures (os @ [f]))"
  then show "reached th (os @ [f])"
  proof
    assume "reached th os"
    then obtain n where "n \<le> length os" "th \<le> int (trailing_failures (take n os))"
      by (auto simp: reached_def)
    then show ?thesis by (auto simp: reached_def intro!: exI [of _ n])
  next
    assume "th \<le> int (trailing_failures (os @ [f]))"
    then show ?thesis by (auto simp: reached_def intro!: exI [of _ "Suc (length os)"])
  qed
qed

text \<open>
  The closed circuit implements the specification: it counts trailing failures as long as
  the threshold was never reached, and is open from the first moment it was.
\<close>

lemma finish_all_refines:
  assumes "circuit_wf b" "cb_enabled b" "cb_state b = CircuitClosed" "cb_failures b = 0"
  shows "circuit_wf (finish_all b os) \<and> cb_enabled (finish_all b os) \<and>
    cb_threshold (finish_all b os) = cb_threshold b \<and>
    (if reached (cb_threshold b) (map fst os) then cb_state (finish_all b os) = CircuitOpen
     else cb_state (finish_all b os) = CircuitClosed \<and>
          cb_failures (finish_all b os) = int (trailing_failures (map fst os)))"
proof (induction os rule: rev_induct)
  case Nil
  from assms show ?case by (simp add: circuit_wf_def)
next
  case (snoc x os)
  obtain f now where x: "x = (f, now)" by (cases x)
  let ?b = "finish_all b os"
  from snoc have wf: "circuit_wf ?b" and en: "cb_enabled ?b"
    and th: "cb_threshold ?b = cb_threshold b" by auto
  show ?case
  proof (cases "reached (cb_threshold b) (map fst os)")
    case True
    with snoc have "cb_state ?b = CircuitOpen" by simp
    then have "circuit_finish ?b ordinary_permit f now = ?b"
      by (simp add: circuit_finish_def ordinary_permit_def)
    with True snoc x show ?thesis by simp
  next
    case False
    with snoc have closed: "cb_state ?b = CircuitClosed"
      and cnt: "cb_failures ?b = int (trailing_failures (map fst os))" by auto
    have "0 < cb_threshold b" using assms(1) by (simp add: circuit_wf_def)
    then show ?thesis
      using False x en th closed cnt circuit_finish_wf [OF wf, of ordinary_permit f now]
        failures_inc_no_wrap [OF wf closed]
      by (auto simp: circuit_finish_def ordinary_permit_def Let_def)
  qed
qed


subsection \<open>Half-open breakers without a probe\<close>

text \<open>
  Only the return of a probe permit leaves the half-open state. A half-open breaker with no
  ordinary or probe permit out is therefore stuck: it refuses every request for ever.
\<close>

lemma half_open_refuses:
  "cb_enabled b \<Longrightarrow> cb_state b = CircuitHalfOpen \<Longrightarrow>
   circuit_allow b now = ((\<lparr>permit_probe = False\<rparr>, False, nanos_second), b)"
  by (simp add: circuit_allow_def)

lemma half_open_stuck_step:
  assumes "circuit_step s t" and "s = (b, [])" and "cb_enabled b" "cb_state b = CircuitHalfOpen"
  shows "t = (b, [])"
  using assms by (auto elim!: circuit_step.cases simp: half_open_refuses)

lemma half_open_stuck:
  assumes "circuit_step\<^sup>*\<^sup>* (b, []) t" and "cb_enabled b" "cb_state b = CircuitHalfOpen"
  shows "t = (b, [])"
  using assms(1)
proof (induction rule: rtranclp_induct)
  case base
  show ?case ..
next
  case (step s t)
  then show ?case using half_open_stuck_step [OF step(2)] assms(2,3) by simp
qed


subsection \<open>Properties\<close>

text \<open>
  C1. In every state reachable from a new breaker by concurrent requests that are admitted,
  refused and completed in any order, at most one half-open probe is in flight, and the
  breaker is half open exactly while one is.
\<close>

theorem circuit_single_probe:
  assumes "policy_wf policy" and "circuit_reachable policy (b, ps)"
  shows "probes ps \<le> 1 \<and> (cb_state b = CircuitHalfOpen \<longleftrightarrow> probes ps = 1)"
  using circuit_reachable_inv [OF assms(2,1)] by (simp add: circuit_inv_def)

text \<open>A run with threshold 1: a failure opens the circuit and a probe follows the cooldown.\<close>

definition trip_policy :: circuit_policy where
  "trip_policy = \<lparr>cp_enabled = True, cp_threshold = 1, cp_open_for = 10\<rparr>"

lemma trip_policy_wf [simp]:
  "policy_wf trip_policy" "cp_enabled trip_policy" "cp_threshold trip_policy = 1"
  by (simp_all add: trip_policy_def policy_wf_def i64_bounds)

definition tripped :: circuit_breaker where
  "tripped = \<lparr>cb_enabled = True, cb_state = CircuitOpen, cb_failures = 1, cb_threshold = 1,
     cb_open_for = 10, cb_open_until = 15\<rparr>"

lemma tripped_reachable: "circuit_reachable trip_policy (tripped, [])"
proof -
  let ?b = "newCircuitBreakerWithPolicy trip_policy"
  have "circuit_step (?b, []) (?b, [ordinary_permit])"
    by (rule circuit_step.admitted [where now = 1 and d = 0])
       (simp add: circuit_allow_def ordinary_permit_def)
  moreover have "circuit_finish ?b ordinary_permit True 5 = tripped"
    by (simp add: circuit_finish_def ordinary_permit_def tripped_def trip_policy_def Let_def
        newCircuitBreakerWithPolicy_def time_add_def wrap64_bounded)
  then have "circuit_step (?b, [ordinary_permit]) (tripped, [])"
    using circuit_step.completed [of ordinary_permit "[ordinary_permit]" ?b True 5] by simp
  ultimately show ?thesis by (blast intro: circuit_reachable.intros)
qed

lemma tripped_probe:
  "circuit_allow tripped 20 =
     ((\<lparr>permit_probe = True\<rparr>, True, 0), tripped\<lparr>cb_state := CircuitHalfOpen\<rparr>)"
  by (simp add: circuit_allow_def tripped_def time_before_def)

theorem circuit_single_probe_witness:
  "policy_wf trip_policy \<and>
   circuit_reachable trip_policy
     (tripped\<lparr>cb_state := CircuitHalfOpen\<rparr>, [\<lparr>permit_probe = True\<rparr>]) \<and>
   probes [\<lparr>permit_probe = True\<rparr>] = 1"
proof -
  have r: "circuit_reachable trip_policy
      (tripped\<lparr>cb_state := CircuitHalfOpen\<rparr>, [\<lparr>permit_probe = True\<rparr>])"
    by (rule circuit_reachable.step [OF tripped_reachable circuit_step.admitted])
       (rule tripped_probe)
  show ?thesis using r circuit_single_probe [OF trip_policy_wf(1) r] by simp
qed

text \<open>
  C20. A new enabled breaker trips exactly when the outcomes of the admitted requests, in
  their order of completion, contain a run of as many consecutive failures as the threshold;
  until then it stays closed and its counter is the length of the current run of failures.
\<close>

theorem circuit_opens_at_threshold:
  assumes "policy_wf policy" and "cp_enabled policy"
  shows "let b = newCircuitBreakerWithPolicy policy; b' = finish_all b hist in
    (cb_state b' = CircuitOpen \<longleftrightarrow> reached (cb_threshold b) (map fst hist)) \<and>
    (\<not> reached (cb_threshold b) (map fst hist) \<longrightarrow>
       cb_state b' = CircuitClosed \<and> cb_failures b' = int (trailing_failures (map fst hist)))"
  using finish_all_refines [OF new_breaker_wf [OF assms(1)], of hist] assms(2)
  by (auto simp: Let_def split: if_splits)

theorem circuit_opens_at_threshold_witness:
  "policy_wf trip_policy \<and> cp_enabled trip_policy \<and>
   cb_state (finish_all (newCircuitBreakerWithPolicy trip_policy) [(False, 1), (True, 2)])
     = CircuitOpen"
proof -
  have "reached 1 [False, True]"
    by (auto simp: reached_def trailing_failures_def intro!: exI [of _ 2])
  then show ?thesis
    using circuit_opens_at_threshold [OF trip_policy_wf(1,2), of "[(False, 1), (True, 2)]"]
    by (simp add: Let_def)
qed

text \<open>
  An open circuit refuses every request before the end of its cooldown, telling the
  remaining wait, and changes nothing; after it the next request is admitted as the one probe,
  every later one is refused until the probe returns, a successful probe closes the circuit
  with a cleared count and a failed one opens it for a full new cooldown.
\<close>

theorem circuit_open_cooldown:
  assumes "circuit_wf b" "cb_enabled b" "cb_state b = CircuitOpen"
  shows "(now < cb_open_until b \<longrightarrow>
      circuit_allow b now = ((ordinary_permit, False, sat64 (cb_open_until b - now)), b) \<and>
      0 < sat64 (cb_open_until b - now)) \<and>
    (cb_open_until b \<le> now \<longrightarrow> (\<exists>probe b'.
      permit_probe probe \<and> circuit_allow b now = ((probe, True, 0), b') \<and>
      (\<forall>t. \<exists>d. 0 < d \<and> circuit_allow b' t = ((ordinary_permit, False, d), b')) \<and>
      (\<forall>t. cb_state (circuit_finish b' probe False t) = CircuitClosed \<and>
           cb_failures (circuit_finish b' probe False t) = 0) \<and>
      (\<forall>t. cb_state (circuit_finish b' probe True t) = CircuitOpen \<and>
           cb_open_until (circuit_finish b' probe True t) = t + cb_open_for b)))"
  using assms
  by (auto simp: circuit_allow_def circuit_finish_def ordinary_permit_def time_defs sat64_pos)

theorem circuit_open_cooldown_witness:
  "circuit_wf tripped \<and> cb_enabled tripped \<and> cb_state tripped = CircuitOpen \<and>
   circuit_allow tripped 12 = ((ordinary_permit, False, 3), tripped)"
proof -
  have wf: "circuit_wf tripped" "cb_enabled tripped" "cb_state tripped = CircuitOpen"
    by (simp_all add: tripped_def circuit_wf_def i64_bounds)
  show ?thesis
    using wf circuit_open_cooldown [OF wf, of 12] by (simp add: tripped_def i64_bounds)
qed

text \<open>
  An ordinary request that completes after the circuit opened (or while a probe is out)
  leaves the breaker exactly as it was, whatever its outcome.
\<close>

theorem circuit_late_completion:
  assumes "cb_state b \<noteq> CircuitClosed" and "\<not> permit_probe p"
  shows "circuit_finish b p failed now = b"
  using assms by (simp add: circuit_finish_def)

theorem circuit_late_completion_witness:
  "cb_state tripped \<noteq> CircuitClosed \<and> \<not> permit_probe ordinary_permit \<and>
   circuit_finish tripped ordinary_permit False 99 = tripped"
  using circuit_late_completion [of tripped ordinary_permit False 99]
  by (simp add: tripped_def ordinary_permit_def)

text \<open>
  A reload whose policy keeps the breaker enabled and that happens after the cooldown of
  an open circuit (or while it is half open) hands the new snapshot a half-open breaker for
  which no probe is out. From there no sequence of requests ever changes the breaker: every
  request is refused, so the provider stays cut off however long one waits.
\<close>

theorem clone_wedges_half_open:
  assumes "cb_enabled b" "cp_enabled policy"
    and "cb_state b = CircuitHalfOpen \<or> (cb_state b = CircuitOpen \<and> cb_open_until b \<le> now)"
  shows "let c = cloneWithPolicy (Some b) policy now in
    cb_state c = CircuitHalfOpen \<and>
    (\<forall>t. circuit_step\<^sup>*\<^sup>* (c, []) t \<longrightarrow> t = (c, [])) \<and>
    (\<forall>later. fst (snd (fst (circuit_allow c later))) = False)"
proof -
  let ?c = "cloneWithPolicy (Some b) policy now"
  have c: "cb_state ?c = CircuitHalfOpen" "cb_enabled ?c"
    using assms by (auto simp: cloneWithPolicy_def Let_def time_before_def)
  show ?thesis
    unfolding Let_def using c half_open_stuck [of ?c] by (auto simp: half_open_refuses)
qed

theorem clone_wedges_half_open_witness:
  "cb_enabled tripped \<and> cp_enabled trip_policy \<and> cb_open_until tripped \<le> 20 \<and>
   \<not> fst (snd (fst (circuit_allow (cloneWithPolicy (Some tripped) trip_policy 20) 1000000)))"
  using clone_wedges_half_open [of tripped trip_policy 20] by (simp add: tripped_def Let_def)

end
