(* ===== verification/Rate_Window.thy ===== *)
theory Rate_Window
  imports Go_Prelude
begin

section \<open>The sliding window (internal/gateway/ratelimit.go)\<close>

text \<open>
  \<open>rateWindow\<close> keeps the times of the requests it admitted, oldest first. \<open>prune\<close> scans the
  expired prefix by index and shifts the slice; \<open>allow\<close> prunes, then admits while fewer
  than \<open>limit\<close> requests are retained. Each method runs under the window's mutex. The clock
  reading is taken by the caller before the lock, so concurrent callers may enter with
  readings slightly out of order: the properties allow a skew.
\<close>

record rate_window =
  w_start :: gotime
  w_count :: int
  w_requests :: "gotime list"

definition new_window :: rate_window where
  "new_window = \<lparr>w_start = zero_time, w_count = 0, w_requests = []\<rparr>"


subsection \<open>Operations\<close>

function prune_first :: "gotime \<Rightarrow> gotime list \<Rightarrow> nat \<Rightarrow> nat" where
  "prune_first cutoff reqs first =
     (if first < length reqs \<and> \<not> time_after (reqs ! first) cutoff
      then prune_first cutoff reqs (Suc first) else first)"
  by pat_completeness auto
termination
  by (relation "measure (\<lambda>(cutoff, reqs, first). length reqs - first)") auto

declare prune_first.simps [simp del]

definition window_prune :: "rate_window \<Rightarrow> gotime \<Rightarrow> rate_window" where
  "window_prune w now =
     (if w_requests w = [] then w
      else
        (let cutoff = time_add now (- nanos_minute);
             first = prune_first cutoff (w_requests w) 0
         in if first = 0 then w
            else w\<lparr>w_requests :=
                take (length (w_requests w) - first)
                  (go_copy (w_requests w) (drop first (w_requests w)))\<rparr>))"

definition syncCompatFields :: "rate_window \<Rightarrow> rate_window" where
  "syncCompatFields w =
     (let w = w\<lparr>w_count := int (length (w_requests w))\<rparr>
      in if w_requests w = [] then w\<lparr>w_start := zero_time\<rparr>
         else w\<lparr>w_start := w_requests w ! 0\<rparr>)"

definition window_reset :: "gotime list \<Rightarrow> gotime \<Rightarrow> duration" where
  "window_reset reqs now =
     (let reset = wrap64 (nanos_minute - time_sub now (reqs ! 0))
      in if reset < 0 then 0 else reset)"

definition window_allow :: "i64 \<Rightarrow> gotime \<Rightarrow> rate_window \<Rightarrow> (bool \<times> duration) \<times> rate_window" where
  "window_allow limit now w =
     (if limit \<le> 0 then ((True, 0), w)
      else
        (let w = window_prune w now in
         if limit \<le> int (length (w_requests w))
         then ((False, window_reset (w_requests w) now), syncCompatFields w)
         else ((True, 0), syncCompatFields (w\<lparr>w_requests := w_requests w @ [now]\<rparr>))))"

definition resetAfter :: "rate_window \<Rightarrow> gotime \<Rightarrow> duration \<times> rate_window" where
  "resetAfter w now =
     (let w = syncCompatFields (window_prune w now)
      in if w_requests w = [] then (0, w) else (window_reset (w_requests w) now, w))"


subsection \<open>Pruning drops the expired prefix\<close>

lemma prune_first_eq:
  "first \<le> length reqs \<Longrightarrow>
   prune_first cutoff reqs first =
     first + length (takeWhile (\<lambda>t. t \<le> cutoff) (drop first reqs))"
proof (induction cutoff reqs first rule: prune_first.induct)
  case (1 cutoff reqs first)
  show ?case
  proof (cases "first < length reqs \<and> \<not> time_after (reqs ! first) cutoff")
    case True
    then have "drop first reqs = reqs ! first # drop (Suc first) reqs"
      by (simp add: Cons_nth_drop_Suc)
    with True 1 show ?thesis
      by (simp add: prune_first.simps [of cutoff reqs first] time_after_def)
  next
    case False
    then have "prune_first cutoff reqs first = first"
      by (simp only: prune_first.simps [of cutoff reqs first] if_False)
    with False 1(2) show ?thesis
      by (cases "first < length reqs") (auto simp: time_after_def Cons_nth_drop_Suc [symmetric])
  qed
qed

lemma requests_prune:
  "w_requests (window_prune w now) = dropWhile (\<lambda>t. t \<le> now - nanos_minute) (w_requests w)"
  by (cases "w_requests w = []")
     (simp_all add: window_prune_def prune_first_eq time_add_def dropWhile_eq_drop Let_def)

lemma requests_sync [simp]: "w_requests (syncCompatFields w) = w_requests w"
  by (simp add: syncCompatFields_def Let_def)

lemma sync_fields:
  "w_count (syncCompatFields w) = int (length (w_requests w))"
  "w_requests w \<noteq> [] \<Longrightarrow> w_start (syncCompatFields w) = hd (w_requests w)"
  by (simp_all add: syncCompatFields_def Let_def hd_conv_nth)

abbreviation live :: "gotime \<Rightarrow> rate_window \<Rightarrow> gotime list" where
  "live now w \<equiv> dropWhile (\<lambda>t. t \<le> now - nanos_minute) (w_requests w)"

text \<open>\<open>allow\<close> in terms of the live requests.\<close>

lemma window_allow_cases:
  assumes "0 < limit"
  obtains (admit) w' where "int (length (live now w)) < limit"
      "window_allow limit now w = ((True, 0), w')" "w_requests w' = live now w @ [now]"
    | (reject) w' where "limit \<le> int (length (live now w))"
      "window_allow limit now w = ((False, window_reset (live now w) now), w')"
      "w_requests w' = live now w"
  using assms that
  by (cases "limit \<le> int (length (live now w))")
     (auto simp: window_allow_def requests_prune Let_def)

lemma window_allow_iff:
  "0 < limit \<Longrightarrow> fst (fst (window_allow limit now w)) \<longleftrightarrow> int (length (live now w)) < limit"
  by (cases rule: window_allow_cases [of limit now w]) auto

lemma window_allow_unlimited [simp]: "limit \<le> 0 \<Longrightarrow> window_allow limit now w = ((True, 0), w)"
  by (simp add: window_allow_def)


subsection \<open>Runs\<close>

text \<open>
  \<open>rate_run\<close> feeds a list of calls, each a limit and a clock reading, to a window and
  collects the admitted readings in order of admission.
\<close>

fun rate_run ::
  "rate_window \<Rightarrow> gotime list \<Rightarrow> (i64 \<times> gotime) list \<Rightarrow> rate_window \<times> gotime list" where
  "rate_run w hist [] = (w, hist)"
| "rate_run w hist ((limit, now) # calls) =
     (let ((ok, _), w') = window_allow limit now w
      in rate_run w' (if ok then hist @ [now] else hist) calls)"

text \<open>Readings are at most \<open>skew\<close> behind any earlier one; with 0, the clock is monotone.\<close>

definition skewed :: "int \<Rightarrow> gotime list \<Rightarrow> bool" where
  "skewed skew ts \<longleftrightarrow> sorted_wrt (\<lambda>a b. a \<le> b + skew) ts"

definition in_span :: "gotime \<Rightarrow> duration \<Rightarrow> gotime list \<Rightarrow> nat" where
  "in_span x len ts = length (filter (\<lambda>t. x < t \<and> t \<le> x + len) ts)"

text \<open>
  What a window and its history agree on: the retained requests are a suffix of the
  admissions, and whatever was dropped had expired at some earlier reading.
\<close>

definition window_inv :: "gotime list \<Rightarrow> rate_window \<Rightarrow> gotime list \<Rightarrow> bool" where
  "window_inv seen w hist \<longleftrightarrow> set hist \<subseteq> set seen \<and>
     (\<exists>dropped. hist = dropped @ w_requests w \<and>
       (\<forall>r \<in> set dropped. \<exists>n \<in> set seen. r \<le> n - nanos_minute))"

lemma window_inv_new [simp]: "window_inv [] new_window []"
  by (simp add: window_inv_def new_window_def)

lemma window_inv_live:
  assumes "window_inv seen w hist"
  obtains dropped where "hist = dropped @ live now w"
    "\<forall>r \<in> set dropped. \<exists>n \<in> set (seen @ [now]). r \<le> n - nanos_minute"
proof -
  let ?P = "\<lambda>t. t \<le> now - nanos_minute"
  from assms obtain d where d: "hist = d @ w_requests w"
    "\<forall>r \<in> set d. \<exists>n \<in> set seen. r \<le> n - nanos_minute"
    by (auto simp: window_inv_def)
  have "hist = (d @ takeWhile ?P (w_requests w)) @ live now w" using d(1) by simp
  moreover have "\<forall>r \<in> set (d @ takeWhile ?P (w_requests w)).
      \<exists>n \<in> set (seen @ [now]). r \<le> n - nanos_minute"
    using d(2) by (auto dest: set_takeWhileD)
  ultimately show ?thesis by (rule that)
qed

lemma window_inv_step:
  assumes "window_inv seen w hist" and "0 < limit"
    and "window_allow limit now w = ((ok, d), w')"
  shows "window_inv (seen @ [now]) w' (if ok then hist @ [now] else hist)"
proof -
  obtain dropped where "hist = dropped @ live now w"
    "\<forall>r \<in> set dropped. \<exists>n \<in> set (seen @ [now]). r \<le> n - nanos_minute"
    using window_inv_live [OF assms(1)] by blast
  moreover have "set hist \<subseteq> set seen" using assms(1) by (simp add: window_inv_def)
  ultimately show ?thesis
    using assms(3) by (cases rule: window_allow_cases [OF assms(2), of now w])
      (auto simp: window_inv_def)
qed

text \<open>
  An admission leaves at most \<open>limit\<close> admitted requests in any span of a minute less the
  skew: what the window dropped cannot lie in a span that contains the new reading.
\<close>

lemma dropped_outside_span:
  assumes "0 \<le> skew" "skewed skew (seen @ [now])" "now \<le> x + (nanos_minute - skew)"
    and "\<exists>n \<in> set (seen @ [now]). r \<le> n - nanos_minute"
  shows "r \<le> x"
proof -
  have "\<forall>n \<in> set seen. n \<le> now + skew"
    using assms(2) by (auto simp: skewed_def sorted_wrt_append)
  with assms(1,3,4) show ?thesis by fastforce
qed

lemma admit_in_span:
  assumes inv: "window_inv seen w hist" and skew: "0 \<le> skew" "skewed skew (seen @ [now])"
    and few: "int (length (live now w)) < limit"
    and bound: "int (in_span x (nanos_minute - skew) hist) \<le> limit"
  shows "int (in_span x (nanos_minute - skew) (hist @ [now])) \<le> limit"
proof (cases "x < now \<and> now \<le> x + (nanos_minute - skew)")
  case False
  then show ?thesis using bound by (auto simp: in_span_def)
next
  case True
  obtain dropped where d: "hist = dropped @ live now w"
    "\<forall>r \<in> set dropped. \<exists>n \<in> set (seen @ [now]). r \<le> n - nanos_minute"
    using window_inv_live [OF inv] by blast
  have "\<forall>r \<in> set dropped. r \<le> x"
    using d(2) dropped_outside_span [OF skew conjunct2 [OF True]] by blast
  then have "filter (\<lambda>t. x < t \<and> t \<le> x + (nanos_minute - skew)) dropped = []"
    by (fastforce simp: filter_empty_conv)
  then have "in_span x (nanos_minute - skew) (hist @ [now]) \<le> Suc (length (live now w))"
    using d(1) by (simp add: in_span_def le_SucI [OF length_filter_le])
  then show ?thesis using few by simp
qed

lemma skewed_Cons_append: "skewed skew (seen @ now # ts) \<Longrightarrow> skewed skew (seen @ [now])"
  by (auto simp: skewed_def sorted_wrt_append)

lemma rate_run_bound:
  assumes "window_inv seen w hist" "0 \<le> skew" "skewed skew (seen @ map snd calls)"
    and "\<forall>(limit, now) \<in> set calls. 0 < limit \<and> limit \<le> quota"
    and "int (in_span x (nanos_minute - skew) hist) \<le> quota"
    and "rate_run w hist calls = (w', hist')"
  shows "int (in_span x (nanos_minute - skew) hist') \<le> quota"
  using assms
proof (induction calls arbitrary: seen w hist)
  case Nil
  then show ?case by simp
next
  case (Cons c calls)
  obtain limit now where c: "c = (limit, now)" by (cases c)
  obtain ok d w2 where step: "window_allow limit now w = ((ok, d), w2)"
    by (metis prod.collapse)
  have lim: "0 < limit" "limit \<le> quota" using Cons.prems(4) c by auto
  have skew: "skewed skew (seen @ [now])" using Cons.prems(3) c by (simp add: skewed_Cons_append)
  let ?hist2 = "if ok then hist @ [now] else hist"
  have inv2: "window_inv (seen @ [now]) w2 ?hist2"
    by (rule window_inv_step [OF Cons.prems(1) lim(1) step])
  have "int (in_span x (nanos_minute - skew) ?hist2) \<le> quota"
    using admit_in_span [OF Cons.prems(1,2) skew, of quota x] Cons.prems(5)
      window_allow_iff [OF lim(1), of now w] step lim(2) by auto
  with inv2 show ?case
    using Cons.IH [of "seen @ [now]" w2 ?hist2] Cons.prems step c by simp
qed

lemma rate_run_inv:
  assumes "window_inv seen w hist" "\<forall>(limit, now) \<in> set calls. 0 < limit"
    and "rate_run w hist calls = (w', hist')"
  shows "window_inv (seen @ map snd calls) w' hist'"
  using assms
proof (induction calls arbitrary: seen w hist)
  case Nil
  then show ?case by simp
next
  case (Cons c calls)
  obtain limit now where c: "c = (limit, now)" by (cases c)
  obtain ok d w2 where step: "window_allow limit now w = ((ok, d), w2)"
    by (metis prod.collapse)
  have "0 < limit" using Cons.prems(2) c by auto
  from window_inv_step [OF Cons.prems(1) this step]
  show ?case using Cons.IH [of "seen @ [now]" w2 "if ok then hist @ [now] else hist"]
      Cons.prems(2,3) step c by simp
qed

lemma rate_run_sorted:
  assumes "sorted (seen @ map snd calls)" "set hist \<subseteq> set seen \<and> sorted hist"
    and "rate_run w hist calls = (w', hist')"
  shows "sorted hist'"
  using assms
proof (induction calls arbitrary: seen w hist)
  case Nil
  then show ?case by simp
next
  case (Cons c calls)
  obtain limit now where c: "c = (limit, now)" by (cases c)
  obtain ok d w2 where step: "window_allow limit now w = ((ok, d), w2)"
    by (metis prod.collapse)
  have "\<forall>t \<in> set seen. t \<le> now" using Cons.prems(1) c by (auto simp: sorted_append)
  then have "set (if ok then hist @ [now] else hist) \<subseteq> set (seen @ [now]) \<and>
      sorted (if ok then hist @ [now] else hist)"
    using Cons.prems(2) by (auto simp: sorted_append)
  then show ?case using Cons.IH [of "seen @ [now]"] Cons.prems(1,3) step c by simp
qed


subsection \<open>Waiting\<close>

lemma in_i64_minute [simp]: "in_i64 nanos_minute"
  by (simp add: nanos_minute_def i64_bounds)

text \<open>With the oldest live request not in the future, the wait is the rest of its minute.\<close>

lemma window_reset_eq:
  assumes "reqs \<noteq> []" "hd reqs \<le> now" "now - hd reqs < nanos_minute"
  shows "window_reset reqs now = nanos_minute - (now - hd reqs)"
proof -
  have "time_sub now (hd reqs) = now - hd reqs"
    using assms by (simp add: time_sub_def i64_bounds nanos_minute_def)
  moreover have "wrap64 (nanos_minute - (now - hd reqs)) = nanos_minute - (now - hd reqs)"
    using assms by (intro wrap64_id) (simp add: i64_bounds nanos_minute_def)
  ultimately show ?thesis
    using assms by (simp add: window_reset_def hd_conv_nth)
qed

lemma live_hd: "live now w \<noteq> [] \<Longrightarrow> now - nanos_minute < hd (live now w)"
  using hd_dropWhile [of "\<lambda>t. t \<le> now - nanos_minute" "w_requests w"] by auto

lemma sorted_hd_less: "sorted xs \<Longrightarrow> (xs \<noteq> [] \<Longrightarrow> (c :: int) < hd xs) \<Longrightarrow> \<forall>t \<in> set xs. c < t"
  by (cases xs) auto

lemma window_reset_nonneg: "0 \<le> window_reset reqs now"
  by (simp add: window_reset_def Let_def)

lemma skewed_0: "skewed 0 ts \<longleftrightarrow> sorted ts"
  by (simp add: skewed_def)


subsection \<open>Properties\<close>

text \<open>
  C10. Whatever the sequence of limits up to a quota and of clock readings that lag behind
  earlier ones by at most a skew, a new window never admits more than the quota of requests
  in any span of a minute less the skew; with a monotone clock, in any span of one minute.
\<close>

theorem window_never_exceeds_quota:
  assumes "0 \<le> skew" and "skewed skew (map snd calls)"
    and "\<forall>(limit, now) \<in> set calls. 0 < limit \<and> limit \<le> quota" and "0 \<le> quota"
  shows "int (in_span x (nanos_minute - skew) (snd (rate_run new_window [] calls))) \<le> quota"
  using rate_run_bound [OF window_inv_new assms(1) _ assms(3), of x] assms(2,4)
  by (metis append_Nil filter.simps(1) in_span_def list.size(3) of_nat_0 prod.collapse)

theorem window_never_exceeds_quota_witness:
  "(0 :: int) \<le> 0 \<and> skewed 0 [1, 2] \<and>
   int (in_span 0 nanos_minute (snd (rate_run new_window [] [(1, 1), (1, 2)]))) \<le> 1"
  using window_never_exceeds_quota [of 0 "[(1, 1), (1, 2)]" 1 0] by (simp add: skewed_def)

text \<open>
  A request is refused only when the quota is used up: after any run with a monotone
  clock, a refusal at time \<open>now\<close> means at least \<open>limit\<close> requests were admitted in the minute
  that ends at \<open>now\<close>, and an admission means fewer were.
\<close>

theorem window_refuses_only_when_full:
  assumes "sorted (map snd calls @ [now])"
    and "\<forall>(limit, now) \<in> set calls. 0 < limit" and "0 < limit"
    and "rate_run new_window [] calls = (w, hist)"
  shows "fst (fst (window_allow limit now w)) \<longleftrightarrow>
    int (in_span (now - nanos_minute) nanos_minute hist) < limit"
proof -
  have inv: "window_inv (map snd calls) w hist"
    using rate_run_inv [OF window_inv_new assms(2,4)] by simp
  obtain dropped where d: "hist = dropped @ live now w"
    "\<forall>r \<in> set dropped. \<exists>n \<in> set (map snd calls @ [now]). r \<le> n - nanos_minute"
    using window_inv_live [OF inv] by blast
  have le: "\<forall>n \<in> set (map snd calls). n \<le> now" using assms(1) by (simp add: sorted_append)
  have "sorted hist"
    by (rule rate_run_sorted [OF _ _ assms(4), of "[]"]) (use assms(1) in \<open>simp_all add: sorted_append\<close>)
  then have "sorted (live now w)" unfolding d(1) sorted_append by blast
  then have "\<forall>t \<in> set (live now w). now - nanos_minute < t"
    using live_hd by (rule sorted_hd_less)
  moreover have "set hist \<subseteq> set (map snd calls)" using inv by (simp add: window_inv_def)
  then have "\<forall>t \<in> set (live now w). t \<le> now" using le unfolding d(1) set_append by blast
  moreover have "\<forall>r \<in> set dropped. r \<le> now - nanos_minute" using d(2) le by fastforce
  ultimately have "in_span (now - nanos_minute) nanos_minute hist = length (live now w)"
    unfolding in_span_def d(1) filter_append
    by (subst filter_False, fastforce, subst filter_True, fastforce, simp)
  then show ?thesis using window_allow_iff [OF assms(3)] by simp
qed

theorem window_refuses_only_when_full_witness:
  "sorted (map snd [(1 :: int, 1 :: int)] @ [2]) \<and>
   rate_run new_window [] [(1, 1)] = (syncCompatFields (new_window\<lparr>w_requests := [1]\<rparr>), [1]) \<and>
   \<not> fst (fst (window_allow 1 2 (syncCompatFields (new_window\<lparr>w_requests := [1]\<rparr>))))"
proof -
  have run: "rate_run new_window [] [(1, 1)] =
      (syncCompatFields (new_window\<lparr>w_requests := [1]\<rparr>), [1])"
    by (simp add: window_allow_def window_prune_def new_window_def)
  show ?thesis
    using run window_refuses_only_when_full [OF _ _ _ run, of 2 1]
    by (simp add: in_span_def nanos_minute_def)
qed

text \<open>
  C27. The wait told with a refusal is right: with a monotone clock it lies between one
  nanosecond and one minute, a call any shorter time later is refused again, and a call after
  exactly that wait is admitted when the window holds no more than the limit.
\<close>

theorem window_retry_after_exact:
  assumes "sorted (w_requests w)" "\<forall>t \<in> set (w_requests w). t \<le> now" "0 < limit"
    and "window_allow limit now w = ((False, d), w')"
  shows "0 < d \<and> d \<le> nanos_minute \<and>
    (\<forall>d'. 0 \<le> d' \<and> d' < d \<longrightarrow> \<not> fst (fst (window_allow limit (now + d') w'))) \<and>
    (int (length (w_requests w')) = limit \<longrightarrow> fst (fst (window_allow limit (now + d) w')))"
proof -
  have req: "w_requests w' = live now w" and full: "limit \<le> int (length (live now w))"
    and d: "d = window_reset (live now w) now"
    using assms(4) by (cases rule: window_allow_cases [OF assms(3), of now w]; simp)+
  obtain t ts where live: "live now w = t # ts"
    using full assms(3) by (cases "live now w") auto
  have "t \<in> set (live now w)" using live by simp
  then have t: "now - nanos_minute < t" "t \<le> now"
    using live_hd [of now w] live assms(2) set_dropWhileD by (force, metis)
  have "d = nanos_minute - (now - t)"
    unfolding d live by (subst window_reset_eq) (use t in simp_all)
  moreover have "live (now + d') w' = live now w" if "d' < d" for d'
    using that calculation req live by simp
  moreover have "length (live (now + d) w') < length (live now w)"
    using calculation(1) req live by (simp add: le_imp_less_Suc length_dropWhile_le)
  ultimately show ?thesis
    using t full req assms(3) by (auto simp: window_allow_iff)
qed

theorem window_retry_after_exact_witness:
  "window_allow 1 5 (new_window\<lparr>w_requests := [2]\<rparr>) =
     ((False, nanos_minute - 3), syncCompatFields (new_window\<lparr>w_requests := [2]\<rparr>)) \<and>
   fst (fst (window_allow 1 (5 + (nanos_minute - 3))
      (syncCompatFields (new_window\<lparr>w_requests := [2]\<rparr>))))"
proof -
  let ?w = "new_window\<lparr>w_requests := [2]\<rparr>"
  have call: "window_allow 1 5 ?w = ((False, nanos_minute - 3), syncCompatFields ?w)"
    by (simp add: window_allow_def window_prune_def prune_first_eq time_add_def nanos_minute_def
        window_reset_def time_sub_def i64_bounds wrap64_bounded new_window_def Let_def)
  show ?thesis
    using call window_retry_after_exact [OF _ _ _ call] by simp
qed

end
