(* ===== verification/Rate_Backend.thy ===== *)
theory Rate_Backend
  imports Rate_Window Go_Strings
begin

section \<open>Rate-limit backends and their manager (internal/gateway/ratelimit_backend.go)\<close>

text \<open>
  The interface \<open>rateLimitBackend\<close> as a locale, the in-memory backend with its map of
  sliding windows, and the manager that derives a storage key from a bearer token, asks a
  backend and applies the failure policy. The manager works on any backend: it takes the
  backend's \<open>Allow\<close> as an argument, as the Go code calls it through the interface.
\<close>

record rate_limit_decision =
  rd_allowed :: bool
  rd_retry_after :: duration
  rd_degraded :: bool

definition no_decision :: rate_limit_decision where
  "no_decision = \<lparr>rd_allowed = False, rd_retry_after = 0, rd_degraded = False\<rparr>"

definition allowed_decision :: rate_limit_decision where
  "allowed_decision = no_decision\<lparr>rd_allowed := True\<rparr>"

text \<open>The errors of a backend: the connection failed, or its reply was not understood.\<close>

datatype limit_error =
  LimitBackend string
| LimitResultLength int
| LimitDecodeAllowed
| LimitDecodeRetry


subsection \<open>The interface\<close>

text \<open>
  \<open>used s k now\<close> counts the requests the backend holds against key \<open>k\<close> at \<open>now\<close>;
  \<open>room s n\<close> says the backend can record \<open>n\<close> more requests (it bounds sequence numbers).
\<close>

locale rate_backend_if =
  fixes ballow :: "'s \<Rightarrow> string \<Rightarrow> i64 \<Rightarrow> gotime \<Rightarrow> (rate_limit_decision \<times> limit_error option) \<times> 's"
    and bretain :: "'s \<Rightarrow> string set \<Rightarrow> 's"
    and used :: "'s \<Rightarrow> string \<Rightarrow> gotime \<Rightarrow> nat"
    and room :: "'s \<Rightarrow> nat \<Rightarrow> bool"
  assumes unlimited: "limit \<le> 0 \<Longrightarrow> ballow s k limit now = ((allowed_decision, None), s)"
    and allow_iff: "0 < limit \<Longrightarrow> ballow s k limit now = ((d, None), s') \<Longrightarrow>
        rd_allowed d \<longleftrightarrow> int (used s k now) < limit"
    and used_same: "0 < limit \<Longrightarrow> room s (Suc n) \<Longrightarrow> ballow s k limit now = ((d, None), s') \<Longrightarrow>
        used s' k now = used s k now + (if rd_allowed d then 1 else 0)"
    and used_other: "ballow s k limit now = ((d, err), s') \<Longrightarrow> k' \<noteq> k \<Longrightarrow>
        used s' k' now' = used s k' now'"
    and room_step: "room s (Suc n) \<Longrightarrow> ballow s k limit now = (r, s') \<Longrightarrow> room s' n"
    and error_refuses: "ballow s k limit now = ((d, Some e), s') \<Longrightarrow> \<not> rd_allowed d"
    and retain_kept: "k \<in> ks \<Longrightarrow> used (bretain s ks) k now = used s k now"
    and retain_room: "room s n \<Longrightarrow> room (bretain s ks) n"
begin

text \<open>Calls for other keys are invisible to a key.\<close>

lemma used_others:
  "\<forall>(k', l, t) \<in> set calls. k' \<noteq> k \<Longrightarrow>
   used (foldl (\<lambda>s (k', l, t). snd (ballow s k' l t)) s calls) k now = used s k now"
proof (induction calls arbitrary: s)
  case Nil
  then show ?case by simp
next
  case (Cons c calls)
  obtain k' l t where c: "c = (k', l, t)" by (cases c)
  obtain d e s' where r: "ballow s k' l t = ((d, e), s')" by (metis prod.collapse)
  from Cons.prems c have "used s' k now = used s k now" using used_other [OF r] by auto
  with Cons c r show ?case by simp
qed

end


subsection \<open>The memory backend\<close>

type_synonym memory_backend = "string \<rightharpoonup> rate_window"

definition newMemoryRateLimitBackend :: memory_backend where
  "newMemoryRateLimitBackend = Map.empty"

definition memory_allow ::
  "memory_backend \<Rightarrow> string \<Rightarrow> i64 \<Rightarrow> gotime \<Rightarrow>
   (rate_limit_decision \<times> limit_error option) \<times> memory_backend" where
  "memory_allow windows key limit now =
     (if limit \<le> 0 then ((allowed_decision, None), windows)
      else
        (let window = (case windows key of None \<Rightarrow> new_window | Some w \<Rightarrow> w);
             ((allowed, retry), window) = window_allow limit now window
         in ((\<lparr>rd_allowed = allowed, rd_retry_after = retry, rd_degraded = False\<rparr>, None),
             windows(key \<mapsto> window))))"

definition memory_retain :: "memory_backend \<Rightarrow> string set \<Rightarrow> memory_backend" where
  "memory_retain windows keys = (\<lambda>key. if key \<in> keys then windows key else None)"

definition memory_used :: "memory_backend \<Rightarrow> string \<Rightarrow> gotime \<Rightarrow> nat" where
  "memory_used windows key now =
     (case windows key of None \<Rightarrow> 0 | Some w \<Rightarrow> length (live now w))"

lemma dropWhile_snoc_kept:
  "(xs \<noteq> [] \<Longrightarrow> \<not> P (hd xs)) \<Longrightarrow> \<not> P x \<Longrightarrow> dropWhile P (xs @ [x]) = xs @ [x]"
  by (cases xs) auto

lemma dropWhile_expired_snoc:
  "dropWhile (\<lambda>t. t \<le> now - nanos_minute) (live now w @ [now]) = live now w @ [now]"
  by (rule dropWhile_snoc_kept) (use live_hd [of now w] in \<open>auto simp: nanos_minute_def\<close>)

lemma memory_used_step:
  assumes "0 < limit" "memory_allow s k limit now = ((d, e), s')"
  shows "(rd_allowed d \<longleftrightarrow> int (memory_used s k now) < limit) \<and>
    memory_used s' k now = memory_used s k now + (if rd_allowed d then 1 else 0)"
proof -
  let ?w = "case s k of None \<Rightarrow> new_window | Some w \<Rightarrow> w"
  have used: "memory_used s k now = length (live now ?w)"
    by (simp add: memory_used_def new_window_def split: option.split)
  show ?thesis
  proof (cases rule: window_allow_cases [OF assms(1), of now ?w])
    case (1 w')
    then show ?thesis
      using assms used dropWhile_expired_snoc [of now ?w]
      by (auto simp: memory_allow_def memory_used_def)
  next
    case (2 w')
    then show ?thesis
      using assms used by (auto simp: memory_allow_def memory_used_def)
  qed
qed

interpretation mem: rate_backend_if memory_allow memory_retain memory_used "\<lambda>_ _. True"
proof unfold_locales
  fix limit s k now d s'
  assume "0 < limit" "memory_allow s k limit now = ((d, None), s')"
  then show "rd_allowed d \<longleftrightarrow> int (memory_used s k now) < limit"
    using memory_used_step by blast
next
  fix limit s k now d s'
  assume "0 < limit" "memory_allow s k limit now = ((d, None), s')"
  then show "memory_used s' k now = memory_used s k now + (if rd_allowed d then 1 else 0)"
    using memory_used_step by blast
qed (auto simp: memory_allow_def memory_retain_def memory_used_def split: if_splits prod.splits)


subsection \<open>The manager\<close>

record 's rate_limit_manager =
  mgr_backend :: 's
  mgr_fail_open :: bool

type_synonym 's backend_allow =
  "'s \<Rightarrow> string \<Rightarrow> i64 \<Rightarrow> gotime \<Rightarrow> (rate_limit_decision \<times> limit_error option) \<times> 's"

text \<open>
  \<open>hex.EncodeToString\<close>. The digest function \<open>sha256.Sum256\<close> is an argument: nothing here
  depends on how it computes.
\<close>

definition hex_digit :: "nat \<Rightarrow> char" where
  "hex_digit n = (if n < 10 then char_of (48 + n) else char_of (87 + n))"

definition hex_encode :: "string \<Rightarrow> string" where
  "hex_encode s = concat (map (\<lambda>c. [hex_digit (byte c div 16), hex_digit (byte c mod 16)]) s)"

definition rateLimitKey :: "(string \<Rightarrow> string) \<Rightarrow> string \<Rightarrow> string" where
  "rateLimitKey sha256 token = ''client:'' @ hex_encode (take 16 (sha256 token))"

definition manager_allow ::
  "'s backend_allow \<Rightarrow> (string \<Rightarrow> string) \<Rightarrow> 's rate_limit_manager \<Rightarrow> string \<Rightarrow> i64 \<Rightarrow> gotime \<Rightarrow>
   (rate_limit_decision \<times> limit_error option) \<times> 's rate_limit_manager" where
  "manager_allow ballow sha256 m token limit now =
     (if limit \<le> 0 then ((allowed_decision, None), m)
      else
        (let ((decision, err), s) = ballow (mgr_backend m) (rateLimitKey sha256 token) limit now;
             decision = (if err \<noteq> None
               then (let decision = decision\<lparr>rd_degraded := True\<rparr>
                     in if mgr_fail_open m then decision\<lparr>rd_allowed := True\<rparr> else decision)
               else decision)
         in ((decision, err), m\<lparr>mgr_backend := s\<rparr>)))"

definition manager_retain_tokens ::
  "('s \<Rightarrow> string set \<Rightarrow> 's) \<Rightarrow> (string \<Rightarrow> string) \<Rightarrow> 's rate_limit_manager \<Rightarrow> string set \<Rightarrow>
   's rate_limit_manager" where
  "manager_retain_tokens bretain sha256 m tokens =
     m\<lparr>mgr_backend := bretain (mgr_backend m) (rateLimitKey sha256 ` tokens)\<rparr>"

lemma manager_unlimited [simp]:
  "limit \<le> 0 \<Longrightarrow> manager_allow ballow sha m token limit now = ((allowed_decision, None), m)"
  by (simp add: manager_allow_def)

lemma manager_fail_open_kept [simp]:
  "mgr_fail_open (snd (manager_allow ballow sha m token limit now)) = mgr_fail_open m"
  by (simp add: manager_allow_def Let_def split: prod.split)

text \<open>A burst: \<open>n\<close> calls for one token at one instant; the number of admissions.\<close>

fun burst ::
  "'s backend_allow \<Rightarrow> (string \<Rightarrow> string) \<Rightarrow> string \<Rightarrow> i64 \<Rightarrow> gotime \<Rightarrow> nat \<Rightarrow>
   's rate_limit_manager \<Rightarrow> nat \<times> 's rate_limit_manager" where
  "burst ballow sha token limit now 0 m = (0, m)"
| "burst ballow sha token limit now (Suc n) m =
     (let ((d, _), m) = manager_allow ballow sha m token limit now;
          (k, m) = burst ballow sha token limit now n m
      in ((if rd_allowed d then 1 else 0) + k, m))"

context rate_backend_if
begin

lemma manager_allow_healthy:
  assumes "0 < limit" "manager_allow ballow sha m token limit now = ((d, None), m')"
  shows "ballow (mgr_backend m) (rateLimitKey sha token) limit now = ((d, None), mgr_backend m')"
  using assms by (auto simp: manager_allow_def Let_def split: prod.splits if_splits)

text \<open>The failure policy: a backend error refuses the request unless the manager fails open.\<close>

lemma manager_error:
  assumes "manager_allow ballow sha m token limit now = ((d, Some e), m')"
  shows "rd_degraded d \<and> (rd_allowed d \<longleftrightarrow> mgr_fail_open m)"
  using assms error_refuses
  by (auto simp: manager_allow_def Let_def split: prod.splits if_splits)

text \<open>As long as the backend stays healthy a burst is admitted up to the quota that is left, no further.\<close>

lemma burst_admits:
  assumes "0 < limit" "room (mgr_backend m) n" "healthy (mgr_backend m)"
    and healthy: "\<And>s k. healthy s \<Longrightarrow> snd (fst (ballow s k limit now)) = None"
      "\<And>s k. healthy s \<Longrightarrow> healthy (snd (ballow s k limit now))"
  shows "int (fst (burst ballow sha token limit now n m)) =
    min (int n) (max 0 (limit - int (used (mgr_backend m) (rateLimitKey sha token) now)))"
  using assms(2,3)
proof (induction n arbitrary: m)
  case 0
  then show ?case by simp
next
  case (Suc n)
  let ?k = "rateLimitKey sha token"
  obtain d s' where r: "ballow (mgr_backend m) ?k limit now = ((d, None), s')"
    using healthy(1) [OF Suc.prems(2), of ?k] by (metis prod.collapse)
  then have step: "manager_allow ballow sha m token limit now =
      ((d, None), m\<lparr>mgr_backend := s'\<rparr>)"
    using assms(1) by (simp add: manager_allow_def)
  let ?m' = "m\<lparr>mgr_backend := s'\<rparr>"
  have IH: "int (fst (burst ballow sha token limit now n ?m')) =
      min (int n) (max 0 (limit - int (used s' ?k now)))"
    using Suc.IH [of ?m'] room_step [OF Suc.prems(1) r] healthy(2) [OF Suc.prems(2), of ?k] r
    by simp
  have "fst (burst ballow sha token limit now (Suc n) m) =
      (if rd_allowed d then 1 else 0) + fst (burst ballow sha token limit now n ?m')"
    using step by (simp add: Let_def split: prod.split)
  then show ?case
    using IH allow_iff [OF assms(1) r] used_same [OF assms(1) Suc.prems(1) r] by auto
qed

text \<open>Other tokens' requests leave a token's remaining quota alone.\<close>

lemma manager_other_token:
  assumes "rateLimitKey sha other \<noteq> rateLimitKey sha token"
  shows "used (mgr_backend (snd (manager_allow ballow sha m other limit now)))
      (rateLimitKey sha token) t = used (mgr_backend m) (rateLimitKey sha token) t"
  using assms used_other
  by (fastforce simp: manager_allow_def Let_def split: prod.split)

end


subsection \<open>Keys\<close>

lemma length_hex_encode: "length (hex_encode s) = 2 * length s"
  by (induction s) (auto simp: hex_encode_def)

lemma hex_digit_cases: "n < 16 \<Longrightarrow> is_digit (hex_digit n) \<or> is_lower (hex_digit n)"
  by (auto simp: hex_digit_def is_digit_def is_lower_def)

lemma hex_encode_chars: "c \<in> set (hex_encode s) \<Longrightarrow> is_digit c \<or> is_lower c"
proof -
  have "byte x div 16 < 16" "byte x mod 16 < 16" for x using byte_bound [of x] by (arith, simp)
  then have "is_digit (hex_digit (byte x div 16)) \<or> is_lower (hex_digit (byte x div 16))"
    "is_digit (hex_digit (byte x mod 16)) \<or> is_lower (hex_digit (byte x mod 16))" for x
    using hex_digit_cases by blast+
  then show "c \<in> set (hex_encode s) \<Longrightarrow> is_digit c \<or> is_lower c"
    by (auto simp: hex_encode_def)
qed


subsection \<open>Properties\<close>

text \<open>
  The storage key of a bearer token has a fixed shape: the text \<open>client:\<close> and 32
  hexadecimal digits, the first 16 bytes of its digest. It depends on the token only
  through these bytes, so no token text reaches a backend.
\<close>

theorem rate_key_shape:
  assumes "length (sha256 token) = 32"
  shows "length (rateLimitKey sha256 token) = 39 \<and> take 7 (rateLimitKey sha256 token) = ''client:'' \<and>
    (\<forall>c \<in> set (drop 7 (rateLimitKey sha256 token)). is_digit c \<or> is_lower c) \<and>
    (\<forall>token'. take 16 (sha256 token') = take 16 (sha256 token) \<longrightarrow>
       rateLimitKey sha256 token' = rateLimitKey sha256 token)"
  using assms by (auto simp: rateLimitKey_def length_hex_encode dest: hex_encode_chars)

theorem rate_key_shape_witness:
  "length (replicate 32 CHR ''A'') = 32 \<and>
   rateLimitKey (\<lambda>_. replicate 32 CHR ''A'') ''secret'' = ''client:41414141414141414141414141414141'' \<and>
   length (rateLimitKey (\<lambda>_. replicate 32 CHR ''A'') ''secret'') = 39"
proof -
  have key: "rateLimitKey (\<lambda>_. replicate 32 CHR ''A'') ''secret''
      = ''client:41414141414141414141414141414141''" by code_simp
  have len: "length (replicate 32 CHR ''A'') = 32" by simp
  show ?thesis using key len rate_key_shape [of "\<lambda>_. replicate 32 CHR ''A''" "''secret''"] by blast
qed

text \<open>
  In memory, a burst of \<open>n\<close> requests of one client at one instant is admitted exactly up
  to the part of the limit that is still free.
\<close>

theorem memory_burst_exact:
  assumes "0 < limit"
  shows "int (fst (burst memory_allow sha256 token limit now n m)) =
    min (int n)
      (max 0 (limit - int (memory_used (mgr_backend m) (rateLimitKey sha256 token) now)))"
  by (rule mem.burst_admits [OF assms, where healthy = "\<lambda>_. True"])
     (auto simp: memory_allow_def assms not_le split: prod.split)

theorem memory_burst_exact_witness:
  "(0 :: int) < 2 \<and>
   fst (burst memory_allow id ''t'' 2 7 3
     \<lparr>mgr_backend = newMemoryRateLimitBackend, mgr_fail_open = False\<rparr>) = 2"
  using memory_burst_exact [of 2 id "''t''" 7 3
      "\<lparr>mgr_backend = newMemoryRateLimitBackend, mgr_fail_open = False\<rparr>"]
  by (simp add: newMemoryRateLimitBackend_def memory_used_def del: burst.simps)

text \<open>
  Clients are isolated: whatever calls other clients make, with any limits and at any
  times, the requests counted against a client with a different storage key do not change,
  nor do they when a reload retains that client's token.
\<close>

theorem memory_clients_isolated:
  assumes "rateLimitKey sha256 other \<noteq> rateLimitKey sha256 token"
  shows "memory_used (mgr_backend (snd (manager_allow memory_allow sha256 m other limit now)))
      (rateLimitKey sha256 token) t = memory_used (mgr_backend m) (rateLimitKey sha256 token) t \<and>
    (token \<in> tokens \<longrightarrow>
      memory_used (mgr_backend (manager_retain_tokens memory_retain sha256 m tokens))
        (rateLimitKey sha256 token) t = memory_used (mgr_backend m) (rateLimitKey sha256 token) t)"
  using mem.manager_other_token [OF assms] mem.retain_kept
  by (auto simp: manager_retain_tokens_def)

theorem memory_clients_isolated_witness:
  "rateLimitKey id ''b'' \<noteq> rateLimitKey id ''a'' \<and>
   memory_used (mgr_backend (snd (manager_allow memory_allow id
      \<lparr>mgr_backend = newMemoryRateLimitBackend, mgr_fail_open = False\<rparr> ''b'' 1 5)))
      (rateLimitKey id ''a'') 5 = 0"
proof -
  have ne: "rateLimitKey id ''b'' \<noteq> rateLimitKey id ''a''"
    by (simp add: rateLimitKey_def hex_encode_def hex_digit_def)
  show ?thesis
    using ne memory_clients_isolated [OF ne, of
        "\<lparr>mgr_backend = newMemoryRateLimitBackend, mgr_fail_open = False\<rparr>" 1 5 5]
    by (simp add: newMemoryRateLimitBackend_def memory_used_def)
qed

end
