(* ===== verification/Rate_Redis.thy ===== *)
theory Rate_Redis
  imports Rate_Backend "HOL-Library.Word" "HOL-Library.Finite_Map"
begin

section \<open>The shared Redis backend (internal/gateway/ratelimit_redis.go)\<close>

text \<open>
  The Lua script the backend runs is part of the source and is translated statement by
  statement. The Redis commands it calls belong to the server: they are the fields of
  \<open>redis_cmds\<close>, an argument of every definition here, and what Redis documents of them is
  assumed in the locale \<open>redis_server\<close>. Lua's numbers are doubles; the script computes
  with millisecond times and counts, which are exact, so they are \<^typ>\<open>int\<close> here.
\<close>


subsection \<open>Commands and script\<close>

record 'r redis_cmds =
  rc_time :: "'r \<Rightarrow> int \<times> int"
  rc_zremrangebyscore :: "'r \<Rightarrow> string \<Rightarrow> int \<Rightarrow> 'r"
  rc_zcard :: "'r \<Rightarrow> string \<Rightarrow> int"
  rc_zfirst :: "'r \<Rightarrow> string \<Rightarrow> int option"
  rc_zadd :: "'r \<Rightarrow> string \<Rightarrow> int \<Rightarrow> string \<Rightarrow> 'r"
  rc_pexpire :: "'r \<Rightarrow> string \<Rightarrow> int \<Rightarrow> 'r"

definition script_now :: "'r redis_cmds \<Rightarrow> 'r \<Rightarrow> int" where
  "script_now cmds r = (let tm = rc_time cmds r in fst tm * 1000 + snd tm div 1000)"

definition redis_rate_script ::
  "'r redis_cmds \<Rightarrow> 'r \<Rightarrow> string \<Rightarrow> i64 \<Rightarrow> string \<Rightarrow> (i64 \<times> i64) \<times> 'r" where
  "redis_rate_script cmds r key limit member =
     (let now = script_now cmds r;
          cutoff = now - 60000;
          r = rc_zremrangebyscore cmds r key cutoff;
          count = rc_zcard cmds r key
      in if limit \<le> count then
           (let retry = (case rc_zfirst cmds r key of None \<Rightarrow> 1
                         | Some oldest \<Rightarrow> max 1 (60000 - (now - oldest)));
                r = rc_pexpire cmds r key 61000
            in ((0, retry), r))
         else
           (let r = rc_zadd cmds r key now member;
                r = rc_pexpire cmds r key 61000
            in ((1, 0), r)))"


subsection \<open>The Go side\<close>

text \<open>A value of the reply: an integer, a bulk string (as \<open>string\<close> or \<open>[]byte\<close>), or other.\<close>

datatype redis_value = RedisInt i64 | RedisText string | RedisOther

definition redisInt64 :: "redis_value \<Rightarrow> unit + i64" where
  "redisInt64 v =
     (case v of
        RedisInt n \<Rightarrow> Inr n
      | RedisText s \<Rightarrow> (case parse_int64 s of Inl _ \<Rightarrow> Inl () | Inr n \<Rightarrow> Inr n)
      | RedisOther \<Rightarrow> Inl ())"

text \<open>
  The outcome of \<open>Run(...).Slice()\<close>: the script ran and replied, the call failed before it
  reached the server, or the script ran and its reply was lost.
\<close>

datatype redis_link = LinkUp | LinkDown | ReplyLost

record 'r redis_backend =
  rds_server :: 'r
  rds_link :: redis_link
  rds_prefix :: string
  rds_instance :: string
  rds_seq :: "64 word"
  rds_mode :: string

definition redis_member :: "string \<Rightarrow> 64 word \<Rightarrow> string" where
  "redis_member inst seq = inst @ '':'' @ itoa (uint seq)"

definition redis_decode ::
  "redis_value list \<Rightarrow> rate_limit_decision \<times> limit_error option" where
  "redis_decode result =
     (if length result \<noteq> 2 then (no_decision, Some (LimitResultLength (int (length result))))
      else (case redisInt64 (result ! 0) of
        Inl _ \<Rightarrow> (no_decision, Some LimitDecodeAllowed)
      | Inr allowed \<Rightarrow>
          (case redisInt64 (result ! 1) of
            Inl _ \<Rightarrow> (no_decision, Some LimitDecodeRetry)
          | Inr retryMS \<Rightarrow>
              (\<lparr>rd_allowed = (allowed = 1), rd_retry_after = wrap64 (retryMS * nanos_ms),
                rd_degraded = False\<rparr>, None))))"

definition redis_allow ::
  "'r redis_cmds \<Rightarrow> 'r redis_backend \<Rightarrow> string \<Rightarrow> i64 \<Rightarrow> gotime \<Rightarrow>
   (rate_limit_decision \<times> limit_error option) \<times> 'r redis_backend" where
  "redis_allow cmds b key limit now =
     (if limit \<le> 0 then ((allowed_decision, None), b)
      else
        (let b = b\<lparr>rds_seq := rds_seq b + 1\<rparr>;
             member = redis_member (rds_instance b) (rds_seq b);
             ((allowed, retry), r) =
               redis_rate_script cmds (rds_server b) (rds_prefix b @ key) limit member
         in (case rds_link b of
               LinkDown \<Rightarrow> ((no_decision, Some (LimitBackend ''connection'')), b)
             | ReplyLost \<Rightarrow>
                 ((no_decision, Some (LimitBackend ''reply'')), b\<lparr>rds_server := r\<rparr>)
             | LinkUp \<Rightarrow>
                 (redis_decode [RedisInt allowed, RedisInt retry], b\<lparr>rds_server := r\<rparr>))))"

definition redis_retain :: "'r redis_backend \<Rightarrow> string set \<Rightarrow> 'r redis_backend" where
  "redis_retain b keys = b"

lemma redis_decode_reply [simp]:
  "redis_decode [RedisInt a, RedisInt ms] =
     (\<lparr>rd_allowed = (a = 1), rd_retry_after = wrap64 (ms * nanos_ms), rd_degraded = False\<rparr>, None)"
  by (simp add: redis_decode_def redisInt64_def)

lemma redis_decode_error: "redis_decode result = (d, Some e) \<Longrightarrow> d = no_decision"
  by (auto simp: redis_decode_def split: if_splits sum.splits)

lemma redis_member_inj: "redis_member inst a = redis_member inst b \<Longrightarrow> a = b"
proof -
  assume "redis_member inst a = redis_member inst b"
  then have "itoa (uint a) = itoa (uint b)" by (simp add: redis_member_def)
  moreover have "digits_value 0 (itoa (uint w)) = nat (uint w)" for w :: "64 word"
    by (simp add: itoa_def not_less digits_value_nat_digits)
  ultimately have "nat (uint a) = nat (uint b)" by metis
  then show "a = b" by (simp add: word_unat_eq_iff)
qed


subsection \<open>What Redis documents\<close>

text \<open>
  \<open>zset r key\<close> is the sorted set stored at a key, as a map from members to scores:
  \<open>ZREMRANGEBYSCORE key -inf max\<close> removes the members with a score up to \<open>max\<close>, \<open>ZCARD\<close>
  counts members, \<open>ZRANGE key 0 0 WITHSCORES\<close> yields the least score, \<open>ZADD\<close> stores a
  member, \<open>PEXPIRE\<close> with a positive time removes nothing at once, and time stands still
  while a script runs. A command reads and writes its own key only.
\<close>

locale redis_server =
  fixes cmds :: "'r redis_cmds"
    and zset :: "'r \<Rightarrow> string \<Rightarrow> (string \<rightharpoonup> int)"
  assumes zset_finite: "finite (dom (zset r k))"
    and zset_zrem: "zset (rc_zremrangebyscore cmds r k mx) k' =
        (if k' = k then zset r k |` {m. \<exists>sc. zset r k m = Some sc \<and> mx < sc} else zset r k')"
    and zcard: "rc_zcard cmds r k = int (card (dom (zset r k)))"
    and zfirst: "rc_zfirst cmds r k =
        (if dom (zset r k) = {} then None else Some (Min (ran (zset r k))))"
    and zset_zadd: "zset (rc_zadd cmds r k sc m) k' =
        (if k' = k then (zset r k)(m \<mapsto> sc) else zset r k')"
    and zset_pexpire: "0 < ms \<Longrightarrow> zset (rc_pexpire cmds r k ms) k' = zset r k'"
    and time_frozen: "rc_time cmds (rc_zremrangebyscore cmds r k mx) = rc_time cmds r"
      "rc_time cmds (rc_zadd cmds r k sc m) = rc_time cmds r"
      "rc_time cmds (rc_pexpire cmds r k ms) = rc_time cmds r"

text \<open>The members of a key younger than a minute, and the sequence numbers still free.\<close>

definition redis_used ::
  "'r redis_cmds \<Rightarrow> ('r \<Rightarrow> string \<Rightarrow> (string \<rightharpoonup> int)) \<Rightarrow> 'r redis_backend \<Rightarrow> string \<Rightarrow> gotime \<Rightarrow> nat"
  where
  "redis_used cmds zset b key now =
     card {m. \<exists>sc. zset (rds_server b) (rds_prefix b @ key) m = Some sc \<and>
                   script_now cmds (rds_server b) - 60000 < sc}"

definition redis_room ::
  "('r \<Rightarrow> string \<Rightarrow> (string \<rightharpoonup> int)) \<Rightarrow> 'r redis_backend \<Rightarrow> nat \<Rightarrow> bool" where
  "redis_room zset b n \<longleftrightarrow>
     unat (rds_seq b) + n < 2 ^ 64 \<and>
     (\<forall>k j. rds_seq b < j \<longrightarrow> zset (rds_server b) k (redis_member (rds_instance b) j) = None)"

context redis_server
begin

abbreviation fresh_set :: "'r \<Rightarrow> string \<Rightarrow> string set" where
  "fresh_set r k \<equiv> {m. \<exists>sc. zset r k m = Some sc \<and> script_now cmds r - 60000 < sc}"

lemma fresh_finite: "finite (fresh_set r k)"
  by (rule finite_subset [OF _ zset_finite [of r k]]) auto

lemma script_now_frozen [simp]:
  "script_now cmds (rc_zremrangebyscore cmds r k mx) = script_now cmds r"
  "script_now cmds (rc_zadd cmds r k sc m) = script_now cmds r"
  "script_now cmds (rc_pexpire cmds r k ms) = script_now cmds r"
  by (simp_all add: script_now_def time_frozen)

lemma dom_after_zrem:
  "dom (zset (rc_zremrangebyscore cmds r k (script_now cmds r - 60000)) k) = fresh_set r k"
  by (auto simp: zset_zrem restrict_map_def split: if_splits)

text \<open>The script admits while fewer than \<open>limit\<close> members are fresh, and records the member.\<close>

lemma script_spec:
  assumes "redis_rate_script cmds r key limit member = ((allowed, retry), r')"
  shows "(allowed = 1 \<longleftrightarrow> int (card (fresh_set r key)) < limit) \<and>
    fresh_set r' key = fresh_set r key \<union> (if allowed = 1 then {member} else {}) \<and>
    (\<forall>k. k \<noteq> key \<longrightarrow> zset r' k = zset r k) \<and> script_now cmds r' = script_now cmds r"
proof -
  let ?r1 = "rc_zremrangebyscore cmds r key (script_now cmds r - 60000)"
  have card: "rc_zcard cmds ?r1 key = int (card (fresh_set r key))"
    by (simp add: zcard dom_after_zrem)
  show ?thesis
    using assms card
    by (auto simp: redis_rate_script_def Let_def zset_pexpire zset_zadd zset_zrem
        restrict_map_def split: if_splits)
qed

text \<open>Which members a script can leave behind.\<close>

lemma script_zset:
  assumes "redis_rate_script cmds r key limit member = (res, r')" and "m \<noteq> member"
    and "zset r k m = None"
  shows "zset r' k m = None"
  using assms
  by (auto simp: redis_rate_script_def Let_def zset_pexpire zset_zadd zset_zrem
      restrict_map_def split: if_splits)

text \<open>
  The wait told with a refusal: the milliseconds until the oldest fresh member is a minute
  old, at least one.
\<close>

lemma script_retry:
  assumes "redis_rate_script cmds r key limit member = ((0, retry), r')" and "0 < limit"
  shows "1 \<le> retry \<and> (\<exists>m sc. zset r key m = Some sc \<and> m \<in> fresh_set r key \<and>
    retry = max 1 (60000 - (script_now cmds r - sc)) \<and> (\<forall>m' \<in> fresh_set r key. sc \<le> the (zset r key m')))"
proof -
  let ?r1 = "rc_zremrangebyscore cmds r key (script_now cmds r - 60000)"
  have "limit \<le> rc_zcard cmds ?r1 key"
    using assms(1) by (auto simp: redis_rate_script_def Let_def split: if_splits)
  then have ne: "dom (zset ?r1 key) \<noteq> {}" using assms(2) by (auto simp: zcard)
  let ?oldest = "Min (ran (zset ?r1 key))"
  have fin: "finite (ran (zset ?r1 key))" by (rule finite_ran) (rule zset_finite)
  have "ran (zset ?r1 key) \<noteq> {}" using ne by (auto simp: ran_def dom_def)
  with fin have "?oldest \<in> ran (zset ?r1 key)" by (rule Min_in)
  then obtain m where m: "zset ?r1 key m = Some ?oldest" by (auto simp: ran_def)
  then have m': "m \<in> fresh_set r key" "zset r key m = Some ?oldest"
    using dom_after_zrem [of r key] by (auto simp: zset_zrem restrict_map_def split: if_splits)
  have least: "?oldest \<le> the (zset r key m')" if "m' \<in> fresh_set r key" for m'
  proof -
    have "m' \<in> dom (zset ?r1 key)" using that dom_after_zrem [of r key] by simp
    then have "zset r key m' = zset ?r1 key m'" "zset ?r1 key m' \<noteq> None"
      by (auto simp: zset_zrem restrict_map_def split: if_splits)
    then show ?thesis using fin by (auto simp: ran_def intro!: Min_le)
  qed
  have "retry = max 1 (60000 - (script_now cmds r - ?oldest))"
    using assms(1) ne
    by (auto simp: redis_rate_script_def Let_def zfirst split: if_splits)
  with m' least show ?thesis by (intro conjI exI [of _ m] exI [of _ ?oldest]) auto
qed

end


subsection \<open>The contract of a rate-limit backend\<close>

lemma redis_room_step:
  assumes "redis_room zset b (Suc n)"
  shows "unat (rds_seq b + 1) = Suc (unat (rds_seq b))" "rds_seq b < rds_seq b + 1"
proof -
  have "unat (rds_seq b) + 1 < 2 ^ 64" using assms by (simp add: redis_room_def)
  then show "unat (rds_seq b + 1) = Suc (unat (rds_seq b))" by (simp add: unat_word_ariths)
  then show "rds_seq b < rds_seq b + 1" by (simp add: word_less_nat_alt)
qed

lemma redis_allow_parts:
  assumes "0 < limit" "redis_allow cmds b key limit now = (res, b')"
  obtains allowed retry r where
    "redis_rate_script cmds (rds_server b) (rds_prefix b @ key) limit
       (redis_member (rds_instance b) (rds_seq b + 1)) = ((allowed, retry), r)"
    "rds_prefix b' = rds_prefix b" "rds_instance b' = rds_instance b"
    "rds_seq b' = rds_seq b + 1"
    "rds_server b' = (if rds_link b = LinkDown then rds_server b else r)"
    "rds_link b = LinkUp \<Longrightarrow>
       res = (\<lparr>rd_allowed = (allowed = 1), rd_retry_after = wrap64 (retry * nanos_ms),
               rd_degraded = False\<rparr>, None)"
    "rds_link b \<noteq> LinkUp \<Longrightarrow> snd res \<noteq> None \<and> \<not> rd_allowed (fst res)"
  using assms that
  by (cases "redis_rate_script cmds (rds_server b) (rds_prefix b @ key) limit
       (redis_member (rds_instance b) (rds_seq b + 1))"; cases "rds_link b")
     (force simp: redis_allow_def Let_def no_decision_def)+

lemma redis_link_kept: "rds_link (snd (redis_allow cmds b k limit now)) = rds_link b"
  by (auto simp: redis_allow_def Let_def split: prod.split redis_link.split)

lemma redis_link_up: "rds_link b = LinkUp \<Longrightarrow> snd (fst (redis_allow cmds b k limit now)) = None"
  by (simp add: redis_allow_def Let_def split: prod.split)

sublocale redis_server \<subseteq> rl: rate_backend_if "redis_allow cmds" redis_retain
  "redis_used cmds zset" "redis_room zset"
proof unfold_locales
  fix limit b k now
  assume "limit \<le> (0 :: int)"
  then show "redis_allow cmds b k limit now = ((allowed_decision, None), b)"
    by (simp add: redis_allow_def)
next
  fix limit b k now d b'
  assume *: "0 < limit" "redis_allow cmds b k limit now = ((d, None), b')"
  obtain allowed retry r where
    "redis_rate_script cmds (rds_server b) (rds_prefix b @ k) limit
       (redis_member (rds_instance b) (rds_seq b + 1)) = ((allowed, retry), r)"
    "rd_allowed d \<longleftrightarrow> allowed = 1"
    by (rule redis_allow_parts [OF *]) (use * in \<open>fastforce\<close>)
  then show "rd_allowed d \<longleftrightarrow> int (redis_used cmds zset b k now) < limit"
    using script_spec by (simp add: redis_used_def)
next
  fix limit b k now d b' and n :: nat
  assume *: "0 < limit" "redis_room zset b (Suc n)" "redis_allow cmds b k limit now = ((d, None), b')"
  let ?m = "redis_member (rds_instance b) (rds_seq b + 1)"
  let ?key = "rds_prefix b @ k"
  obtain allowed retry r where
    run: "redis_rate_script cmds (rds_server b) ?key limit ?m = ((allowed, retry), r)"
    and d: "rd_allowed d \<longleftrightarrow> allowed = 1"
    and b': "rds_prefix b' = rds_prefix b" "rds_server b' = r"
    by (rule redis_allow_parts [OF *(1,3)]) (use *(3) in \<open>fastforce\<close>)
  have new: "?m \<notin> fresh_set (rds_server b) ?key"
    using *(2) redis_room_step(2) [OF *(2)] by (auto simp: redis_room_def)
  have same: "redis_used cmds zset b k now = card (fresh_set (rds_server b) ?key)"
    by (simp only: redis_used_def)
  have "redis_used cmds zset b' k now = card (fresh_set r ?key)"
    by (simp only: redis_used_def b')
  also have "fresh_set r ?key =
      fresh_set (rds_server b) ?key \<union> (if allowed = 1 then {?m} else {})"
    using script_spec [OF run] by blast
  also have "card \<dots> = card (fresh_set (rds_server b) ?key) + (if allowed = 1 then 1 else 0)"
    using card_insert_disjoint [OF fresh_finite new] by (cases "allowed = 1") simp_all
  finally show "redis_used cmds zset b' k now =
      redis_used cmds zset b k now + (if rd_allowed d then 1 else 0)"
    unfolding same d .
next
  fix b k limit now d err b' k' now'
  assume *: "redis_allow cmds b k limit now = ((d, err), b')" "k' \<noteq> k"
  show "redis_used cmds zset b' k' now' = redis_used cmds zset b k' now'"
  proof (cases "0 < limit")
    case True
    obtain allowed retry r where
      run: "redis_rate_script cmds (rds_server b) (rds_prefix b @ k) limit
         (redis_member (rds_instance b) (rds_seq b + 1)) = ((allowed, retry), r)"
      and b': "rds_prefix b' = rds_prefix b"
        "rds_server b' = (if rds_link b = LinkDown then rds_server b else r)"
      by (rule redis_allow_parts [OF True *(1)]) blast
    then show ?thesis using script_spec [OF run] *(2) by (simp add: redis_used_def)
  next
    case False
    with * show ?thesis by (simp add: redis_allow_def)
  qed
next
  fix b k limit now res b' and n :: nat
  assume *: "redis_room zset b (Suc n)" "redis_allow cmds b k limit now = (res, b')"
  show "redis_room zset b' n"
  proof (cases "0 < limit")
    case True
    obtain allowed retry r where
      run: "redis_rate_script cmds (rds_server b) (rds_prefix b @ k) limit
         (redis_member (rds_instance b) (rds_seq b + 1)) = ((allowed, retry), r)"
      and b': "rds_instance b' = rds_instance b" "rds_seq b' = rds_seq b + 1"
        "rds_server b' = (if rds_link b = LinkDown then rds_server b else r)"
      by (rule redis_allow_parts [OF True *(2)]) blast
    have "zset (rds_server b') k' (redis_member (rds_instance b) j) = None"
      if "rds_seq b + 1 < j" for k' j
    proof -
      have "rds_seq b < j" using that redis_room_step(2) [OF *(1)] by (rule order.strict_trans [rotated])
      then have "zset (rds_server b) k' (redis_member (rds_instance b) j) = None"
        using *(1) by (simp add: redis_room_def)
      then show ?thesis using script_zset [OF run, of "redis_member (rds_instance b) j" k'] that b'
        by (auto dest: redis_member_inj)
    qed
    then show ?thesis using *(1) b' redis_room_step(1) [OF *(1)] by (simp add: redis_room_def)
  next
    case False
    with * show ?thesis by (auto simp: redis_allow_def redis_room_def)
  qed
next
  fix b k limit now d e b'
  assume *: "redis_allow cmds b k limit now = ((d, Some e), b')"
  show "\<not> rd_allowed d"
  proof (cases "0 < limit")
    case True
    show ?thesis by (rule redis_allow_parts [OF True *]) (use * in \<open>fastforce\<close>)
  next
    case False
    with * show ?thesis by (simp add: redis_allow_def)
  qed
qed (simp_all add: redis_retain_def)

context redis_server
begin

lemma redis_burst:
  assumes "0 < limit" "redis_room zset (mgr_backend m) n" "rds_link (mgr_backend m) = LinkUp"
  shows "int (fst (burst (redis_allow cmds) sha256 token limit now n m)) =
    min (int n)
      (max 0 (limit - int (redis_used cmds zset (mgr_backend m) (rateLimitKey sha256 token) now)))"
  by (rule rl.burst_admits [OF assms(1,2), where healthy = "\<lambda>b. rds_link b = LinkUp"])
     (use assms(3) in \<open>simp_all add: redis_link_up redis_link_kept\<close>)

lemma redis_error:
  "manager_allow (redis_allow cmds) sha256 m token limit now = ((d, Some e), m') \<Longrightarrow>
   rd_degraded d \<and> (rd_allowed d \<longleftrightarrow> mgr_fail_open m)"
  by (rule rl.manager_error)

end


subsection \<open>A server that satisfies the documented behaviour\<close>

text \<open>
  Sorted sets as finite maps and a clock: the reference semantics of the commands, which
  shows that the assumptions of \<open>redis_server\<close> can hold together.
\<close>

record zserver =
  zs_clock :: "int \<times> int"
  zs_sets :: "string \<Rightarrow> (string, int) fmap"

definition zs_view :: "zserver \<Rightarrow> string \<Rightarrow> (string \<rightharpoonup> int)" where
  "zs_view r k = fmlookup (zs_sets r k)"

definition reference_cmds :: "zserver redis_cmds" where
  "reference_cmds =
     \<lparr>rc_time = zs_clock,
      rc_zremrangebyscore = (\<lambda>r k mx. r\<lparr>zs_sets := (zs_sets r)(k :=
          fmfilter (\<lambda>m. \<not> (\<exists>sc. fmlookup (zs_sets r k) m = Some sc \<and> sc \<le> mx)) (zs_sets r k))\<rparr>),
      rc_zcard = (\<lambda>r k. int (fcard (fmdom (zs_sets r k)))),
      rc_zfirst = (\<lambda>r k. if zs_sets r k = fmempty then None
                          else Some (Min (fset (fmran (zs_sets r k))))),
      rc_zadd = (\<lambda>r k sc m. r\<lparr>zs_sets := (zs_sets r)(k := fmupd m sc (zs_sets r k))\<rparr>),
      rc_pexpire = (\<lambda>r k ms. r)\<rparr>"

interpretation ref: redis_server reference_cmds zs_view
proof unfold_locales
  fix r k mx k'
  show "zs_view (rc_zremrangebyscore reference_cmds r k mx) k' =
      (if k' = k then zs_view r k |` {m. \<exists>sc. zs_view r k m = Some sc \<and> mx < sc} else zs_view r k')"
    by (auto simp: zs_view_def reference_cmds_def restrict_map_def fun_eq_iff not_le)
next
  fix r k
  show "rc_zcard reference_cmds r k = int (card (dom (zs_view r k)))"
    by (simp add: zs_view_def reference_cmds_def fcard.rep_eq fmdom.rep_eq)
next
  fix r k
  have "zs_sets r k = fmempty \<longleftrightarrow> dom (zs_view r k) = {}"
    by (metis zs_view_def fmempty_lookup fmap_ext dom_eq_empty_conv)
  moreover have "fset (fmran (zs_sets r k)) = ran (zs_view r k)"
    by (simp add: zs_view_def fmran.rep_eq)
  ultimately show "rc_zfirst reference_cmds r k =
      (if dom (zs_view r k) = {} then None else Some (Min (ran (zs_view r k))))"
    by (simp add: reference_cmds_def)
qed (auto simp: zs_view_def reference_cmds_def)


subsection \<open>Properties\<close>

definition empty_zserver :: zserver where
  "empty_zserver = \<lparr>zs_clock = (1700000000, 250000), zs_sets = (\<lambda>_. fmempty)\<rparr>"

definition fresh_backend :: "redis_link \<Rightarrow> zserver redis_backend" where
  "fresh_backend link = \<lparr>rds_server = empty_zserver, rds_link = link, rds_prefix = ''gemgate:rate:'',
     rds_instance = ''i'', rds_seq = 0, rds_mode = ''redis''\<rparr>"

text \<open>
  On a server that behaves as Redis documents, a burst of requests of one client that
  reaches the server is admitted exactly up to the part of the limit that the last minute of
  the server's clock leaves free, whichever replica recorded the earlier requests.
\<close>

theorem redis_burst_exact:
  assumes "redis_server cmds zset" and "0 < limit"
    and "redis_room zset (mgr_backend m) n" and "rds_link (mgr_backend m) = LinkUp"
  shows "int (fst (burst (redis_allow cmds) sha256 token limit now n m)) =
    min (int n)
      (max 0 (limit - int (redis_used cmds zset (mgr_backend m) (rateLimitKey sha256 token) now)))"
  using assms by (rule redis_server.redis_burst)

theorem redis_burst_exact_witness:
  "fst (burst (redis_allow reference_cmds) id ''t'' 2 7 3
     \<lparr>mgr_backend = fresh_backend LinkUp, mgr_fail_open = False\<rparr>) = 2"
  using redis_burst_exact [OF ref.redis_server_axioms, of 2
      "\<lparr>mgr_backend = fresh_backend LinkUp, mgr_fail_open = False\<rparr>" 3 id "''t''" 7]
  by (simp add: redis_room_def redis_used_def fresh_backend_def empty_zserver_def zs_view_def
      del: burst.simps)

text \<open>
  C31. The failure policy: when a call to the backend fails, before or after the script ran,
  the decision is marked degraded and the request passes exactly when the manager was
  configured to fail open. A reply that is lost still counts the request on the server.
\<close>

theorem redis_failure_policy:
  assumes "redis_server cmds zset" and "0 < limit" and "rds_link (mgr_backend m) \<noteq> LinkUp"
    and "manager_allow (redis_allow cmds) sha256 m token limit now = ((d, err), m')"
  shows "err \<noteq> None \<and> rd_degraded d \<and> (rd_allowed d \<longleftrightarrow> mgr_fail_open m)"
proof -
  obtain d0 e0 b where step: "redis_allow cmds (mgr_backend m) (rateLimitKey sha256 token) limit now
      = ((d0, e0), b)" by (metis prod.collapse)
  have "e0 \<noteq> None"
    by (rule redis_allow_parts [OF assms(2) step]) (use assms(3) in simp)
  then have "err \<noteq> None"
    using assms(2,4) step by (auto simp: manager_allow_def)
  then show ?thesis using redis_server.redis_error [OF assms(1)] assms(4) by blast
qed

theorem redis_failure_policy_witness:
  "(\<exists>d e m'. manager_allow (redis_allow reference_cmds) id
      \<lparr>mgr_backend = fresh_backend LinkDown, mgr_fail_open = True\<rparr> ''t'' 2 7 = ((d, e), m') \<and>
      e \<noteq> None \<and> rd_degraded d \<and> rd_allowed d)"
proof -
  let ?m = "\<lparr>mgr_backend = fresh_backend LinkDown, mgr_fail_open = True\<rparr>"
  obtain d e m' where r: "manager_allow (redis_allow reference_cmds) id ?m ''t'' 2 7 = ((d, e), m')"
    by (metis prod.collapse)
  then show ?thesis
    using redis_failure_policy [OF ref.redis_server_axioms _ _ r] by (auto simp: fresh_backend_def)
qed

text \<open>
  A reply is accepted only when it holds exactly two values that both read as 64-bit
  integers; then the request passes exactly when the first is 1. Any other reply is an
  error that refuses.
\<close>

theorem redis_reply_checked:
  "(case redis_decode result of
      (d, None) \<Rightarrow> (\<exists>a ms v w. result = [v, w] \<and> redisInt64 v = Inr a \<and> redisInt64 w = Inr ms \<and>
         (rd_allowed d \<longleftrightarrow> a = 1) \<and> rd_retry_after d = wrap64 (ms * nanos_ms))
    | (d, Some e) \<Rightarrow> \<not> rd_allowed d \<and>
        (length result < 2 \<or> 2 < length result \<or> (\<exists>v \<in> set result. redisInt64 v = Inl ())))"
proof (cases "length result = 2")
  case True
  then obtain v w where "result = [v, w]" by (auto simp: length_Suc_conv numeral_2_eq_2)
  then show ?thesis
    by (cases "redisInt64 v"; cases "redisInt64 w")
       (simp_all add: redis_decode_def no_decision_def)
next
  case False
  then show ?thesis by (auto simp: redis_decode_def no_decision_def)
qed

end
