(* ===== verification/Config_Types.thy ===== *)
theory Config_Types
  imports Complex_Main Go_Netip "HOL-Library.AList"
begin

section \<open>Configuration data (internal/config/config.go, telemetry.go)\<close>

text \<open>
  The structs of the configuration file and the validated \<open>Runtime\<close>. A \<open>*bool\<close> is a
  \<open>bool option\<close>, a \<open>map[string]string\<close> an association list. A \<open>float64\<close> ratio is a rational
  number, or \<open>None\<close> for NaN, for which every comparison is false.
\<close>

type_synonym ratio = "rat option"

definition ratio_less :: "ratio \<Rightarrow> ratio \<Rightarrow> bool" where
  "ratio_less a b = (case (a, b) of (Some x, Some y) \<Rightarrow> x < y | _ \<Rightarrow> False)"

definition ratio_le :: "ratio \<Rightarrow> ratio \<Rightarrow> bool" where
  "ratio_le a b = (case (a, b) of (Some x, Some y) \<Rightarrow> x \<le> y | _ \<Rightarrow> False)"

record cors_config =
  co_enabled :: "bool option"
  co_origins :: "string list"
  co_methods :: "string list"
  co_headers :: "string list"
  co_credentials :: bool
  co_max_age :: string

record circuit_config =
  cc_enabled :: "bool option"
  cc_threshold :: i64
  cc_open_for :: string

text \<open>\<open>CORSConfig.IsEnabled\<close> and \<open>CircuitBreakerConfig.IsEnabled\<close>.\<close>

definition cors_is_enabled :: "cors_config \<Rightarrow> bool" where
  "cors_is_enabled c = (case co_enabled c of None \<Rightarrow> True | Some b \<Rightarrow> b)"

definition circuit_is_enabled :: "circuit_config \<Rightarrow> bool" where
  "circuit_is_enabled c = (case cc_enabled c of None \<Rightarrow> True | Some b \<Rightarrow> b)"

record server_config =
  sv_listen :: string
  sv_read_timeout :: string
  sv_write_timeout :: string
  sv_idle_timeout :: string
  sv_public_health :: bool
  sv_body_limit :: string
  sv_trusted_proxies :: "string list"
  sv_cors :: cors_config

record operations_config =
  op_token :: string
  op_token_file :: string

record redis_config =
  rc_url :: string
  rc_url_file :: string
  rc_key_prefix :: string
  rc_timeout :: string
  rc_fail_open :: bool

record rate_limit_config =
  rl_backend :: string
  rl_redis :: redis_config

record upstream_config =
  up_base_url :: string
  up_api_key :: string
  up_api_key_file :: string
  up_timeout :: string

record provider_config =
  pc_name :: string
  pc_type :: string
  pc_base_url :: string
  pc_api_key :: string
  pc_api_key_file :: string
  pc_timeout :: string
  pc_headers :: "(string \<times> string) list"
  pc_circuit :: circuit_config

record client_config =
  cl_name :: string
  cl_token :: string
  cl_token_file :: string
  cl_enabled :: bool
  cl_rate_limit_rpm :: i64

record logging_config =
  lg_recent :: i64
  lg_log_body :: bool
  lg_log_headers :: bool

record telemetry_config =
  te_enabled :: bool
  te_service_name :: string
  te_endpoint :: string
  te_sample_ratio :: ratio
  te_environment :: string
  te_propagate :: bool

record config =
  cf_server :: server_config
  cf_upstream :: upstream_config
  cf_providers :: "provider_config list"
  cf_default_provider :: string
  cf_operations :: operations_config
  cf_clients :: "client_config list"
  cf_rate_limit :: rate_limit_config
  cf_telemetry :: telemetry_config
  cf_logging :: logging_config

record circuit_runtime =
  cr_enabled :: bool
  cr_threshold :: i64
  cr_open_for :: duration

record config_runtime =
  rt_config :: config
  rt_read_timeout :: duration
  rt_write_timeout :: duration
  rt_idle_timeout :: duration
  rt_upstream_timeout :: duration
  rt_provider_timeouts :: "(string \<times> duration) list"
  rt_provider_circuits :: "(string \<times> circuit_runtime) list"
  rt_trusted_proxies :: "ip_prefix list"
  rt_body_limit :: i64
  rt_cors_max_age :: duration
  rt_rate_limit_timeout :: duration

definition DefaultCircuitFailureThreshold :: i64 where "DefaultCircuitFailureThreshold = 5"
definition DefaultCircuitOpenFor :: duration where "DefaultCircuitOpenFor = 30 * nanos_second"
definition DefaultRateLimitBackend :: string where "DefaultRateLimitBackend = ''memory''"
definition DefaultRedisRateLimitPrefix :: string where
  "DefaultRedisRateLimitPrefix = ''gemgate:ratelimit:''"
definition DefaultRedisRateLimitTimeout :: duration where
  "DefaultRedisRateLimitTimeout = 2 * nanos_second"
definition DefaultTelemetryServiceName :: string where "DefaultTelemetryServiceName = ''gemgate''"
definition DefaultTelemetrySampleRatio :: ratio where "DefaultTelemetrySampleRatio = Some (1 / 10)"

end
