(* ===== verification/Rate_Limiter.thy ===== *)
theory Rate_Limiter
  imports Rate_Redis Config_Types Go_Url
begin

section \<open>The rate limiter of a gateway (ratelimit_backend.go, ratelimit_redis.go)\<close>

text \<open>
  The backend a configuration selects, as the sum of the two implementations of the Go
  interface, with the dispatch of every method. The client library's URL parser and
  connection are an argument, \<open>connect\<close>, that yields the initial state of the server as
  seen by this process (\<open>None\<close> when the URL is refused).
\<close>

datatype 'r limiter = MemoryLimiter memory_backend | RedisLimiter "'r redis_backend"

definition limiter_allow :: "'r redis_cmds \<Rightarrow> 'r limiter backend_allow" where
  "limiter_allow cmds b key limit now =
     (case b of
        MemoryLimiter m \<Rightarrow>
          (let (res, m') = memory_allow m key limit now in (res, MemoryLimiter m'))
      | RedisLimiter r \<Rightarrow>
          (let (res, r') = redis_allow cmds r key limit now in (res, RedisLimiter r')))"

definition limiter_retain :: "'r limiter \<Rightarrow> string set \<Rightarrow> 'r limiter" where
  "limiter_retain b keys =
     (case b of
        MemoryLimiter m \<Rightarrow> MemoryLimiter (memory_retain m keys)
      | RedisLimiter r \<Rightarrow> RedisLimiter (redis_retain r keys))"

definition limiter_name :: "'r limiter \<Rightarrow> string" where
  "limiter_name b = (case b of MemoryLimiter _ \<Rightarrow> ''memory'' | RedisLimiter _ \<Rightarrow> ''redis'')"

definition limiter_mode :: "'r limiter \<Rightarrow> string" where
  "limiter_mode b = (case b of MemoryLimiter _ \<Rightarrow> ''local'' | RedisLimiter r \<Rightarrow> rds_mode r)"


subsection \<open>The mode of a Redis URL\<close>

text \<open>\<open>URL.Query().Get(key)\<close>: the first well-formed pair with the key.\<close>

definition query_unescape :: "string \<Rightarrow> string option" where
  "query_unescape s =
     url_unescape EncodePath (map (\<lambda>c. if c = CHR ''+'' then CHR '' '' else c) s)"

definition query_pair :: "string \<Rightarrow> (string \<times> string) option" where
  "query_pair part =
     (if part = [] \<or> CHR '';'' \<in> set part then None
      else (case (query_unescape (fst (str_cut CHR ''='' part)),
                  query_unescape (snd (str_cut CHR ''='' part))) of
          (Some k, Some v) \<Rightarrow> Some (k, v) | _ \<Rightarrow> None))"

definition query_get :: "string \<Rightarrow> string \<Rightarrow> string" where
  "query_get q key =
     (case find (\<lambda>kv. fst kv = key) (List.map_filter query_pair (split_on CHR ''&'' q)) of
        None \<Rightarrow> [] | Some kv \<Rightarrow> snd kv)"

definition redisRateLimitMode :: "string \<Rightarrow> string" where
  "redisRateLimitMode redisURL =
     (case url_parse redisURL of
        None \<Rightarrow> ''invalid''
      | Some u \<Rightarrow>
          (if query_get (url_raw_query u) ''master_name'' \<noteq> '''' then ''sentinel'' else ''standalone''))"


subsection \<open>Construction\<close>

text \<open>
  \<open>newRedisRateLimitClient\<close> and \<open>newRedisRateLimitBackend\<close>: \<open>connect mode url timeout\<close> is
  the library's parser and client constructor.
\<close>

definition newRedisRateLimitBackend ::
  "(string \<Rightarrow> string \<Rightarrow> duration \<Rightarrow> ('r \<times> redis_link) option) \<Rightarrow> string \<Rightarrow> redis_config \<Rightarrow>
   duration \<Rightarrow> 'r redis_backend option" where
  "newRedisRateLimitBackend connect inst cfg timeout =
     (let mode = redisRateLimitMode (rc_url cfg) in
      if mode = ''invalid'' then None
      else (case connect mode (rc_url cfg) timeout of
          None \<Rightarrow> None
        | Some (server, link) \<Rightarrow>
            Some \<lparr>rds_server = server, rds_link = link, rds_prefix = rc_key_prefix cfg,
                  rds_instance = inst, rds_seq = 0, rds_mode = mode\<rparr>))"

datatype limiter_error = RedisBackend | UnsupportedBackend string

definition newRateLimitManager ::
  "(string \<Rightarrow> string \<Rightarrow> duration \<Rightarrow> ('r \<times> redis_link) option) \<Rightarrow> string \<Rightarrow> config_runtime \<Rightarrow>
   limiter_error + 'r limiter rate_limit_manager" where
  "newRateLimitManager connect inst rt =
     (let cfg = cf_rate_limit (rt_config rt) in
      bind_res
        (if rl_backend cfg = '''' \<or> rl_backend cfg = ''memory''
         then Inr (MemoryLimiter newMemoryRateLimitBackend)
         else if rl_backend cfg = ''redis'' then
           (case newRedisRateLimitBackend connect inst (rl_redis cfg) (rt_rate_limit_timeout rt) of
              None \<Rightarrow> Inl RedisBackend | Some r \<Rightarrow> Inr (RedisLimiter r))
         else Inl (UnsupportedBackend (rl_backend cfg)))
        (\<lambda>backend. Inr \<lparr>mgr_backend = backend, mgr_fail_open = rc_fail_open (rl_redis cfg)\<rparr>))"


subsection \<open>Either backend keeps the contract\<close>

definition limiter_used ::
  "'r redis_cmds \<Rightarrow> ('r \<Rightarrow> string \<Rightarrow> (string \<rightharpoonup> int)) \<Rightarrow> 'r limiter \<Rightarrow> string \<Rightarrow> gotime \<Rightarrow> nat" where
  "limiter_used cmds zset b key now =
     (case b of MemoryLimiter m \<Rightarrow> memory_used m key now | RedisLimiter r \<Rightarrow> redis_used cmds zset r key now)"

definition limiter_room :: "('r \<Rightarrow> string \<Rightarrow> (string \<rightharpoonup> int)) \<Rightarrow> 'r limiter \<Rightarrow> nat \<Rightarrow> bool" where
  "limiter_room zset b n = (case b of MemoryLimiter _ \<Rightarrow> True | RedisLimiter r \<Rightarrow> redis_room zset r n)"

lemma limiter_allow_simps [simp]:
  "limiter_allow cmds (MemoryLimiter m) key limit now = (res, b) \<longleftrightarrow>
     (\<exists>m'. memory_allow m key limit now = (res, m') \<and> b = MemoryLimiter m')"
  "limiter_allow cmds (RedisLimiter r) key limit now = (res, b) \<longleftrightarrow>
     (\<exists>r'. redis_allow cmds r key limit now = (res, r') \<and> b = RedisLimiter r')"
  by (auto simp: limiter_allow_def split: prod.split)

sublocale redis_server \<subseteq> lim: rate_backend_if "limiter_allow cmds" limiter_retain
  "limiter_used cmds zset" "limiter_room zset"
proof unfold_locales
  fix limit b k now
  assume "limit \<le> (0 :: int)"
  then show "limiter_allow cmds b k limit now = ((allowed_decision, None), b)"
    by (cases b) (simp_all add: mem.unlimited rl.unlimited)
next
  fix limit b k now d b'
  assume "(0 :: int) < limit" "limiter_allow cmds b k limit now = ((d, None), b')"
  then show "rd_allowed d \<longleftrightarrow> int (limiter_used cmds zset b k now) < limit"
    by (cases b) (auto simp: limiter_used_def dest: mem.allow_iff rl.allow_iff)
next
  fix limit b k now d b' and n :: nat
  assume "(0 :: int) < limit" "limiter_room zset b (Suc n)"
    "limiter_allow cmds b k limit now = ((d, None), b')"
  then show "limiter_used cmds zset b' k now = limiter_used cmds zset b k now + (if rd_allowed d then 1 else 0)"
    by (cases b) (auto simp: limiter_used_def limiter_room_def dest: mem.used_same rl.used_same)
next
  fix b k limit now d err b' k' now'
  assume "limiter_allow cmds b k limit now = ((d, err), b')" "k' \<noteq> k"
  then show "limiter_used cmds zset b' k' now' = limiter_used cmds zset b k' now'"
    by (cases b) (auto simp: limiter_used_def dest: mem.used_other rl.used_other)
next
  fix b k limit now r b' and n :: nat
  assume "limiter_room zset b (Suc n)" "limiter_allow cmds b k limit now = (r, b')"
  then show "limiter_room zset b' n"
    by (cases b) (auto simp: limiter_room_def dest: rl.room_step)
next
  fix b k limit now d e b'
  assume "limiter_allow cmds b k limit now = ((d, Some e), b')"
  then show "\<not> rd_allowed d"
    by (cases b) (auto dest: mem.error_refuses rl.error_refuses)
next
  fix b :: "'r limiter" and k now and ks :: "string set"
  assume "k \<in> ks"
  then show "limiter_used cmds zset (limiter_retain b ks) k now = limiter_used cmds zset b k now"
    by (cases b) (simp_all add: limiter_used_def limiter_retain_def mem.retain_kept rl.retain_kept)
next
  fix b :: "'r limiter" and ks :: "string set" and n :: nat
  assume "limiter_room zset b n"
  then show "limiter_room zset (limiter_retain b ks) n"
    by (cases b) (simp_all add: limiter_room_def limiter_retain_def rl.retain_room)
qed

end
