(* ===== verification/Log_Ring.thy ===== *)
theory Log_Ring
  imports Go_Prelude Go_Strings
begin

section \<open>The request log (internal/gateway/logring.go)\<close>

text \<open>
  A bounded log of request entries that the gateway appends to and the terminal UI reads.
  \<open>logring_add\<close> shifts the slice in place when it is full, as the code does; the abstract
  content is \<open>last_n limit\<close> of everything ever added. The interface the gateway relies on
  is the locale \<open>log_sink\<close>.
\<close>

record log_entry =
  le_time :: gotime
  le_level :: string
  le_client :: string
  le_client_ip :: string
  le_provider :: string
  le_method :: string
  le_path :: string
  le_status :: int
  le_bytes :: i64
  le_duration :: duration
  le_request_id :: string
  le_message :: string

record log_ring =
  lr_entries :: "log_entry list"
  lr_limit :: int

definition newLogRing :: "int \<Rightarrow> log_ring" where
  "newLogRing limit =
     (let limit = (if limit \<le> 0 then 300 else limit) in \<lparr>lr_entries = [], lr_limit = limit\<rparr>)"

text \<open>The entry as it is stored: \<open>clock\<close> is what \<open>time.Now()\<close> returns.\<close>

definition stamp_entry :: "gotime \<Rightarrow> log_entry \<Rightarrow> log_entry" where
  "stamp_entry clock e =
     (let e = (if le_time e = zero_time then e\<lparr>le_time := clock\<rparr> else e)
      in if le_level e = '''' then e\<lparr>le_level := ''info''\<rparr> else e)"

definition logring_add :: "gotime \<Rightarrow> log_entry \<Rightarrow> log_ring \<Rightarrow> log_ring" where
  "logring_add clock e r =
     (let e = stamp_entry clock e in
      if lr_limit r \<le> int (length (lr_entries r)) then
        (let shifted = go_copy (lr_entries r) (drop 1 (lr_entries r))
         in r\<lparr>lr_entries := shifted[length shifted - 1 := e]\<rparr>)
      else r\<lparr>lr_entries := lr_entries r @ [e]\<rparr>)"

definition logring_resize :: "int \<Rightarrow> log_ring \<Rightarrow> log_ring" where
  "logring_resize limit r =
     (let limit = (if limit \<le> 0 then 300 else limit) in
      if limit = lr_limit r then r
      else if limit < int (length (lr_entries r)) then
        (let start = length (lr_entries r) - nat limit;
             trimmed = go_copy (replicate (nat limit) undefined) (drop start (lr_entries r))
         in r\<lparr>lr_entries := trimmed, lr_limit := limit\<rparr>)
      else
        (let resized = go_copy (replicate (length (lr_entries r)) undefined) (lr_entries r)
         in r\<lparr>lr_entries := resized, lr_limit := limit\<rparr>))"

definition logring_snapshot :: "log_ring \<Rightarrow> log_entry list" where
  "logring_snapshot r =
     go_copy (replicate (length (lr_entries r)) undefined) (lr_entries r)"

definition logring_wf :: "log_ring \<Rightarrow> bool" where
  "logring_wf r \<longleftrightarrow> 1 \<le> lr_limit r \<and> int (length (lr_entries r)) \<le> lr_limit r"

definition logring_cap :: "log_ring \<Rightarrow> nat" where
  "logring_cap r = nat (lr_limit r)"


subsection \<open>Rendering one entry\<close>

text \<open>
  \<open>fmt.Sprintf\<close>'s \<open>%-ns\<close> and \<open>%ns\<close> pad to \<open>n\<close> runes; a rune starts at every byte that is
  not a continuation byte (the entries hold valid UTF-8). The wall clock rendering
  \<open>Time.Format\<close> and \<open>Duration.String\<close> are arguments.
\<close>

definition rune_count :: "string \<Rightarrow> nat" where
  "rune_count s = length (filter (\<lambda>c. \<not> (128 \<le> byte c \<and> byte c < 192)) s)"

definition pad_right :: "nat \<Rightarrow> string \<Rightarrow> string" where
  "pad_right n s = s @ replicate (n - rune_count s) CHR '' ''"

definition pad_left :: "nat \<Rightarrow> string \<Rightarrow> string" where
  "pad_left n s = replicate (n - rune_count s) CHR '' '' @ s"

definition or_dash :: "string \<Rightarrow> string" where
  "or_dash s = (let s = trim_space s in if s = '''' then ''-'' else s)"

definition log_line :: "(gotime \<Rightarrow> string) \<Rightarrow> (duration \<Rightarrow> string) \<Rightarrow> log_entry \<Rightarrow> string" where
  "log_line format_time duration_string e =
     (let msg = trim_space (le_message e);
          msg = (if msg = '''' then le_method e @ '' '' @ le_path e else msg);
          provider = or_dash (le_provider e);
          clientIP = or_dash (le_client_ip e)
      in format_time (le_time e) @ '' '' @ pad_right 5 (to_upper (le_level e)) @ '' ''
         @ pad_right 10 (le_client e) @ '' '' @ pad_right 15 clientIP @ '' ''
         @ pad_right 10 provider @ '' '' @ pad_left 3 (itoa (le_status e)) @ '' ''
         @ pad_left 7 (duration_string (duration_round (le_duration e) nanos_ms)) @ '' ''
         @ le_request_id e @ '' '' @ msg)"


subsection \<open>The interface\<close>

locale log_sink =
  fixes ok :: "'s \<Rightarrow> bool"
    and add :: "gotime \<Rightarrow> log_entry \<Rightarrow> 's \<Rightarrow> 's"
    and resize :: "int \<Rightarrow> 's \<Rightarrow> 's"
    and content :: "'s \<Rightarrow> log_entry list"
    and cap :: "'s \<Rightarrow> nat"
  assumes cap_pos: "ok s \<Longrightarrow> 0 < cap s"
    and content_cap: "ok s \<Longrightarrow> length (content s) \<le> cap s"
    and add_ok: "ok s \<Longrightarrow> ok (add t e s)"
    and add_cap: "ok s \<Longrightarrow> cap (add t e s) = cap s"
    and add_content: "ok s \<Longrightarrow>
        content (add t e s) = last_n (cap s) (content s @ [stamp_entry t e])"
    and resize_ok: "ok s \<Longrightarrow> ok (resize n s)"
    and resize_cap: "ok s \<Longrightarrow> cap (resize n s) = (if n \<le> 0 then 300 else nat n)"
    and resize_content: "ok s \<Longrightarrow>
        content (resize n s) = last_n (if n \<le> 0 then 300 else nat n) (content s)"
begin

lemma adds_content:
  assumes "ok s"
  shows "ok (foldl (\<lambda>s (t, e). add t e s) s es) \<and>
    cap (foldl (\<lambda>s (t, e). add t e s) s es) = cap s \<and>
    content (foldl (\<lambda>s (t, e). add t e s) s es) =
      last_n (cap s) (content s @ map (\<lambda>(t, e). stamp_entry t e) es)"
  using assms
proof (induction es arbitrary: s)
  case Nil
  then show ?case using content_cap by simp
next
  case (Cons p es)
  obtain t e where p: "p = (t, e)" by (cases p)
  let ?x = "stamp_entry t e" and ?rest = "map (\<lambda>(t, e). stamp_entry t e) es"
  have "last_n (cap s) (last_n (cap s) (content s @ [?x]) @ ?rest)
      = last_n (cap s) (content s @ ?x # ?rest)"
    using last_n_append_last_n [of "cap s" "content s @ [?x]" ?rest] by simp
  with Cons.IH [OF add_ok [OF Cons.prems], of t e] p show ?case
    by (simp add: add_cap [OF Cons.prems] add_content [OF Cons.prems])
qed

text \<open>Shrinking and growing again loses what did not fit in between, and nothing else.\<close>

lemma resize_twice:
  assumes "ok s" "0 < n" "0 < m"
  shows "content (resize m (resize n s)) = last_n (min (nat m) (nat n)) (content s)"
  using assms by (simp add: resize_content resize_ok last_n_last_n)

end


subsection \<open>The log is a log sink\<close>

lemma go_copy_fresh [simp]: "length xs = n \<Longrightarrow> go_copy (replicate n z) xs = xs"
  by (simp add: go_copy_def)

lemma logring_snapshot_entries [simp]: "logring_snapshot r = lr_entries r"
  by (simp add: logring_snapshot_def)

lemma shift_snoc:
  "xs \<noteq> [] \<Longrightarrow> (go_copy xs (drop 1 xs))[length xs - 1 := e] = tl xs @ [e]"
proof (cases xs)
  case (Cons a ys)
  have "length (drop (length ys) (a # ys)) = 1" by simp
  then obtain z where "drop (length ys) (a # ys) = [z]"
    by (cases "drop (length ys) (a # ys)") (simp, force)
  with Cons show ?thesis by (simp add: go_copy_def list_update_append)
qed simp

lemma logring_add_entries:
  assumes "logring_wf r"
  shows "lr_entries (logring_add t e r) =
      last_n (logring_cap r) (lr_entries r @ [stamp_entry t e])"
    and "lr_limit (logring_add t e r) = lr_limit r"
proof -
  show "lr_limit (logring_add t e r) = lr_limit r" by (simp add: logring_add_def Let_def)
  have wf: "1 \<le> lr_limit r" "int (length (lr_entries r)) \<le> lr_limit r"
    using assms by (simp_all add: logring_wf_def)
  show "lr_entries (logring_add t e r) =
      last_n (logring_cap r) (lr_entries r @ [stamp_entry t e])"
  proof (cases "lr_limit r \<le> int (length (lr_entries r))")
    case True
    with wf have "lr_entries r \<noteq> []" "logring_cap r = length (lr_entries r)"
      by (auto simp: logring_cap_def)
    with True shift_snoc [of "lr_entries r" "stamp_entry t e"] show ?thesis
      by (simp add: logring_add_def Let_def last_n_def drop_Suc flip: length_greater_0_conv)
  next
    case False
    with wf show ?thesis by (simp add: logring_add_def Let_def logring_cap_def)
  qed
qed

lemma logring_resize_entries:
  "logring_wf r \<Longrightarrow>
   lr_entries (logring_resize n r) = last_n (if n \<le> 0 then 300 else nat n) (lr_entries r)"
  "lr_limit (logring_resize n r) = (if n \<le> 0 then 300 else n)"
  by (auto simp: logring_resize_def Let_def logring_wf_def last_n_def)

interpretation ring: log_sink logring_wf logring_add logring_resize logring_snapshot logring_cap
proof unfold_locales
  fix s t e assume "logring_wf s"
  then show "logring_wf (logring_add t e s)"
    using logring_add_entries [of s t e] by (auto simp: logring_wf_def logring_cap_def)
next
  fix s n assume "logring_wf s"
  then show "logring_wf (logring_resize n s)"
    using logring_resize_entries [where r = s and n = n] by (auto simp: logring_wf_def)
qed (auto simp: logring_wf_def logring_cap_def logring_add_entries logring_resize_entries)

lemma newLogRing_wf: "logring_wf (newLogRing n)"
  by (simp add: newLogRing_def logring_wf_def)


subsection \<open>Properties\<close>

text \<open>
  The log refines \<open>the newest entries of the history\<close>: whatever is added to a new log of
  any size, its snapshot is the stamped history cut to the last \<open>limit\<close> entries, in order,
  and every stored entry has a level and a time.
\<close>

theorem log_ring_history:
  "logring_snapshot (foldl (\<lambda>r (t, e). logring_add t e r) (newLogRing limit) es) =
     last_n (if limit \<le> 0 then 300 else nat limit) (map (\<lambda>(t, e). stamp_entry t e) es)"
  using ring.adds_content [OF newLogRing_wf, of limit es]
  by (simp add: newLogRing_def logring_cap_def)

text \<open>
  Resizing a log keeps its newest entries: after shrinking to \<open>n\<close> and growing to \<open>m\<close> the
  snapshot is the last \<open>min m n\<close> entries of what was there, and the log stays well formed.
\<close>

theorem log_ring_resize:
  assumes "logring_wf r" and "0 < n" and "0 < m"
  shows "logring_snapshot (logring_resize m (logring_resize n r)) =
      last_n (min (nat m) (nat n)) (logring_snapshot r) \<and>
    logring_wf (logring_resize m (logring_resize n r))"
  using ring.resize_twice [OF assms] ring.resize_ok [OF ring.resize_ok [OF assms(1)]] by blast

definition sample_entry :: "int \<Rightarrow> log_entry" where
  "sample_entry st = \<lparr>le_time = 5, le_level = ''info'', le_client = ''c'', le_client_ip = '''',
     le_provider = ''p'', le_method = ''GET'', le_path = ''/'', le_status = st, le_bytes = 0,
     le_duration = 0, le_request_id = ''r'', le_message = ''m''\<rparr>"

theorem log_ring_resize_witness:
  "logring_wf \<lparr>lr_entries = [sample_entry 200, sample_entry 404], lr_limit = 2\<rparr> \<and>
   map le_status (logring_snapshot (logring_resize 5 (logring_resize 1
     \<lparr>lr_entries = [sample_entry 200, sample_entry 404], lr_limit = 2\<rparr>))) = [404]"
proof -
  let ?r = "\<lparr>lr_entries = [sample_entry 200, sample_entry 404], lr_limit = 2\<rparr>"
  have "logring_wf ?r" by (simp add: logring_wf_def)
  with log_ring_resize [of ?r 1 5] show ?thesis by (simp add: last_n_def sample_entry_def)
qed

end
