(* ===== verification/Gw_Metrics.thy ===== *)
theory Gw_Metrics
  imports Circuit_Breaker Go_Strings "HOL-Library.Word" "HOL-Library.AList"
    "HOL-Library.Char_ord" "HOL-Library.List_Lexorder"
begin

section \<open>Metrics (internal/gateway/metrics.go)\<close>

text \<open>
  The counters are \<open>uint64\<close> and wrap, as \<^typ>\<open>64 word\<close> does; \<open>inFlight\<close> is an \<open>int64\<close>. The map of
  providers is an association list keyed by name. The atomic loads of a snapshot are read
  together here: the model has no interleaving inside \<open>Snapshot\<close>.
\<close>


subsection \<open>State\<close>

record provider_metrics =
  pm_requests :: "64 word"
  pm_requests2xx :: "64 word"
  pm_requests4xx :: "64 word"
  pm_requests5xx :: "64 word"
  pm_transport_errors :: "64 word"
  pm_in_flight :: i64
  pm_duration :: duration
  pm_last_duration :: duration
  pm_last_status :: int
  pm_last_request :: gotime
  pm_consecutive_failures :: "64 word"

record metrics =
  mt_started_at :: gotime
  mt_requests :: "64 word"
  mt_requests2xx :: "64 word"
  mt_requests4xx :: "64 word"
  mt_requests5xx :: "64 word"
  mt_bytes_in :: "64 word"
  mt_bytes_out :: "64 word"
  mt_in_flight :: i64
  mt_upstream_errors :: "64 word"
  mt_auth_failures :: "64 word"
  mt_rate_limited :: "64 word"
  mt_rate_limit_backend_errors :: "64 word"
  mt_providers :: "(string \<times> provider_metrics) list"

record provider_metrics_snapshot =
  ps_name :: string
  ps_requests :: "64 word"
  ps_requests2xx :: "64 word"
  ps_requests4xx :: "64 word"
  ps_requests5xx :: "64 word"
  ps_transport_errors :: "64 word"
  ps_in_flight :: i64
  ps_total_duration :: duration
  ps_average_duration :: duration
  ps_last_duration :: duration
  ps_last_status :: int
  ps_last_request :: gotime
  ps_consecutive_failures :: "64 word"
  ps_health :: string

record metrics_snapshot =
  ms_started_at :: gotime
  ms_uptime :: duration
  ms_requests :: "64 word"
  ms_requests2xx :: "64 word"
  ms_requests4xx :: "64 word"
  ms_requests5xx :: "64 word"
  ms_bytes_in :: "64 word"
  ms_bytes_out :: "64 word"
  ms_in_flight :: i64
  ms_upstream_errors :: "64 word"
  ms_auth_failures :: "64 word"
  ms_rate_limited :: "64 word"
  ms_rate_limit_backend_errors :: "64 word"
  ms_providers :: "provider_metrics_snapshot list"
  ms_circuits :: "circuit_snapshot list"

definition zero_provider_metrics :: provider_metrics where
  "zero_provider_metrics =
     \<lparr>pm_requests = 0, pm_requests2xx = 0, pm_requests4xx = 0, pm_requests5xx = 0,
      pm_transport_errors = 0, pm_in_flight = 0, pm_duration = 0, pm_last_duration = 0,
      pm_last_status = 0, pm_last_request = zero_time, pm_consecutive_failures = 0\<rparr>"

definition newMetrics :: "gotime \<Rightarrow> metrics" where
  "newMetrics clock =
     \<lparr>mt_started_at = clock, mt_requests = 0, mt_requests2xx = 0, mt_requests4xx = 0,
      mt_requests5xx = 0, mt_bytes_in = 0, mt_bytes_out = 0, mt_in_flight = 0,
      mt_upstream_errors = 0, mt_auth_failures = 0, mt_rate_limited = 0,
      mt_rate_limit_backend_errors = 0, mt_providers = []\<rparr>"


subsection \<open>Recording\<close>

definition recordStatus :: "int \<Rightarrow> metrics \<Rightarrow> metrics" where
  "recordStatus status m =
     (let m = m\<lparr>mt_requests := mt_requests m + 1\<rparr> in
      if 200 \<le> status \<and> status < 300 then m\<lparr>mt_requests2xx := mt_requests2xx m + 1\<rparr>
      else if 400 \<le> status \<and> status < 500 then m\<lparr>mt_requests4xx := mt_requests4xx m + 1\<rparr>
      else if 500 \<le> status then m\<lparr>mt_requests5xx := mt_requests5xx m + 1\<rparr>
      else m)"

text \<open>\<open>provider(name)\<close>: the entry of a name, created when it is missing.\<close>

definition metrics_provider :: "string \<Rightarrow> metrics \<Rightarrow> provider_metrics \<times> metrics" where
  "metrics_provider name m =
     (case map_of (mt_providers m) name of
        Some p \<Rightarrow> (p, m)
      | None \<Rightarrow> (zero_provider_metrics,
          m\<lparr>mt_providers := AList.update name zero_provider_metrics (mt_providers m)\<rparr>))"

definition put_provider :: "string \<Rightarrow> provider_metrics \<Rightarrow> metrics \<Rightarrow> metrics" where
  "put_provider name p m = m\<lparr>mt_providers := AList.update name p (mt_providers m)\<rparr>"

definition providerBegin :: "string \<Rightarrow> metrics \<Rightarrow> metrics" where
  "providerBegin name m =
     (if trim_space name = '''' then m
      else (let (p, m) = metrics_provider name m
            in put_provider name (p\<lparr>pm_in_flight := wrap64 (pm_in_flight p + 1)\<rparr>) m))"

definition finish_provider ::
  "int \<Rightarrow> duration \<Rightarrow> bool \<Rightarrow> gotime \<Rightarrow> provider_metrics \<Rightarrow> provider_metrics" where
  "finish_provider status dur transportError clock p =
     (let p = (if 0 < pm_in_flight p then p\<lparr>pm_in_flight := wrap64 (pm_in_flight p - 1)\<rparr> else p);
          p = p\<lparr>pm_requests := pm_requests p + 1,
                pm_duration := wrap64 (pm_duration p + dur),
                pm_last_duration := dur, pm_last_status := status, pm_last_request := clock\<rparr>;
          p = (if 200 \<le> status \<and> status < 300 then p\<lparr>pm_requests2xx := pm_requests2xx p + 1\<rparr>
               else if 400 \<le> status \<and> status < 500
               then p\<lparr>pm_requests4xx := pm_requests4xx p + 1\<rparr>
               else if 500 \<le> status then p\<lparr>pm_requests5xx := pm_requests5xx p + 1\<rparr>
               else p);
          p = (if transportError then p\<lparr>pm_transport_errors := pm_transport_errors p + 1\<rparr> else p)
      in if transportError \<or> 500 \<le> status
         then p\<lparr>pm_consecutive_failures := pm_consecutive_failures p + 1\<rparr>
         else p\<lparr>pm_consecutive_failures := 0\<rparr>)"

definition providerFinish ::
  "string \<Rightarrow> int \<Rightarrow> duration \<Rightarrow> bool \<Rightarrow> gotime \<Rightarrow> metrics \<Rightarrow> metrics" where
  "providerFinish name status dur transportError clock m =
     (if trim_space name = '''' then m
      else (let (p, m) = metrics_provider name m
            in put_provider name (finish_provider status dur transportError clock p) m))"


subsection \<open>Snapshots\<close>

definition providerHealth :: "provider_metrics_snapshot \<Rightarrow> string" where
  "providerHealth s =
     (if ps_requests s = 0 then ''unknown''
      else if 3 \<le> ps_consecutive_failures s then ''degraded''
      else if 0 < ps_consecutive_failures s then ''warning''
      else ''healthy'')"

definition provider_snapshot :: "string \<Rightarrow> provider_metrics \<Rightarrow> provider_metrics_snapshot" where
  "provider_snapshot name p =
     (let s = \<lparr>ps_name = name, ps_requests = pm_requests p, ps_requests2xx = pm_requests2xx p,
               ps_requests4xx = pm_requests4xx p, ps_requests5xx = pm_requests5xx p,
               ps_transport_errors = pm_transport_errors p, ps_in_flight = pm_in_flight p,
               ps_total_duration = pm_duration p, ps_average_duration = 0,
               ps_last_duration = pm_last_duration p, ps_last_status = pm_last_status p,
               ps_last_request = pm_last_request p,
               ps_consecutive_failures = pm_consecutive_failures p, ps_health = ''''\<rparr>;
          s = (if 0 < pm_requests p
               then s\<lparr>ps_average_duration := wrap64 (pm_duration p sdiv sint (pm_requests p))\<rparr>
               else s)
      in s\<lparr>ps_health := providerHealth s\<rparr>)"

lemma provider_snapshot_name [simp]: "ps_name (provider_snapshot name p) = name"
  by (simp add: provider_snapshot_def Let_def)

definition providerSnapshots :: "metrics \<Rightarrow> provider_metrics_snapshot list" where
  "providerSnapshots m =
     (let names = sort (map fst (mt_providers m))
      in map (\<lambda>name. provider_snapshot name (the (map_of (mt_providers m) name))) names)"

definition metrics_snapshot :: "gotime \<Rightarrow> metrics \<Rightarrow> metrics_snapshot" where
  "metrics_snapshot clock m =
     \<lparr>ms_started_at = mt_started_at m, ms_uptime = time_sub clock (mt_started_at m),
      ms_requests = mt_requests m, ms_requests2xx = mt_requests2xx m,
      ms_requests4xx = mt_requests4xx m, ms_requests5xx = mt_requests5xx m,
      ms_bytes_in = mt_bytes_in m, ms_bytes_out = mt_bytes_out m,
      ms_in_flight = mt_in_flight m, ms_upstream_errors = mt_upstream_errors m,
      ms_auth_failures = mt_auth_failures m, ms_rate_limited = mt_rate_limited m,
      ms_rate_limit_backend_errors = mt_rate_limit_backend_errors m,
      ms_providers = providerSnapshots m, ms_circuits = []\<rparr>"

subsection \<open>The Prometheus text\<close>

text \<open>
  \<open>fixed n d\<close> stands for \<open>d.Seconds()\<close> printed with \<open>n\<close> decimals (a \<open>float64\<close>); every other
  character of the text is written out. \<open>nl\<close>, \<open>dq\<close> and \<open>bs\<close> are the newline, the double
  quote and the backslash.
\<close>

abbreviation nl :: char where "nl \<equiv> CHR 0x0A"
abbreviation dq :: char where "dq \<equiv> CHR 0x22"
abbreviation bs :: char where "bs \<equiv> CHR 0x5C"

definition escape_label_char :: "char \<Rightarrow> string" where
  "escape_label_char c =
     (if c = bs then [bs, bs] else if c = nl then [bs, CHR ''n''] else if c = dq then [bs, dq]
      else [c])"

definition prometheusLabel :: "string \<Rightarrow> string" where
  "prometheusLabel s = concat (map escape_label_char s)"

definition maxDurationZero :: "duration \<Rightarrow> duration" where
  "maxDurationZero d = (if d < 0 then 0 else d)"

definition prom_head :: "string \<Rightarrow> string \<Rightarrow> string \<Rightarrow> string" where
  "prom_head name help kind =
     ''# HELP '' @ name @ '' '' @ help @ [nl] @ ''# TYPE '' @ name @ '' '' @ kind @ [nl]"

definition prom_sample :: "string \<Rightarrow> (string \<times> string) list \<Rightarrow> string \<Rightarrow> string" where
  "prom_sample name labels val =
     name @ (if labels = [] then ''''
             else ''{'' @ join_with '','' (map (\<lambda>(k, v). k @ ''='' @ [dq] @ v @ [dq]) labels) @ ''}'')
     @ '' '' @ val @ [nl]"

definition prom_scalar :: "string \<Rightarrow> string \<Rightarrow> string \<Rightarrow> int \<Rightarrow> string" where
  "prom_scalar name help kind v = prom_head name help kind @ prom_sample name [] (itoa v)"

definition prom_provider ::
  "(nat \<Rightarrow> duration \<Rightarrow> string) \<Rightarrow> provider_metrics_snapshot \<Rightarrow> string" where
  "prom_provider fixed p =
     (let provider = (''provider'', prometheusLabel (ps_name p)) in
      prom_sample ''gemgate_provider_requests_total'' [provider, (''status_class'', ''2xx'')]
        (itoa (uint (ps_requests2xx p)))
      @ prom_sample ''gemgate_provider_requests_total'' [provider, (''status_class'', ''4xx'')]
        (itoa (uint (ps_requests4xx p)))
      @ prom_sample ''gemgate_provider_requests_total'' [provider, (''status_class'', ''5xx'')]
        (itoa (uint (ps_requests5xx p)))
      @ prom_sample ''gemgate_provider_requests_total''
        [provider, (''status_class'', ''transport_error'')] (itoa (uint (ps_transport_errors p)))
      @ prom_sample ''gemgate_provider_inflight'' [provider] (itoa (ps_in_flight p))
      @ prom_sample ''gemgate_provider_transport_errors_total'' [provider]
        (itoa (uint (ps_transport_errors p)))
      @ prom_sample ''gemgate_provider_request_duration_seconds_sum'' [provider]
        (fixed 6 (ps_total_duration p))
      @ prom_sample ''gemgate_provider_request_duration_seconds_count'' [provider]
        (itoa (uint (ps_requests p)))
      @ prom_sample ''gemgate_provider_consecutive_failures'' [provider]
        (itoa (uint (ps_consecutive_failures p))))"

definition prom_circuit :: "(nat \<Rightarrow> duration \<Rightarrow> string) \<Rightarrow> circuit_snapshot \<Rightarrow> string" where
  "prom_circuit fixed c =
     (let provider = (''provider'', prometheusLabel (cs_provider c));
          state = (''state'', prometheusLabel (cs_state c)) in
      prom_sample ''gemgate_provider_circuit_state'' [provider, state] ''1''
      @ prom_sample ''gemgate_provider_circuit_retry_after_seconds'' [provider]
        (fixed 3 (maxDurationZero (cs_retry_after c))))"

definition prom_totals :: "metrics_snapshot \<Rightarrow> string" where
  "prom_totals s =
     prom_scalar ''gemgate_requests_total'' ''Total proxied requests.'' ''counter''
       (uint (ms_requests s))
     @ prom_scalar ''gemgate_requests_2xx_total'' ''Total upstream 2xx responses.'' ''counter''
       (uint (ms_requests2xx s))
     @ prom_scalar ''gemgate_requests_4xx_total'' ''Total upstream/client 4xx responses.''
       ''counter'' (uint (ms_requests4xx s))
     @ prom_scalar ''gemgate_requests_5xx_total'' ''Total upstream/proxy 5xx responses.''
       ''counter'' (uint (ms_requests5xx s))
     @ prom_scalar ''gemgate_inflight'' ''Current in-flight requests.'' ''gauge'' (ms_in_flight s)
     @ prom_scalar ''gemgate_bytes_in_total'' ''Request bytes received.'' ''counter''
       (uint (ms_bytes_in s))
     @ prom_scalar ''gemgate_bytes_out_total'' ''Response bytes sent.'' ''counter''
       (uint (ms_bytes_out s))
     @ prom_scalar ''gemgate_auth_failures_total'' ''Authentication failures.'' ''counter''
       (uint (ms_auth_failures s))
     @ prom_scalar ''gemgate_rate_limited_total''
       ''Requests rejected by per-client rate limits.'' ''counter'' (uint (ms_rate_limited s))
     @ prom_scalar ''gemgate_rate_limit_backend_errors_total''
       ''Rate-limit backend operation errors.'' ''counter''
       (uint (ms_rate_limit_backend_errors s))
     @ prom_scalar ''gemgate_upstream_errors_total'' ''Upstream transport/proxy errors.''
       ''counter'' (uint (ms_upstream_errors s))"

definition prometheus :: "(nat \<Rightarrow> duration \<Rightarrow> string) \<Rightarrow> metrics_snapshot \<Rightarrow> string" where
  "prometheus fixed s =
     prom_totals s
     @ (if ms_providers s = [] then ''''
        else
          prom_head ''gemgate_provider_requests_total''
            ''Completed provider requests by response class.'' ''counter''
          @ prom_head ''gemgate_provider_inflight''
            ''Current in-flight requests by provider.'' ''gauge''
          @ prom_head ''gemgate_provider_transport_errors_total''
            ''Provider transport failures.'' ''counter''
          @ prom_head ''gemgate_provider_request_duration_seconds''
            ''Provider request duration including streamed response body.'' ''summary''
          @ prom_head ''gemgate_provider_consecutive_failures''
            ''Consecutive provider transport/5xx failures.'' ''gauge''
          @ concat (map (prom_provider fixed) (ms_providers s)))
     @ (if ms_circuits s = [] then ''''
        else
          prom_head ''gemgate_provider_circuit_state''
            ''Current circuit-breaker state; exactly one state series per provider has value 1.''
            ''gauge''
          @ prom_head ''gemgate_provider_circuit_retry_after_seconds''
            ''Remaining open interval before a half-open probe may be admitted.'' ''gauge''
          @ concat (map (prom_circuit fixed) (ms_circuits s)))"

text \<open>The reader of a quoted label value in the exposition format, up to the closing quote.\<close>

fun prom_read :: "string \<Rightarrow> (string \<times> string) option" where
  "prom_read [] = None"
| "prom_read (c # s) =
     (if c = dq then Some ([], s)
      else if c = nl then None
      else if c = bs then
        (case s of
           [] \<Rightarrow> None
         | d # s' \<Rightarrow>
             (if d = CHR ''n'' then map_option (apfst (Cons nl)) (prom_read s')
              else if d = bs \<or> d = dq then map_option (apfst (Cons d)) (prom_read s')
              else None))
      else map_option (apfst (Cons c)) (prom_read s))"


subsection \<open>What a history of requests leaves in the counters\<close>

datatype provider_event =
  ProviderBegin string
| ProviderFinish string int duration bool gotime

fun provider_event_step :: "provider_event \<Rightarrow> metrics \<Rightarrow> metrics" where
  "provider_event_step (ProviderBegin n) m = providerBegin n m"
| "provider_event_step (ProviderFinish n st d terr clock) m = providerFinish n st d terr clock m"

definition provider_run :: "provider_event list \<Rightarrow> metrics \<Rightarrow> metrics" where
  "provider_run es m = fold provider_event_step es m"

definition provider_entry :: "string \<Rightarrow> metrics \<Rightarrow> provider_metrics" where
  "provider_entry n m =
     (case map_of (mt_providers m) n of None \<Rightarrow> zero_provider_metrics | Some p \<Rightarrow> p)"

fun begins :: "string \<Rightarrow> provider_event list \<Rightarrow> nat" where
  "begins n [] = 0"
| "begins n (ProviderBegin k # es) = (if k = n then 1 else 0) + begins n es"
| "begins n (ProviderFinish k st d terr clock # es) = begins n es"

text \<open>The statuses and transport errors of the finished requests of one provider, in order.\<close>

fun finishes :: "string \<Rightarrow> provider_event list \<Rightarrow> (int \<times> bool) list" where
  "finishes n [] = []"
| "finishes n (ProviderBegin k # es) = finishes n es"
| "finishes n (ProviderFinish k st d terr clock # es) =
     (if k = n then [(st, terr)] else []) @ finishes n es"

lemma begins_append [simp]: "begins n (es @ fs) = begins n es + begins n fs"
  by (induction n es rule: begins.induct) auto

lemma finishes_append [simp]: "finishes n (es @ fs) = finishes n es @ finishes n fs"
  by (induction n es rule: finishes.induct) auto

definition failed_call :: "int \<times> bool \<Rightarrow> bool" where
  "failed_call f \<longleftrightarrow> snd f \<or> 500 \<le> fst f"

definition in_class :: "int \<Rightarrow> int \<Rightarrow> int \<times> bool \<Rightarrow> bool" where
  "in_class lo hi f \<longleftrightarrow> lo \<le> fst f \<and> fst f < hi"

lemma provider_entry_put [simp]:
  "provider_entry k (put_provider n p m) = (if k = n then p else provider_entry k m)"
  by (simp add: provider_entry_def put_provider_def update_conv')

lemma metrics_provider_entry:
  "metrics_provider n m = (p, m') \<Longrightarrow> p = provider_entry n m \<and> provider_entry k m' = provider_entry k m"
  by (auto simp: metrics_provider_def provider_entry_def update_conv'
      split: option.splits if_splits)

lemma provider_entry_begin:
  "provider_entry k (providerBegin n m) =
     (if k = n \<and> trim_space n \<noteq> ''''
      then (provider_entry k m)\<lparr>pm_in_flight := wrap64 (pm_in_flight (provider_entry k m) + 1)\<rparr>
      else provider_entry k m)"
  using metrics_provider_entry [of n m]
  by (auto simp: providerBegin_def Let_def split: prod.split)

lemma provider_entry_finish:
  "provider_entry k (providerFinish n st d terr clock m) =
     (if k = n \<and> trim_space n \<noteq> '''' then finish_provider st d terr clock (provider_entry k m)
      else provider_entry k m)"
  using metrics_provider_entry [of n m]
  by (auto simp: providerFinish_def Let_def split: prod.split)

text \<open>What the entry of a provider holds after the finished calls \<open>fs\<close>.\<close>

definition counts_of :: "(int \<times> bool) list \<Rightarrow> provider_metrics \<Rightarrow> bool" where
  "counts_of fs p \<longleftrightarrow>
     pm_requests p = of_nat (length fs) \<and>
     pm_requests2xx p = of_nat (length (filter (in_class 200 300) fs)) \<and>
     pm_requests4xx p = of_nat (length (filter (in_class 400 500) fs)) \<and>
     pm_requests5xx p = of_nat (length (filter (\<lambda>f. 500 \<le> fst f) fs)) \<and>
     pm_transport_errors p = of_nat (length (filter snd fs)) \<and>
     pm_consecutive_failures p = of_nat (trailing_failures (map failed_call fs))"

lemma counts_of_zero [simp]: "counts_of [] zero_provider_metrics"
  by (simp add: counts_of_def zero_provider_metrics_def)

lemma counts_of_finish:
  "counts_of fs p \<Longrightarrow> counts_of (fs @ [(st, terr)]) (finish_provider st d terr clock p)"
  by (auto simp: counts_of_def finish_provider_def Let_def in_class_def failed_call_def)

lemma counts_of_in_flight [simp]: "counts_of fs (p\<lparr>pm_in_flight := i\<rparr>) = counts_of fs p"
  by (simp add: counts_of_def)

lemma finish_provider_in_flight:
  "0 < pm_in_flight p \<Longrightarrow> pm_in_flight p < 2 ^ 63 \<Longrightarrow>
   pm_in_flight (finish_provider st d terr clock p) = pm_in_flight p - 1"
  by (simp add: finish_provider_def Let_def wrap64_bounded)

lemma provider_run_snoc:
  "provider_run (es @ [e]) m = provider_event_step e (provider_run es m)"
  by (simp add: provider_run_def)

lemma provider_run_counts:
  assumes "trim_space n \<noteq> ''''"
  shows "counts_of (finishes n es) (provider_entry n (provider_run es (newMetrics clock)))"
proof (induction es rule: rev_induct)
  case Nil
  then show ?case by (simp add: provider_run_def provider_entry_def newMetrics_def)
next
  case (snoc e es)
  then show ?case
    using assms
    by (cases e) (auto simp: provider_run_snoc provider_entry_begin provider_entry_finish
        counts_of_finish)
qed

text \<open>No call finishes before it began.\<close>

definition well_bracketed :: "string \<Rightarrow> provider_event list \<Rightarrow> bool" where
  "well_bracketed n es \<longleftrightarrow>
     (\<forall>k \<le> length es. length (finishes n (take k es)) \<le> begins n (take k es))"

lemma well_bracketed_upt:
  "well_bracketed n es \<longleftrightarrow>
     list_all (\<lambda>k. length (finishes n (take k es)) \<le> begins n (take k es)) [0..<Suc (length es)]"
  by (auto simp: well_bracketed_def list_all_iff)

lemma well_bracketed_snoc:
  assumes "well_bracketed n (es @ [e])"
  shows "well_bracketed n es" "length (finishes n (es @ [e])) \<le> begins n (es @ [e])"
proof -
  show "length (finishes n (es @ [e])) \<le> begins n (es @ [e])"
    using assms unfolding well_bracketed_def by (metis order_refl take_all_iff)
  show "well_bracketed n es"
    unfolding well_bracketed_def
  proof (intro allI impI)
    fix k assume "k \<le> length es"
    then show "length (finishes n (take k es)) \<le> begins n (take k es)"
      using assms unfolding well_bracketed_def by (auto dest!: spec [of _ k])
  qed
qed

lemma provider_run_in_flight:
  assumes "trim_space n \<noteq> ''''" "well_bracketed n es" "begins n es < 2 ^ 62"
  shows "pm_in_flight (provider_entry n (provider_run es (newMetrics clock))) =
    int (begins n es) - int (length (finishes n es))"
  using assms(2,3)
proof (induction es rule: rev_induct)
  case Nil
  then show ?case
    by (simp add: provider_run_def provider_entry_def newMetrics_def zero_provider_metrics_def)
next
  case (snoc e es)
  let ?p = "provider_entry n (provider_run es (newMetrics clock))"
  note wb = well_bracketed_snoc [OF snoc.prems(1)]
  have IH: "pm_in_flight ?p = int (begins n es) - int (length (finishes n es))"
    using snoc wb(1) by simp
  show ?case
  proof (cases e)
    case (ProviderBegin k)
    then show ?thesis
      using IH assms(1) snoc.prems(2) wb(2)
      by (auto simp: provider_run_snoc provider_entry_begin intro!: trans [OF wrap64_bounded])
  next
    case (ProviderFinish k st d terr c)
    then show ?thesis
      using IH assms(1) wb(2) snoc.prems(2)
      by (auto simp: provider_run_snoc provider_entry_finish finish_provider_in_flight)
  qed
qed

lemma trailing_le: "trailing_failures os \<le> length os"
  unfolding trailing_failures_def by (metis length_rev length_takeWhile_le)

lemma snapshot_health:
  assumes "counts_of fs p" "length fs < 2 ^ 64"
  shows "ps_health (provider_snapshot n p) =
    (if fs = [] then ''unknown''
     else let k = trailing_failures (map failed_call fs) in
       if 3 \<le> k then ''degraded'' else if 0 < k then ''warning'' else ''healthy'')"
proof -
  let ?k = "trailing_failures (map failed_call fs)"
  have k: "?k < 2 ^ 64" using trailing_le [of "map failed_call fs"] assms(2) by simp
  have "(of_nat (length fs) = (0 :: 64 word)) = (fs = [])"
    using assms(2) by (simp add: word_unat_eq_iff unat_of_nat)
  moreover have "(3 \<le> (of_nat ?k :: 64 word)) = (3 \<le> ?k)" "(0 < (of_nat ?k :: 64 word)) = (0 < ?k)"
    using k by (simp_all add: word_le_nat_alt word_less_nat_alt unat_of_nat)
  ultimately show ?thesis
    using assms(1)
    by (simp add: provider_snapshot_def providerHealth_def counts_of_def Let_def)
qed


subsection \<open>Properties\<close>

text \<open>
  C23. The metrics of a provider are a function of its own history. After any sequence of
  begun and finished calls of any providers: the requests, each status class and the
  transport errors count that provider's finished calls, modulo \<open>2 ^ 64\<close>; while no call
  finishes before it began, the in-flight gauge is the number of calls still open; and the
  reported health is decided by the failures since its last success.
\<close>

theorem provider_metrics_history:
  assumes "trim_space n \<noteq> ''''" and "well_bracketed n es" and "begins n es < 2 ^ 62"
    and "fs = finishes n es" and "p = provider_entry n (provider_run es (newMetrics clock))"
  shows "counts_of fs p \<and> pm_in_flight p = int (begins n es) - int (length fs) \<and>
    ps_health (provider_snapshot n p) =
      (if fs = [] then ''unknown''
       else let k = trailing_failures (map failed_call fs) in
         if 3 \<le> k then ''degraded'' else if 0 < k then ''warning'' else ''healthy'')"
proof -
  have "length fs \<le> begins n es"
    using assms(2,4) unfolding well_bracketed_def by (metis order_refl take_all_iff)
  then have len: "length fs < 2 ^ 64" using assms(3) by simp
  have "counts_of fs p" using provider_run_counts [OF assms(1)] assms(4,5) by simp
  with snapshot_health [OF this len] provider_run_in_flight [OF assms(1-3)] assms(4,5)
  show ?thesis by simp
qed

definition sample_history :: "provider_event list" where
  "sample_history = [ProviderBegin ''a'', ProviderBegin ''b'', ProviderFinish ''a'' 502 1 False 9,
     ProviderBegin ''a'']"

theorem provider_metrics_history_witness:
  "trim_space ''a'' \<noteq> '''' \<and> well_bracketed ''a'' sample_history \<and>
   (let p = provider_entry ''a'' (provider_run sample_history (newMetrics 0)) in
    pm_in_flight p = 1 \<and> pm_requests5xx p = 1 \<and> ps_health (provider_snapshot ''a'' p) = ''warning'')"
proof -
  have ne: "trim_space ''a'' \<noteq> ''''" by code_simp
  have wb: "well_bracketed ''a'' sample_history"
    by (simp add: well_bracketed_upt sample_history_def upt_rec)
  have b: "begins ''a'' sample_history = 2" and f: "finishes ''a'' sample_history = [(502, False)]"
    by (simp_all add: sample_history_def)
  have t: "trailing_failures [True] = 1" by (simp add: trailing_failures_def)
  have "begins ''a'' sample_history < 2 ^ 62" using b by simp
  from provider_metrics_history [OF ne wb this refl refl, of 0] ne wb b f t
  show ?thesis by (simp add: counts_of_def failed_call_def Let_def)
qed

text \<open>
  A provider or state name cannot break out of its label: whatever bytes it holds, a
  reader of the exposition format recovers exactly the name from the quoted label value,
  and the line is not split.
\<close>

theorem prometheus_label_roundtrip:
  "prom_read (prometheusLabel s @ dq # rest) = Some (s, rest) \<and> nl \<notin> set (prometheusLabel s)"
proof (induction s)
  case Nil
  then show ?case by (simp add: prometheusLabel_def)
next
  case (Cons c s)
  then show ?case by (auto simp: prometheusLabel_def escape_label_char_def)
qed

text \<open>
  The snapshot lists every known provider exactly once, in the order of their names.
\<close>

theorem snapshot_providers_sorted:
  assumes "provider_run es (newMetrics clock) = m"
  shows "sorted (map ps_name (providerSnapshots m)) \<and>
    distinct (map ps_name (providerSnapshots m)) \<and>
    set (map ps_name (providerSnapshots m)) = dom (map_of (mt_providers m))"
proof -
  have step: "distinct (map fst (mt_providers m)) \<Longrightarrow>
      distinct (map fst (mt_providers (provider_event_step e m)))" for e m
    by (cases e) (auto simp: providerBegin_def providerFinish_def metrics_provider_def
        put_provider_def Let_def distinct_update split: prod.splits option.splits)
  have "distinct (map fst (mt_providers (provider_run es (newMetrics clock))))"
    by (induction es rule: rev_induct) (simp_all add: provider_run_def newMetrics_def step)
  then have d: "distinct (map fst (mt_providers m))" using assms by simp
  have "map ps_name (providerSnapshots m) = sort (map fst (mt_providers m))"
    by (simp add: providerSnapshots_def comp_def)
  with d show ?thesis by (simp add: dom_map_of_conv_image_fst)
qed

theorem snapshot_providers_sorted_witness:
  "map ps_name (providerSnapshots (provider_run [ProviderBegin ''b'', ProviderBegin ''a'']
     (newMetrics 0))) = [''a'', ''b''] \<and>
   sorted (map ps_name (providerSnapshots (provider_run [ProviderBegin ''b'', ProviderBegin ''a'']
     (newMetrics 0))))"
proof -
  have "map ps_name (providerSnapshots (provider_run [ProviderBegin ''b'', ProviderBegin ''a'']
      (newMetrics 0))) = [''a'', ''b'']" by code_simp
  with snapshot_providers_sorted [OF refl, of "[ProviderBegin ''b'', ProviderBegin ''a'']" 0]
  show ?thesis by blast
qed

end
