(* ===== verification/Http_Helpers.thy ===== *)
theory Http_Helpers
  imports Http_Header Go_Json Rate_Backend
begin

section \<open>HTTP helpers (internal/gateway/http_helpers.go)\<close>

text \<open>
  The header filters at the two trust boundaries, the streaming copy loop, request ids, path
  joining, redaction and the small tables of texts. A range loop over a header map visits
  its entries in the order of the association list; no result depends on that order.
\<close>


subsection \<open>Header tables and filters\<close>

definition hopByHopHeaders :: "string list" where
  "hopByHopHeaders =
     [''connection'', ''keep-alive'', ''proxy-authenticate'', ''proxy-authorization'', ''te'',
      ''trailer'', ''transfer-encoding'', ''upgrade'', ''host'', ''content-length'']"

definition upstreamCredentialHeaders :: "string list" where
  "upstreamCredentialHeaders =
     [''authorization'', ''x-goog-api-key'', ''x-goog-user-project'', ''x-api-key'', ''api-key'',
      ''anthropic-version'']"

definition forwardingHeaders :: "string list" where
  "forwardingHeaders =
     [''forwarded'', ''x-forwarded-for'', ''x-forwarded-host'', ''x-forwarded-port'',
      ''x-forwarded-proto'', ''x-real-ip'']"

definition tracingHeaders :: "string list" where
  "tracingHeaders = [''traceparent'', ''tracestate'', ''baggage'']"

definition connectionHeaderNames :: "header \<Rightarrow> string set" where
  "connectionHeaderNames h =
     set (filter (\<lambda>name. name \<noteq> '''')
       (concat (map (\<lambda>val. map (\<lambda>name. to_lower (trim_space name)) (split_on CHR '','' val))
          (header_values h ''Connection''))))"

text \<open>The loop both filters run: skip by lower-case name, otherwise add every value.\<close>

fun copy_headers :: "(string \<Rightarrow> bool) \<Rightarrow> header \<Rightarrow> header \<Rightarrow> header" where
  "copy_headers skip dst [] = dst"
| "copy_headers skip dst ((k, vs) # src) =
     copy_headers skip
       (if skip (to_lower k) then dst else foldl (\<lambda>h v. header_add h k v) dst vs) src"

definition copyRequestHeaders :: "header \<Rightarrow> header \<Rightarrow> header" where
  "copyRequestHeaders dst src =
     (let connectionHeaders = connectionHeaderNames src
      in copy_headers (\<lambda>lk. lk \<in> set hopByHopHeaders \<or> lk \<in> connectionHeaders \<or>
           lk \<in> set upstreamCredentialHeaders \<or> lk \<in> set forwardingHeaders \<or>
           lk \<in> set tracingHeaders) dst src)"

definition copyResponseHeaders :: "header \<Rightarrow> header \<Rightarrow> header" where
  "copyResponseHeaders dst src =
     (let connectionHeaders = connectionHeaderNames src
      in copy_headers (\<lambda>lk. lk \<in> set hopByHopHeaders \<or> lk \<in> connectionHeaders) dst src)"


subsection \<open>Streaming\<close>

text \<open>
  \<open>copyAndFlush\<close> reads chunks of at most 32 KiB until the reader reports an error or EOF.
  The reader is the list of its results; a reader that stops reporting (an exhausted list)
  leaves the loop waiting, \<open>None\<close>. The reads not made are returned too. The writer is a state with a \<open>Write\<close> operation.
\<close>

datatype read_result = ReadMore | ReadEOF | ReadFailed
datatype copy_error = CopyWrite | CopyShortWrite | CopyRead

fun copyAndFlush ::
  "('w \<Rightarrow> string \<Rightarrow> (nat \<times> bool) \<times> 'w) \<Rightarrow> 'w \<Rightarrow> (string \<times> read_result) list \<Rightarrow> i64 \<Rightarrow>
   (i64 \<times> copy_error option) option \<times> 'w \<times> (string \<times> read_result) list" where
  "copyAndFlush write w [] written = (None, w, [])"
| "copyAndFlush write w ((chunk, readErr) # reads) written =
     (let ((wn, writeErr), w, written) =
        (if chunk \<noteq> []
         then (let ((wn, e), w) = write w chunk in ((wn, e), w, wrap64 (written + int wn)))
         else ((0, False), w, written))
      in if chunk \<noteq> [] \<and> writeErr then (Some (written, Some CopyWrite), w, reads)
         else if chunk \<noteq> [] \<and> wn \<noteq> length chunk then (Some (written, Some CopyShortWrite), w, reads)
         else (case readErr of
             ReadMore \<Rightarrow> copyAndFlush write w reads written
           | ReadEOF \<Rightarrow> (Some (written, None), w, reads)
           | ReadFailed \<Rightarrow> (Some (written, Some CopyRead), w, reads)))"

text \<open>
  The same loop over a reader that may report for ever (the \<open>i\<close>-th read of a function), which
  then need not return: \<open>None\<close>. On the reads a loop that returns has made, it is the loop above
  (\<open>copy_stream_reads\<close>, \<open>reads_copy_stream\<close>).
\<close>

partial_function (option) copy_stream ::
  "('w \<Rightarrow> string \<Rightarrow> (nat \<times> bool) \<times> 'w) \<Rightarrow> 'w \<Rightarrow> (nat \<Rightarrow> string \<times> read_result) \<Rightarrow> nat \<Rightarrow> i64 \<Rightarrow>
   ((i64 \<times> copy_error option) \<times> 'w) option" where
  "copy_stream write w read i written =
     (let (chunk, readErr) = read i;
          ((wn, writeErr), w, written) =
            (if chunk \<noteq> []
             then (let ((wn, e), w) = write w chunk in ((wn, e), w, wrap64 (written + int wn)))
             else ((0, False), w, written))
      in if chunk \<noteq> [] \<and> writeErr then Some ((written, Some CopyWrite), w)
         else if chunk \<noteq> [] \<and> wn \<noteq> length chunk then Some ((written, Some CopyShortWrite), w)
         else (case readErr of
             ReadMore \<Rightarrow> copy_stream write w read (Suc i) written
           | ReadEOF \<Rightarrow> Some ((written, None), w)
           | ReadFailed \<Rightarrow> Some ((written, Some CopyRead), w)))"

definition writeJSON :: "response_writer \<Rightarrow> int \<Rightarrow> json \<Rightarrow> response_writer" where
  "writeJSON w status payload =
     (let w = set_header w ''Content-Type'' ''application/json'';
          w = write_header w status
      in write_body w (json_encode payload @ [CHR 0x0A]))"


subsection \<open>Request ids, paths and texts\<close>

definition validRequestID :: "string \<Rightarrow> bool" where
  "validRequestID rid \<longleftrightarrow>
     rid \<noteq> '''' \<and> length rid \<le> 128 \<and> list_all (\<lambda>r. \<not> (byte r < 0x21 \<or> byte r > 0x7e)) rid"

text \<open>\<open>rand\<close> is what \<open>rand.Read\<close> delivers (\<open>None\<close> when it fails), \<open>clock\<close> is \<open>UnixNano\<close>.\<close>

definition requestID :: "header \<Rightarrow> string option \<Rightarrow> i64 \<Rightarrow> string" where
  "requestID h rand clock =
     (let rid = trim_space (header_get h ''X-Request-ID'') in
      if validRequestID rid then rid
      else (case rand of None \<Rightarrow> ''req-'' @ itoa clock | Some b \<Rightarrow> ''req-'' @ hex_encode b))"

definition singleJoiningSlash :: "string \<Rightarrow> string \<Rightarrow> string" where
  "singleJoiningSlash a b =
     (let aslash = suffix ''/'' a; bslash = prefix ''/'' b in
      if aslash \<and> bslash then a @ drop 1 b
      else if \<not> aslash \<and> \<not> bslash then a @ ''/'' @ b
      else a @ b)"

definition publicProxyError :: "int \<Rightarrow> string" where
  "publicProxyError status =
     (if status = 400 then ''invalid proxy request''
      else if status = 404 then ''provider not found''
      else if status = 413 then ''request body too large''
      else if status = 500 then ''gateway configuration error''
      else ''upstream provider request failed'')"

definition levelForStatus :: "int \<Rightarrow> string" where
  "levelForStatus status =
     (if 500 \<le> status then ''error'' else if 400 \<le> status then ''warn'' else ''info'')"

definition ellipsis :: string where
  "ellipsis = [CHR 0xE2, CHR 0x80, CHR 0xA6]"

definition redact :: "string \<Rightarrow> string" where
  "redact s =
     (if trim_space s = '''' then ''''
      else if length s \<le> 8 then ''****''
      else take 4 s @ ellipsis @ drop (length s - 4) s)"

fun min_duration_loop :: "duration list \<Rightarrow> duration \<Rightarrow> duration" where
  "min_duration_loop [] out = out"
| "min_duration_loop (v # vs) out =
     min_duration_loop vs
       (if v \<le> 0 then out else if out = 0 \<or> v < out then v else out)"

definition minDuration :: "duration list \<Rightarrow> duration" where
  "minDuration vs = min_duration_loop vs 0"


subsection \<open>What the filters let through\<close>

definition request_blocked :: "header \<Rightarrow> string \<Rightarrow> bool" where
  "request_blocked src lk \<longleftrightarrow>
     lk \<in> set hopByHopHeaders \<or> lk \<in> connectionHeaderNames src \<or>
     lk \<in> set upstreamCredentialHeaders \<or> lk \<in> set forwardingHeaders \<or> lk \<in> set tracingHeaders"

definition response_blocked :: "header \<Rightarrow> string \<Rightarrow> bool" where
  "response_blocked src lk \<longleftrightarrow> lk \<in> set hopByHopHeaders \<or> lk \<in> connectionHeaderNames src"

text \<open>A header map as net/http delivers it: distinct keys in canonical form.\<close>

definition header_canonical :: "header \<Rightarrow> bool" where
  "header_canonical h \<longleftrightarrow> header_wf h \<and> (\<forall>(k, vs) \<in> set h. canonical_key k = k)"

lemma header_canonical_tl:
  "header_canonical ((k, vs) # h) \<Longrightarrow>
   header_canonical h \<and> canonical_key k = k \<and> map_of h k = None"
  by (auto simp: header_canonical_def header_wf_def map_of_eq_None_iff)

lemma copy_headers_values:
  assumes "header_canonical src"
  shows "header_values (copy_headers skip dst src) k =
    header_values dst k @ (if skip (to_lower k) then [] else header_values src k)"
  using assms
proof (induction src arbitrary: dst)
  case Nil
  then show ?case by simp
next
  case (Cons e src)
  obtain k' vs where e: "e = (k', vs)" by (cases e)
  note hd = header_canonical_tl [OF Cons.prems [unfolded e]]
  have low: "canonical_key k = k' \<Longrightarrow> to_lower k' = to_lower k" by (metis to_lower_canonical_key)
  have src: "header_values (e # src) k = (if canonical_key k = k' then vs else header_values src k)"
    by (simp add: header_values_def e)
  have "canonical_key k = k' \<Longrightarrow> header_values src k = []"
    using hd by (simp add: header_values_def)
  with Cons.IH [of "if skip (to_lower k') then dst else foldl (\<lambda>h v. header_add h k' v) dst vs"]
    src e hd low show ?case
    by (auto simp: hm.vals_append_all)
qed

lemma copyRequestHeaders_values:
  "header_canonical src \<Longrightarrow>
   header_values (copyRequestHeaders dst src) k =
     header_values dst k @ (if request_blocked src (to_lower k) then [] else header_values src k)"
  by (simp add: copyRequestHeaders_def copy_headers_values request_blocked_def Let_def)

lemma copyResponseHeaders_values:
  "header_canonical src \<Longrightarrow>
   header_values (copyResponseHeaders dst src) k =
     header_values dst k @ (if response_blocked src (to_lower k) then [] else header_values src k)"
  by (simp add: copyResponseHeaders_def copy_headers_values response_blocked_def Let_def)


subsection \<open>Writers\<close>

text \<open>
  The contract of \<open>io.Writer\<close>: a write delivers a prefix of its argument, and reports an
  error when it delivers less.
\<close>

text \<open>
  \<open>delivered reads m r out\<close>: with \<open>m\<close> bytes counted before, the loop over \<open>reads\<close> sent
  \<open>out\<close> and returned \<open>r\<close>.
\<close>

definition delivered ::
  "(string \<times> read_result) list \<Rightarrow> nat \<Rightarrow> (i64 \<times> copy_error option) option \<Rightarrow> string \<Rightarrow> bool" where
  "delivered reads m r out \<longleftrightarrow>
     prefix out (concat (map fst reads)) \<and>
     (\<forall>n e. r = Some (n, e) \<longrightarrow> n = wrap64 (int (m + length out)) \<and> e \<noteq> Some CopyShortWrite) \<and>
     (\<forall>n. r = Some (n, None) \<longrightarrow> (\<exists>pre chunk post. reads = pre @ (chunk, ReadEOF) # post \<and>
        out = concat (map fst pre) @ chunk))"

lemma delivered_none [simp]: "delivered [] m None []"
  by (simp add: delivered_def)

lemma delivered_eof: "delivered ((c, ReadEOF) # reads) m (Some (wrap64 (int m + int (length c)), None)) c"
  unfolding delivered_def by (auto intro: exI [of _ "[]"])

lemma delivered_error:
  "prefix d c \<Longrightarrow> e \<noteq> CopyShortWrite \<Longrightarrow>
   delivered ((c, st) # reads) m (Some (wrap64 (int m + int (length d)), Some e)) d"
  unfolding delivered_def by auto

lemma delivered_more:
  assumes "delivered reads (m + length c) r out"
  shows "delivered ((c, ReadMore) # reads) m r (c @ out)"
proof -
  have "\<exists>pre chunk post. (c, ReadMore) # reads = pre @ (chunk, ReadEOF) # post \<and>
      c @ out = concat (map fst pre) @ chunk" if r: "r = Some (n, None)" for n
  proof -
    obtain pre chunk post where "reads = pre @ (chunk, ReadEOF) # post"
      "out = concat (map fst pre) @ chunk"
      using assms r unfolding delivered_def by blast
    then have "(c, ReadMore) # reads = ((c, ReadMore) # pre) @ (chunk, ReadEOF) # post \<and>
      c @ out = concat (map fst ((c, ReadMore) # pre)) @ chunk" by simp
    then show ?thesis by blast
  qed
  with assms show ?thesis unfolding delivered_def by (auto simp: ac_simps)
qed

locale byte_writer =
  fixes wr :: "'w \<Rightarrow> string \<Rightarrow> (nat \<times> bool) \<times> 'w"
    and got :: "'w \<Rightarrow> string"
  assumes write_prefix: "wr w b = ((n, e), w') \<Longrightarrow> n \<le> length b \<and> got w' = got w @ take n b"
    and short_is_error: "wr w b = ((n, e), w') \<Longrightarrow> n < length b \<Longrightarrow> e"
begin

text \<open>
  Whatever the peer and the reader do, the peer got a prefix of the stream, the count is its
  length, and a clean end means the whole stream up to EOF.
\<close>

lemma copy_and_flush:
  assumes "copyAndFlush wr w reads (wrap64 (int m)) = (r, w', rest)"
  shows "\<exists>out. got w' = got w @ out \<and> delivered reads m r out"
  using assms
proof (induction reads arbitrary: w m)
  case Nil
  then show ?case by simp
next
  case (Cons rd reads)
  obtain c st where rd: "rd = (c, st)" by (cases rd)
  obtain wn e w1 where wr: "(if c = [] then ((0, False), w) else wr w c) = ((wn, e), w1)"
    by (metis prod.collapse)
  have got: "got w1 = got w @ take wn c" "wn \<le> length c" "wn < length c \<Longrightarrow> e"
    using wr write_prefix short_is_error by (auto split: if_splits)
  have loop: "copyAndFlush wr w (rd # reads) (wrap64 (int m)) =
    (if c \<noteq> [] \<and> e then (Some (wrap64 (int m + int wn), Some CopyWrite), w1, reads)
     else (case st of
        ReadMore \<Rightarrow> copyAndFlush wr w1 reads (wrap64 (int m + int wn))
      | ReadEOF \<Rightarrow> (Some (wrap64 (int m + int wn), None), w1, reads)
      | ReadFailed \<Rightarrow> (Some (wrap64 (int m + int wn), Some CopyRead), w1, reads)))"
    using wr got by (cases st) (auto simp: rd le_less split: if_splits)
  show ?case
  proof (cases "c \<noteq> [] \<and> e")
    case True
    have "length (take wn c) = wn" using got(2) by simp
    with delivered_error [of "take wn c" c CopyWrite st reads m]
    have "delivered (rd # reads) m (Some (wrap64 (int m + int wn), Some CopyWrite)) (take wn c)"
      by (simp only: rd take_is_prefix) simp
    with True loop Cons.prems got(1) show ?thesis by (auto simp del: copyAndFlush.simps)
  next
    case False
    then have "\<not> wn < length c" using got(3) by fastforce
    with got(2) have full: "wn = length c" "take wn c = c" by auto
    note eq = Cons.prems [unfolded loop if_not_P [OF False] full(1)]
    show ?thesis
    proof (cases st)
      case ReadMore
      with eq have "copyAndFlush wr w1 reads (wrap64 (int (m + length c))) = (r, w', rest)" by simp
      from Cons.IH [OF this] obtain out where
        "got w' = got w1 @ out" "delivered reads (m + length c) r out" by blast
      then show ?thesis using got(1) full delivered_more ReadMore by (auto simp: rd)
    next
      case ReadEOF
      then show ?thesis using eq got(1) full delivered_eof by (auto simp: rd)
    next
      case ReadFailed
      then show ?thesis using eq got(1) full delivered_error [of c c CopyRead] by (auto simp: rd)
    qed
  qed
qed

end

interpretation conn: byte_writer conn_write rw_body
  by unfold_locales (auto simp: conn_write_def write_header_def Let_def)


subsection \<open>Properties\<close>

text \<open>
  What the client's headers contribute to the upstream request: every header outside the
  hop-by-hop, credential, forwarding and tracing tables and not named by the client's own
  \<open>Connection\<close> header is forwarded with all its values in order; of the others, whatever
  case they are written in, nothing is.
\<close>

theorem request_headers_filtered:
  assumes "header_canonical src"
  shows "header_values (copyRequestHeaders dst src) k = header_values dst k @
    (if to_lower k \<in> set (hopByHopHeaders @ upstreamCredentialHeaders @ forwardingHeaders @
         tracingHeaders) \<union> connectionHeaderNames src
     then [] else header_values src k)"
  using copyRequestHeaders_values [OF assms, of dst k] by (auto simp: request_blocked_def)

definition sample_headers :: header where
  "sample_headers = [(''Authorization'', [''Bearer t'']), (''Connection'', [''close, X-Drop'']),
     (''X-Drop'', [''1'']), (''Accept'', [''a'', ''b''])]"

lemma sample_headers_canonical: "header_canonical sample_headers"
  unfolding header_canonical_def header_wf_def sample_headers_def by code_simp

lemma sample_connection_names:
  "connectionHeaderNames sample_headers = {''close'', ''x-drop''}"
proof -
  have "map (\<lambda>name. to_lower (trim_space name)) (split_on CHR '','' ''close, X-Drop'')
      = [''close'', ''x-drop'']" by code_simp
  moreover have "header_values sample_headers ''Connection'' = [''close, X-Drop'']" by code_simp
  ultimately show ?thesis by (simp add: connectionHeaderNames_def)
qed

theorem request_headers_filtered_witness:
  "header_canonical sample_headers \<and>
   header_values (copyRequestHeaders [] sample_headers) ''accept'' = [''a'', ''b''] \<and>
   header_values (copyRequestHeaders [] sample_headers) ''X-DROP'' = [] \<and>
   header_values (copyRequestHeaders [] sample_headers) ''AUTHORIZATION'' = []"
proof -
  have low: "to_lower ''accept'' = ''accept''" "to_lower ''X-DROP'' = ''x-drop''"
    "to_lower ''AUTHORIZATION'' = ''authorization''" by code_simp+
  have acc: "header_values sample_headers ''accept'' = [''a'', ''b'']" by code_simp
  note f = request_headers_filtered [OF sample_headers_canonical, of "[]"]
  show ?thesis
    using sample_headers_canonical f [of "''accept''"] f [of "''X-DROP''"] f [of "''AUTHORIZATION''"]
    by (simp add: low acc sample_connection_names hopByHopHeaders_def forwardingHeaders_def
        upstreamCredentialHeaders_def tracingHeaders_def)
qed

text \<open>
  Streaming to the client: with any sequence of read results and a client that may stop
  taking bytes at any point, the client's body grows by a prefix of the upstream stream, the
  returned count is the number of bytes delivered, and a return without error means that the
  whole stream up to EOF was delivered.
\<close>

theorem stream_delivers_prefix:
  assumes "copyAndFlush conn_write w reads 0 = (res, w', rest)"
  shows "\<exists>sent. rw_body w' = rw_body w @ sent \<and> prefix sent (concat (map fst reads)) \<and>
    (case res of
       None \<Rightarrow> True
     | Some (n, None) \<Rightarrow> n = wrap64 (int (length sent)) \<and>
         (\<exists>pre chunk post. reads = pre @ (chunk, ReadEOF) # post \<and>
            sent = concat (map fst pre) @ chunk)
     | Some (n, Some e) \<Rightarrow> n = wrap64 (int (length sent)) \<and> e \<noteq> CopyShortWrite)"
proof -
  have "wrap64 (int 0) = 0" by (simp add: wrap64_def)
  then obtain out where "rw_body w' = rw_body w @ out" "delivered reads 0 res out"
    using conn.copy_and_flush [of w reads 0 res w' rest] assms by auto
  then show ?thesis unfolding delivered_def by (auto split: option.splits)
qed

theorem stream_delivers_prefix_witness:
  "\<exists>w' sent. copyAndFlush conn_write (new_writer 3) [(''ab'', ReadMore), (''cd'', ReadEOF)] 0
      = (Some (3, Some CopyWrite), w', []) \<and> rw_body w' = sent \<and> prefix sent ''abcd''"
proof -
  let ?reads = "[(''ab'', ReadMore), (''cd'', ReadEOF)]"
  obtain w' where r: "copyAndFlush conn_write (new_writer 3) ?reads 0 = (Some (3, Some CopyWrite), w', [])"
    by (simp add: new_writer_def conn_write_def write_header_def wrap64_def)
  from stream_delivers_prefix [OF r] r show ?thesis by (auto simp: new_writer_def)
qed

text \<open>
  The request id that is echoed, logged and forwarded is always well formed: 1 to 128
  visible ASCII bytes, so it cannot split a header or a log line, and a client's own id is
  kept exactly when it is already of this form after trimming.
\<close>

theorem request_id_wellformed:
  assumes "in_i64 clock" and "\<And>b. rand = Some b \<Longrightarrow> length b = 8"
  shows "validRequestID (requestID h rand clock) \<and>
    (validRequestID (trim_space (header_get h ''X-Request-ID'')) \<longrightarrow>
       requestID h rand clock = trim_space (header_get h ''X-Request-ID''))"
proof -
  have ok: "\<not> byte r < 0x21 \<and> \<not> byte r > 0x7e"
    if "is_digit r \<or> is_lower r \<or> r \<in> set ''req-''" for r
    using that by (auto simp: is_digit_def is_lower_def)
  have hex: "validRequestID (''req-'' @ hex_encode b)" if "rand = Some b" for b
    using assms(2) [OF that] ok hex_encode_chars [of _ b]
    by (auto simp: validRequestID_def length_hex_encode list_all_iff)
  have "validRequestID (''req-'' @ itoa clock)"
    using ok itoa_chars [of _ clock] length_itoa [OF assms(1)]
    by (auto simp: validRequestID_def list_all_iff)
  then show ?thesis using hex by (auto simp: requestID_def Let_def split: option.split)
qed

theorem request_id_wellformed_witness:
  "in_i64 5 \<and> requestID [] (Some ''AAAAAAAA'') 5 = ''req-4141414141414141'' \<and>
   validRequestID (requestID [] (Some ''AAAAAAAA'') 5)"
proof -
  have "in_i64 5" by (simp add: i64_bounds)
  moreover have "requestID [] (Some ''AAAAAAAA'') 5 = ''req-4141414141414141''" by code_simp
  ultimately show ?thesis
    using request_id_wellformed [of 5 "Some ''AAAAAAAA''" "[]"] by simp
qed

text \<open>
  Redaction: two secrets with the same first and last four bytes are shown alike, however
  their other bytes and lengths differ, and a secret of at most eight bytes is not shown at
  all.
\<close>

theorem redact_hides:
  assumes "trim_space s \<noteq> ''''" and "trim_space t \<noteq> ''''"
    and "length s \<le> 8 \<longleftrightarrow> length t \<le> 8"
    and "8 < length s \<Longrightarrow> take 4 s = take 4 t \<and> drop (length s - 4) s = drop (length t - 4) t"
  shows "redact s = redact t \<and> (length s \<le> 8 \<longrightarrow> redact s = ''****'')"
  using assms by (auto simp: redact_def)

theorem redact_hides_witness:
  "redact ''sk-aVERYSECRETwxyz'' = redact ''sk-aOTHERwxyz'' \<and>
   redact ''sk-aVERYSECRETwxyz'' = ''sk-a'' @ ellipsis @ ''wxyz''"
proof -
  have "trim_space ''sk-aVERYSECRETwxyz'' \<noteq> ''''" "trim_space ''sk-aOTHERwxyz'' \<noteq> ''''" by code_simp+
  with redact_hides [of "''sk-aVERYSECRETwxyz''" "''sk-aOTHERwxyz''"]
  show ?thesis by (simp add: redact_def)
qed

lemma min_duration_loop_spec:
  assumes "0 \<le> out" and "min_duration_loop vs out = r"
  shows "(r = 0 \<and> out = 0 \<and> (\<forall>v \<in> set vs. v \<le> 0)) \<or>
    (0 < r \<and> r \<in> insert out (set vs) \<and> (0 < out \<longrightarrow> r \<le> out) \<and> (\<forall>v \<in> set vs. 0 < v \<longrightarrow> r \<le> v))"
  using assms
proof (induction vs arbitrary: out)
  case Nil
  then show ?case by auto
next
  case (Cons v vs)
  let ?out = "if v \<le> 0 then out else if out = 0 \<or> v < out then v else out"
  from Cons.prems have "0 \<le> ?out" "min_duration_loop vs ?out = r" by auto
  from Cons.IH [OF this] Cons.prems(1) show ?case by (auto split: if_splits)
qed

text \<open>
  \<open>minDuration\<close> is the least positive of its arguments, and 0 when none is positive:
  a deadline that is not set never shortens another.
\<close>

theorem min_duration_least:
  "minDuration vs = (if \<exists>v \<in> set vs. 0 < v then Min {v \<in> set vs. 0 < v} else 0)"
proof (cases "\<exists>v \<in> set vs. 0 < v")
  case True
  then have "0 < minDuration vs \<and> minDuration vs \<in> set vs \<and>
      (\<forall>v \<in> set vs. 0 < v \<longrightarrow> minDuration vs \<le> v)"
    using min_duration_loop_spec [of 0 vs "minDuration vs"]
    by (auto simp: minDuration_def not_le)
  then have "Min {v \<in> set vs. 0 < v} = minDuration vs" by (intro Min_eqI) auto
  with True show ?thesis by simp
next
  case False
  then show ?thesis
    using min_duration_loop_spec [of 0 vs "minDuration vs"] by (auto simp: minDuration_def)
qed


subsection \<open>When the copy ends\<close>

text \<open>A loop that returns has made finitely many reads, and is the loop over these.\<close>

lemma upt_reads: "map read [i..<i + Suc m] = read i # map read [Suc i..<Suc i + m]"
  by (simp add: upt_rec)

lemma copy_stream_reads:
  assumes returned: "copy_stream wr w read i n = Some rw"
  shows "\<exists>m rest. copyAndFlush wr w (map read [i..<i + m]) n = (Some (fst rw), snd rw, rest)"
proof (rule copy_stream.raw_induct [where
      P = "\<lambda>wr w read i n rw. \<exists>m rest. copyAndFlush wr w (map read [i..<i + m]) n = (Some (fst rw), snd rw, rest)",
      OF _ returned])
  fix loop and wr :: "'w \<Rightarrow> string \<Rightarrow> (nat \<times> bool) \<times> 'w" and w read i n and rw :: "(i64 \<times> copy_error option) \<times> 'w"
  assume IH: "\<And>wr w read i n rw. loop wr w read i n = Some rw \<Longrightarrow>
      \<exists>m rest. copyAndFlush wr w (map read [i..<i + m]) n = (Some (fst rw), snd rw, rest)"
    and eq: "(let (chunk, readErr) = read i;
          ((wn, writeErr), w, written) =
            (if chunk \<noteq> []
             then (let ((wn, e), w) = wr w chunk in ((wn, e), w, wrap64 (n + int wn)))
             else ((0, False), w, n))
      in if chunk \<noteq> [] \<and> writeErr then Some ((written, Some CopyWrite), w)
         else if chunk \<noteq> [] \<and> wn \<noteq> length chunk then Some ((written, Some CopyShortWrite), w)
         else (case readErr of
             ReadMore \<Rightarrow> loop wr w read (Suc i) written
           | ReadEOF \<Rightarrow> Some ((written, None), w)
           | ReadFailed \<Rightarrow> Some ((written, Some CopyRead), w))) = Some rw"
  obtain chunk st where rd: "read i = (chunk, st)" by (cases "read i")
  obtain wn e w1 where wrote: "wr w chunk = ((wn, e), w1)" by (metis prod.collapse)
  let ?w = "if chunk = [] then w else w1" and ?n = "if chunk = [] then n else wrap64 (n + int wn)"
  show "\<exists>m rest. copyAndFlush wr w (map read [i..<i + m]) n = (Some (fst rw), snd rw, rest)"
  proof (cases "chunk \<noteq> [] \<and> (e \<or> wn \<noteq> length chunk) \<or> st \<noteq> ReadMore")
    case True
    have "copyAndFlush wr w (map read [i..<i + 1]) n = (Some (fst rw), snd rw, [])"
      using eq True by (cases st) (auto simp: rd wrote Let_def split: if_splits)
    then show ?thesis by blast
  next
    case False
    then have "loop wr ?w read (Suc i) ?n = Some rw" using eq by (auto simp: rd wrote Let_def split: if_splits)
    from IH [OF this] obtain m rest where
      "copyAndFlush wr ?w (map read [Suc i..<Suc i + m]) ?n = (Some (fst rw), snd rw, rest)" by blast
    with False have "copyAndFlush wr w (map read [i..<i + Suc m]) n = (Some (fst rw), snd rw, rest)"
      unfolding upt_reads by (auto simp: rd wrote Let_def)
    then show ?thesis by blast
  qed
qed

lemma reads_copy_stream:
  "copyAndFlush wr w (map read [i..<i + m]) n = (Some r, w', rest) \<Longrightarrow>
   copy_stream wr w read i n = Some (r, w')"
proof (induction m arbitrary: i w n)
  case (Suc m)
  obtain chunk st where rd: "read i = (chunk, st)" by (cases "read i")
  obtain wn e w1 where wr: "wr w chunk = ((wn, e), w1)" by (metis prod.collapse)
  show ?case
    using Suc.prems Suc.IH [where i = "Suc i"] unfolding upt_reads
    by (subst copy_stream.simps) (cases st; auto simp: rd wr Let_def split: if_splits)
qed simp

text \<open>When the loop over a list of reads is not over after the last one.\<close>

definition takes :: "('w \<Rightarrow> string \<Rightarrow> (nat \<times> bool) \<times> 'w) \<Rightarrow> 'w \<Rightarrow> string \<Rightarrow> bool" where
  "takes wr w chunk \<longleftrightarrow> fst (wr w chunk) = (length chunk, False)"

definition client_after :: "('w \<Rightarrow> string \<Rightarrow> (nat \<times> bool) \<times> 'w) \<Rightarrow> 'w \<Rightarrow> string list \<Rightarrow> 'w" where
  "client_after wr w chunks = foldl (\<lambda>w chunk. if chunk = [] then w else snd (wr w chunk)) w chunks"

lemma client_after_simps [simp]:
  "client_after wr w [] = w"
  "client_after wr w (chunk # chunks) = client_after wr (if chunk = [] then w else snd (wr w chunk)) chunks"
  by (simp_all add: client_after_def)

lemma copy_goes_on:
  "fst (copyAndFlush wr w reads n) = None \<longleftrightarrow>
     (\<forall>j < length reads. snd (reads ! j) = ReadMore \<and>
        (fst (reads ! j) \<noteq> [] \<longrightarrow> takes wr (client_after wr w (map fst (take j reads))) (fst (reads ! j))))"
proof (induction reads arbitrary: w n)
  case (Cons rd reads)
  obtain chunk st where rd: "rd = (chunk, st)" by (cases rd)
  obtain wn e w1 where wr: "wr w chunk = ((wn, e), w1)" by (metis prod.collapse)
  show ?case
    unfolding length_Cons All_less_Suc2
    using Cons.IH [of "if chunk = [] then w else w1" "if chunk = [] then n else wrap64 (n + int wn)"]
    by (cases st) (auto simp: rd wr takes_def Let_def)
qed simp

lemma copy_stream_returns:
  "copy_stream wr w read 0 n = None \<longleftrightarrow>
     (\<forall>j. snd (read j) = ReadMore \<and>
        (fst (read j) \<noteq> [] \<longrightarrow> takes wr (client_after wr w (map (fst \<circ> read) [0..<j])) (fst (read j))))"
proof -
  have "copy_stream wr w read 0 n = None \<longleftrightarrow> (\<forall>m. fst (copyAndFlush wr w (map read [0..<m]) n) = None)"
  proof
    assume stuck: "copy_stream wr w read 0 n = None"
    have "fst (copyAndFlush wr w (map read [0..<m]) n) \<noteq> Some r" for m r
    proof
      assume "fst (copyAndFlush wr w (map read [0..<m]) n) = Some r"
      then obtain w' rest where "copyAndFlush wr w (map read [0..<0 + m]) n = (Some r, w', rest)"
        by (metis add_0 prod.collapse)
      from reads_copy_stream [OF this] stuck show False by simp
    qed
    then show "\<forall>m. fst (copyAndFlush wr w (map read [0..<m]) n) = None" by (metis not_None_eq)
  next
    assume all: "\<forall>m. fst (copyAndFlush wr w (map read [0..<m]) n) = None"
    show "copy_stream wr w read 0 n = None"
    proof (rule ccontr)
      assume "copy_stream wr w read 0 n \<noteq> None"
      then obtain rw where "copy_stream wr w read 0 n = Some rw" by blast
      from copy_stream_reads [OF this] obtain m rest where
        "copyAndFlush wr w (map read [0..<0 + m]) n = (Some (fst rw), snd rw, rest)" by blast
      with all [rule_format, of m] show False by simp
    qed
  qed
  also have "\<dots> \<longleftrightarrow> (\<forall>m. \<forall>j < m. snd (read j) = ReadMore \<and>
        (fst (read j) \<noteq> [] \<longrightarrow> takes wr (client_after wr w (map (fst \<circ> read) [0..<j])) (fst (read j))))"
    by (simp add: copy_goes_on take_map comp_def)
  also have "\<dots> \<longleftrightarrow> (\<forall>j. snd (read j) = ReadMore \<and>
        (fst (read j) \<noteq> [] \<longrightarrow> takes wr (client_after wr w (map (fst \<circ> read) [0..<j])) (fst (read j))))"
    by blast
  finally show ?thesis .
qed

text \<open>The same of a client that takes \<open>rw_room\<close> bytes.\<close>

lemma takes_conn: "takes conn_write w chunk \<longleftrightarrow> length chunk \<le> rw_room w"
  by (auto simp: takes_def conn_write_def write_header_def Let_def)

lemma room_after:
  "length (concat chunks) \<le> rw_room w \<Longrightarrow>
     rw_room (client_after conn_write w chunks) = rw_room w - length (concat chunks)"
proof (induction chunks arbitrary: w)
  case (Cons chunk chunks)
  have "rw_room (snd (conn_write w chunk)) = rw_room w - length chunk" using Cons.prems
    by (simp add: conn_write_def write_header_def Let_def)
  with Cons show ?case by simp
qed simp

lemma copy_stream_room:
  "copy_stream conn_write w read 0 n = None \<longleftrightarrow>
     (\<forall>j. snd (read j) = ReadMore \<and> length (concat (map (fst \<circ> read) [0..<j])) \<le> rw_room w)"
  (is "_ \<longleftrightarrow> (\<forall>j. ?more j \<and> ?fits j)")
proof -
  let ?taken = "\<lambda>j. fst (read j) \<noteq> [] \<longrightarrow>
    takes conn_write (client_after conn_write w (map (fst \<circ> read) [0..<j])) (fst (read j))"
  have step: "?fits j \<Longrightarrow> ?taken j \<longleftrightarrow> ?fits (Suc j)" for j
    using room_after [of "map (fst \<circ> read) [0..<j]" w] by (auto simp: takes_conn)
  have "(\<forall>j. ?taken j) \<longleftrightarrow> (\<forall>j. ?fits j)"
  proof
    assume taken: "\<forall>j. ?taken j"
    have "?fits j" for j
    proof (induction j)
      case (Suc j)
      with taken step show ?case by blast
    qed simp
    then show "\<forall>j. ?fits j" by blast
  next
    assume "\<forall>j. ?fits j"
    with step show "\<forall>j. ?taken j" by blast
  qed
  then show ?thesis unfolding copy_stream_returns by blast
qed

lemma conn_write_room: "conn_write w b = ((n, e), w') \<Longrightarrow> length (rw_body w') + rw_room w' = length (rw_body w) + rw_room w"
  by (auto simp: conn_write_def write_header_def Let_def)

lemma copy_room:
  "copyAndFlush conn_write w reads n = (res, w', rest) \<Longrightarrow>
   length (rw_body w') + rw_room w' = length (rw_body w) + rw_room w"
proof (induction reads arbitrary: w n)
  case (Cons rd reads)
  obtain chunk st where rd: "rd = (chunk, st)" by (cases rd)
  obtain wn e w1 where wr: "conn_write w chunk = ((wn, e), w1)" by (metis prod.collapse)
  from conn_write_room [OF this] Cons wr show ?case
    by (cases st) (auto simp: rd Let_def split: if_splits, (metis)?)
qed simp

text \<open>
  C22. When copying a response to the client ends. Over a body that may go on for ever, the loop
  returns exactly when a read reports the end or a failure, or the client does not take the whole
  of a chunk; a body that never ends is copied for as long as the client takes it. A client that
  takes only so many bytes keeps the loop going for ever only when all the body ever yields is
  that much. When the loop returns, the client got a prefix of the body, no more than it takes,
  counted exactly, and without an error it is the body up to its end.
\<close>

theorem copy_terminates:
  "(copy_stream wr w read 0 0 = None \<longleftrightarrow>
      (\<forall>j. snd (read j) = ReadMore \<and>
        (fst (read j) \<noteq> [] \<longrightarrow> takes wr (client_after wr w (map (fst \<circ> read) [0..<j])) (fst (read j))))) \<and>
   (case copy_stream conn_write client read 0 0 of
      None \<Rightarrow> \<forall>j. snd (read j) = ReadMore \<and> length (concat (map (fst \<circ> read) [0..<j])) \<le> rw_room client
    | Some ((n, e), client') \<Rightarrow>
        (\<exists>sent m. rw_body client' = rw_body client @ sent \<and> length sent \<le> rw_room client \<and>
           prefix sent (concat (map (fst \<circ> read) [0..<m])) \<and> n = wrap64 (int (length sent)) \<and>
           (e = None \<longrightarrow> (\<exists>k. snd (read k) = ReadEOF \<and> sent = concat (map (fst \<circ> read) [0..<Suc k])))))"
proof (cases "copy_stream conn_write client read 0 0")
  case None
  then show ?thesis using copy_stream_returns [of wr w read 0] copy_stream_room [of client read 0] by simp
next
  case (Some rw)
  obtain n e client' where rw: "rw = ((n, e), client')" by (metis prod.collapse)
  from copy_stream_reads [OF Some] obtain m rest where
    c: "copyAndFlush conn_write client (map read [0..<m]) 0 = (Some (n, e), client', rest)"
    by (auto simp: rw)
  have "wrap64 (int 0) = 0" by (simp add: wrap64_def)
  then obtain sent where sent: "rw_body client' = rw_body client @ sent"
    "delivered (map read [0..<m]) 0 (Some (n, e)) sent"
    using conn.copy_and_flush [of client "map read [0..<m]" 0] c by auto
  have room: "length sent \<le> rw_room client" using copy_room [OF c] sent(1) by simp
  have whole: "\<exists>k. snd (read k) = ReadEOF \<and> sent = concat (map (fst \<circ> read) [0..<Suc k])" if "e = None"
  proof -
    obtain pre chunk post where split: "map read [0..<m] = pre @ (chunk, ReadEOF) # post"
      "sent = concat (map fst pre) @ chunk"
      using sent(2) \<open>e = None\<close> unfolding delivered_def by blast
    have k: "length pre < m" using arg_cong [OF split(1), of length] by simp
    have "pre = map read [0..<length pre]" "read (length pre) = (chunk, ReadEOF)"
      using arg_cong [OF split(1), of "take (length pre)"] arg_cong [OF split(1), of "\<lambda>xs. xs ! length pre"] k
      by (simp_all add: take_map)
    moreover from this(1) have "map fst pre = map (fst \<circ> read) [0..<length pre]" by (metis map_map)
    ultimately show ?thesis using split(2) by (intro exI [of _ "length pre"]) simp
  qed
  have "prefix sent (concat (map (fst \<circ> read) [0..<m]))" "n = wrap64 (int (length sent))"
    using sent(2) unfolding delivered_def by simp_all
  with Some rw sent(1) room whole show ?thesis
    using copy_stream_returns [of wr w read 0] by auto
qed

theorem copy_terminates_witness:
  "copy_stream (\<lambda>u chunk. ((length chunk, False), u)) () (\<lambda>_. (''tick'', ReadMore)) 0 0 = None \<and>
   copy_stream conn_write (new_writer 9) (\<lambda>_. (''tick'', ReadMore)) 0 0 \<noteq> None \<and>
   copy_stream conn_write (new_writer 9) (\<lambda>i. if i = 0 then (''tick'', ReadMore) else ([], ReadEOF)) 0 0 \<noteq> None"
proof -
  note c = copy_terminates [where wr = "\<lambda>u chunk. ((length chunk, False), u)" and w = "()"
      and client = "new_writer 9" and read = "\<lambda>_. (''tick'', ReadMore)"]
  have "copy_stream (\<lambda>u chunk. ((length chunk, False), u)) () (\<lambda>_. (''tick'', ReadMore)) 0 0 = None"
    using c by (simp add: takes_def)
  moreover have "copy_stream conn_write (new_writer 9) (\<lambda>_. (''tick'', ReadMore)) 0 0 \<noteq> None"
  proof
    assume "copy_stream conn_write (new_writer 9) (\<lambda>_. (''tick'', ReadMore)) 0 0 = None"
    with c have "length (concat (map (fst \<circ> (\<lambda>_. (''tick'', ReadMore))) [0..<3])) \<le> rw_room (new_writer 9)" by simp
    then show False by (simp add: new_writer_def upt_rec)
  qed
  moreover have "copy_stream conn_write (new_writer 9) (\<lambda>i. if i = 0 then (''tick'', ReadMore) else ([], ReadEOF)) 0 0 \<noteq> None"
    using copy_terminates [where wr = conn_write and w = "new_writer 9"
        and read = "\<lambda>i. if i = 0 then (''tick'', ReadMore) else ([], ReadEOF)"] by (auto dest: spec [of _ 1])
  ultimately show ?thesis by blast
qed

end
