(* ===== verification/Provider_Catalog.thy ===== *)
theory Provider_Catalog
  imports Http_Header "HOL-Library.Char_ord" "HOL-Library.List_Lexorder"
begin

section \<open>Provider catalog (internal/provider/catalog.go)\<close>

text \<open>
  The built-in providers and how each one authenticates: lookup by normalised type name, the
  sorted list of supported types, and \<open>ApplyHeaders\<close>, which writes the provider's headers
  and credential into an upstream request. A \<open>map[string]string\<close> of headers is an
  association list in one iteration order.
\<close>

type_synonym auth_mode = string

definition AuthBearer :: auth_mode where "AuthBearer = ''bearer''"
definition AuthGemini :: auth_mode where "AuthGemini = ''gemini''"
definition AuthAnthropic :: auth_mode where "AuthAnthropic = ''anthropic''"
definition AuthNone :: auth_mode where "AuthNone = ''none''"

lemmas auth_mode_defs = AuthBearer_def AuthGemini_def AuthAnthropic_def AuthNone_def

record provider_spec =
  sp_type :: string
  sp_display_name :: string
  sp_default_base_url :: string
  sp_auth :: auth_mode
  sp_requires_api_key :: bool
  sp_openai_compatible :: bool
  sp_default_headers :: "(string \<times> string) list"

definition zero_spec :: provider_spec where
  "zero_spec = \<lparr>sp_type = [], sp_display_name = [], sp_default_base_url = [], sp_auth = [],
     sp_requires_api_key = False, sp_openai_compatible = False, sp_default_headers = []\<rparr>"

definition catalog :: "(string \<times> provider_spec) list" where
  "catalog =
     [(''gemini'', \<lparr>sp_type = ''gemini'', sp_display_name = ''Google Gemini'',
        sp_default_base_url = ''https://generativelanguage.googleapis.com'', sp_auth = AuthGemini,
        sp_requires_api_key = True, sp_openai_compatible = True, sp_default_headers = []\<rparr>),
      (''openai'', \<lparr>sp_type = ''openai'', sp_display_name = ''OpenAI'',
        sp_default_base_url = ''https://api.openai.com/v1'', sp_auth = AuthBearer,
        sp_requires_api_key = True, sp_openai_compatible = True, sp_default_headers = []\<rparr>),
      (''anthropic'', \<lparr>sp_type = ''anthropic'', sp_display_name = ''Anthropic Claude'',
        sp_default_base_url = ''https://api.anthropic.com'', sp_auth = AuthAnthropic,
        sp_requires_api_key = True, sp_openai_compatible = False, sp_default_headers = [(''Anthropic-Version'', ''2023-06-01'')]\<rparr>),
      (''groq'', \<lparr>sp_type = ''groq'', sp_display_name = ''Groq'',
        sp_default_base_url = ''https://api.groq.com/openai/v1'', sp_auth = AuthBearer,
        sp_requires_api_key = True, sp_openai_compatible = True, sp_default_headers = []\<rparr>),
      (''mistral'', \<lparr>sp_type = ''mistral'', sp_display_name = ''Mistral AI'',
        sp_default_base_url = ''https://api.mistral.ai/v1'', sp_auth = AuthBearer,
        sp_requires_api_key = True, sp_openai_compatible = True, sp_default_headers = []\<rparr>),
      (''openrouter'', \<lparr>sp_type = ''openrouter'', sp_display_name = ''OpenRouter'',
        sp_default_base_url = ''https://openrouter.ai/api/v1'', sp_auth = AuthBearer,
        sp_requires_api_key = True, sp_openai_compatible = True, sp_default_headers = []\<rparr>),
      (''deepseek'', \<lparr>sp_type = ''deepseek'', sp_display_name = ''DeepSeek'',
        sp_default_base_url = ''https://api.deepseek.com'', sp_auth = AuthBearer,
        sp_requires_api_key = True, sp_openai_compatible = True, sp_default_headers = []\<rparr>),
      (''xai'', \<lparr>sp_type = ''xai'', sp_display_name = ''xAI'',
        sp_default_base_url = ''https://api.x.ai/v1'', sp_auth = AuthBearer,
        sp_requires_api_key = True, sp_openai_compatible = True, sp_default_headers = []\<rparr>),
      (''cohere'', \<lparr>sp_type = ''cohere'', sp_display_name = ''Cohere'',
        sp_default_base_url = ''https://api.cohere.com/v2'', sp_auth = AuthBearer,
        sp_requires_api_key = True, sp_openai_compatible = False, sp_default_headers = []\<rparr>),
      (''together'', \<lparr>sp_type = ''together'', sp_display_name = ''Together AI'',
        sp_default_base_url = ''https://api.together.ai/v1'', sp_auth = AuthBearer,
        sp_requires_api_key = True, sp_openai_compatible = True, sp_default_headers = []\<rparr>),
      (''cerebras'', \<lparr>sp_type = ''cerebras'', sp_display_name = ''Cerebras Inference'',
        sp_default_base_url = ''https://api.cerebras.ai/v1'', sp_auth = AuthBearer,
        sp_requires_api_key = True, sp_openai_compatible = True, sp_default_headers = []\<rparr>),
      (''fireworks'', \<lparr>sp_type = ''fireworks'', sp_display_name = ''Fireworks AI'',
        sp_default_base_url = ''https://api.fireworks.ai/inference/v1'', sp_auth = AuthBearer,
        sp_requires_api_key = True, sp_openai_compatible = True, sp_default_headers = []\<rparr>),
      (''openai-compatible'', \<lparr>sp_type = ''openai-compatible'', sp_display_name = ''OpenAI-compatible'',
        sp_default_base_url = '''', sp_auth = AuthBearer,
        sp_requires_api_key = False, sp_openai_compatible = True, sp_default_headers = []\<rparr>),
      (''none'', \<lparr>sp_type = ''none'', sp_display_name = ''No-auth HTTP'',
        sp_default_base_url = '''', sp_auth = AuthNone,
        sp_requires_api_key = False, sp_openai_compatible = False, sp_default_headers = []\<rparr>)]"

definition NormalizeType :: "string \<Rightarrow> string" where
  "NormalizeType val = to_lower (trim_space val)"

definition Lookup :: "string \<Rightarrow> provider_spec \<times> bool" where
  "Lookup kind =
     (case map_of catalog (NormalizeType kind) of None \<Rightarrow> (zero_spec, False) | Some spec \<Rightarrow> (spec, True))"

definition cloneSpec :: "provider_spec \<Rightarrow> provider_spec" where
  "cloneSpec spec =
     spec\<lparr>sp_default_headers := map (\<lambda>(k, v). (k, v)) (sp_default_headers spec)\<rparr>"

definition Supported :: "provider_spec list" where
  "Supported = sort_key sp_type (map (\<lambda>(_, spec). cloneSpec spec) catalog)"

definition isGeminiOpenAIPath :: "string \<Rightarrow> bool" where
  "isGeminiOpenAIPath path = contains_sub (''/'' @ trim_prefix path ''/'') ''/openai/''"

datatype apply_error =
  EmptyHeaderName
| MissingAPIKey string
| UnsupportedAuth string

text \<open>The loop over the configured headers: a blank name is an error.\<close>

fun set_custom_headers :: "(string \<times> string) list \<Rightarrow> header \<Rightarrow> apply_error + header" where
  "set_custom_headers [] h = Inr h"
| "set_custom_headers ((key, val) # custom) h =
     (if trim_space key = [] then Inl EmptyHeaderName
      else set_custom_headers custom (header_set h key val))"

definition ApplyHeaders ::
  "provider_spec \<Rightarrow> string \<Rightarrow> header \<Rightarrow> string \<Rightarrow> (string \<times> string) list \<Rightarrow> apply_error + header" where
  "ApplyHeaders s path h apiKey custom =
     (let h = foldl (\<lambda>h (key, val). header_set h key val) h (sp_default_headers s) in
      bind_res (set_custom_headers custom h) (\<lambda>h.
        if trim_space apiKey = [] then
          (if sp_requires_api_key s then Inl (MissingAPIKey (sp_type s)) else Inr h)
        else if sp_auth s = AuthBearer then
          Inr (header_set h ''Authorization'' (''Bearer '' @ apiKey))
        else if sp_auth s = AuthGemini then
          (if isGeminiOpenAIPath path
           then Inr (header_del (header_set h ''Authorization'' (''Bearer '' @ apiKey))
                       ''X-Goog-Api-Key'')
           else Inr (header_del (header_set h ''X-Goog-Api-Key'' apiKey) ''Authorization''))
        else if sp_auth s = AuthAnthropic then Inr (header_set h ''X-Api-Key'' apiKey)
        else if sp_auth s = AuthNone then Inr h
        else Inl (UnsupportedAuth (sp_auth s))))"


subsection \<open>What \<open>ApplyHeaders\<close> writes\<close>

lemma auth_keys [simp]:
  "canonical_key ''Authorization'' = ''Authorization''"
  "canonical_key ''X-Goog-Api-Key'' = ''X-Goog-Api-Key''"
  "canonical_key ''X-Api-Key'' = ''X-Api-Key''"
  by code_simp+

lemma set_custom_headers_Inr:
  "set_custom_headers custom h = Inr h' \<Longrightarrow>
   h' = foldl (\<lambda>h (key, val). header_set h key val) h custom"
  by (induction custom arbitrary: h) (auto split: if_splits)

lemma set_custom_headers_Inl_iff:
  "(\<exists>e. set_custom_headers custom h = Inl e) \<longleftrightarrow> (\<exists>(k, v) \<in> set custom. trim_space k = [])"
  by (induction custom arbitrary: h) (fastforce split: if_splits)+

text \<open>The header values before the credential is written: the last configured value wins.\<close>

definition configured_values ::
  "provider_spec \<Rightarrow> header \<Rightarrow> (string \<times> string) list \<Rightarrow> string \<Rightarrow> string list" where
  "configured_values s h custom k =
     (case find (\<lambda>(k', v). canonical_key k' = canonical_key k)
             (rev (sp_default_headers s @ custom)) of
        None \<Rightarrow> header_values h k | Some (_, v) \<Rightarrow> [v])"

lemma custom_headers_values:
  assumes "set_custom_headers custom
      (foldl (\<lambda>h (key, val). header_set h key val) h (sp_default_headers s)) = Inr h'"
  shows "header_values h' k = configured_values s h custom k"
  using set_custom_headers_Inr [OF assms]
    hm.vals_put_all [of h "sp_default_headers s @ custom" k]
  by (simp add: configured_values_def)

text \<open>The values of a header in the request that is sent.\<close>

definition upstream_values ::
  "provider_spec \<Rightarrow> string \<Rightarrow> header \<Rightarrow> string \<Rightarrow> (string \<times> string) list \<Rightarrow> string \<Rightarrow> string list" where
  "upstream_values s path h apiKey custom k =
     (let configured = configured_values s h custom k; ck = canonical_key k in
      if trim_space apiKey = [] \<or> sp_auth s = AuthNone then configured
      else if sp_auth s = AuthAnthropic then
        (if ck = ''X-Api-Key'' then [apiKey] else configured)
      else if sp_auth s = AuthGemini \<and> \<not> isGeminiOpenAIPath path then
        (if ck = ''X-Goog-Api-Key'' then [apiKey] else if ck = ''Authorization'' then [] else configured)
      else if ck = ''Authorization'' then [''Bearer '' @ apiKey]
      else if sp_auth s = AuthGemini \<and> ck = ''X-Goog-Api-Key'' then []
      else configured)"

lemma apply_headers_values:
  assumes "ApplyHeaders s path h apiKey custom = Inr h'"
  shows "header_values h' k = upstream_values s path h apiKey custom k"
proof -
  obtain h1 where h1: "set_custom_headers custom
      (foldl (\<lambda>h (key, val). header_set h key val) h (sp_default_headers s)) = Inr h1"
    using assms by (auto simp: ApplyHeaders_def Let_def)
  from assms h1 custom_headers_values [OF h1] show ?thesis
    by (auto simp: ApplyHeaders_def upstream_values_def Let_def auth_mode_defs split: if_splits)
qed

lemma apply_headers_error_iff:
  "(\<exists>e. ApplyHeaders s path h apiKey custom = Inl e) \<longleftrightarrow>
     (\<exists>(k, v) \<in> set custom. trim_space k = []) \<or>
     (trim_space apiKey = [] \<and> sp_requires_api_key s) \<or>
     (trim_space apiKey \<noteq> [] \<and>
        sp_auth s \<notin> {AuthBearer, AuthGemini, AuthAnthropic, AuthNone})"
proof (cases "set_custom_headers custom
    (foldl (\<lambda>h (key, val). header_set h key val) h (sp_default_headers s))")
  case (Inl e)
  then show ?thesis
    using set_custom_headers_Inl_iff by (fastforce simp: ApplyHeaders_def Let_def)
next
  case (Inr h1)
  then have "\<not> (\<exists>(k, v) \<in> set custom. trim_space k = [])"
    using set_custom_headers_Inl_iff by (metis Inl_Inr_False)
  with Inr show ?thesis by (auto simp: ApplyHeaders_def Let_def)
qed


subsection \<open>Properties\<close>

text \<open>
  C17. The credential of a provider request is the provider's own: when \<open>ApplyHeaders\<close>
  succeeds with a key, the header its authentication mode prescribes holds that key and
  nothing else, whatever the request or the configured headers held, and for Gemini the
  other credential header is absent.
\<close>

theorem provider_credential_exact:
  assumes "ApplyHeaders s path h apiKey custom = Inr h'" and "trim_space apiKey \<noteq> []"
  shows "(sp_auth s = AuthBearer \<longrightarrow> header_values h' ''Authorization'' = [''Bearer '' @ apiKey]) \<and>
    (sp_auth s = AuthAnthropic \<longrightarrow> header_values h' ''X-Api-Key'' = [apiKey]) \<and>
    (sp_auth s = AuthGemini \<longrightarrow>
       (header_values h' ''Authorization'', header_values h' ''X-Goog-Api-Key'') =
       (if isGeminiOpenAIPath path then ([''Bearer '' @ apiKey], []) else ([], [apiKey])))"
  using assms(2) apply_headers_values [OF assms(1)]
  by (auto simp: upstream_values_def auth_mode_defs Let_def)

definition gemini_spec :: provider_spec where
  "gemini_spec = fst (Lookup '' Gemini '')"

lemma gemini_spec_auth: "sp_auth gemini_spec = AuthGemini"
  by code_simp

theorem provider_credential_exact_witness:
  "\<exists>h'. ApplyHeaders gemini_spec ''/v1beta/models'' [(''Authorization'', [''Bearer client''])] ''KEY''
      [(''x-goog-api-key'', ''other'')] = Inr h' \<and>
    header_values h' ''Authorization'' = [] \<and> header_values h' ''X-Goog-Api-Key'' = [''KEY'']"
proof -
  have key: "trim_space ''KEY'' \<noteq> []" and path: "\<not> isGeminiOpenAIPath ''/v1beta/models''"
    by code_simp+
  have "\<not> (\<exists>e. ApplyHeaders gemini_spec ''/v1beta/models'' [(''Authorization'', [''Bearer client''])]
      ''KEY'' [(''x-goog-api-key'', ''other'')] = Inl e)"
    unfolding apply_headers_error_iff by code_simp
  then obtain h' where h': "ApplyHeaders gemini_spec ''/v1beta/models''
      [(''Authorization'', [''Bearer client''])] ''KEY'' [(''x-goog-api-key'', ''other'')] = Inr h'"
    by (metis sum.exhaust)
  from provider_credential_exact [OF h' key] path h' show ?thesis by (simp add: gemini_spec_auth)
qed

text \<open>
  The catalogue is coherent: every entry is found under its own type in any case and
  with surrounding blanks, its authentication mode is one \<open>ApplyHeaders\<close> supports, and
  \<open>Supported\<close> lists exactly these entries once each, in ascending order of type.
\<close>

theorem catalog_coherent:
  "map Lookup (map sp_type Supported) = map (\<lambda>spec. (spec, True)) Supported \<and>
   map (\<lambda>spec. Lookup ('' '' @ to_upper (sp_type spec))) Supported = map (\<lambda>spec. (spec, True)) Supported \<and>
   sp_auth ` set Supported \<subseteq> {AuthBearer, AuthGemini, AuthAnthropic, AuthNone} \<and>
   sorted (map sp_type Supported) \<and> distinct (map sp_type Supported) \<and>
   set Supported = snd ` set catalog"
proof -
  have clone: "cloneSpec spec = spec" for spec :: provider_spec by (simp add: cloneSpec_def)
  then have set: "set Supported = snd ` set catalog"
    by (force simp: Supported_def)
  have fresh: "distinct (map sp_type (map snd catalog))" by code_simp
  have sorted: "Supported = sort_key sp_type (map snd catalog)"
    by (simp add: Supported_def clone case_prod_unfold)
  have "\<forall>(k, spec) \<in> set catalog. Lookup (sp_type spec) = (spec, True) \<and>
      Lookup ('' '' @ to_upper (sp_type spec)) = (spec, True) \<and>
      (sp_auth spec = AuthBearer \<or> sp_auth spec = AuthGemini \<or> sp_auth spec = AuthAnthropic \<or>
       sp_auth spec = AuthNone)"
    by code_simp
  moreover have "sorted (map sp_type Supported)" by (simp add: Supported_def)
  moreover have "distinct (map sp_type Supported)"
    using fresh unfolding sorted by (metis distinct_map distinct_sort set_sort)
  ultimately show ?thesis using set by fastforce
qed

text \<open>
  Headers other than credentials are predictable: after \<open>ApplyHeaders\<close> a header that is
  not one of the three credential headers has the last configured value for it, the
  provider's default where nothing is configured, and the request's own values otherwise.
\<close>

theorem provider_headers_configured:
  assumes "ApplyHeaders s path h apiKey custom = Inr h'"
    and "canonical_key k \<notin> {''Authorization'', ''X-Goog-Api-Key'', ''X-Api-Key''}"
  shows "header_values h' k =
    (case find (\<lambda>(k', v). canonical_key k' = canonical_key k) (rev (sp_default_headers s @ custom)) of
       None \<Rightarrow> header_values h k | Some (_, v) \<Rightarrow> [v])"
  using assms(2) apply_headers_values [OF assms(1), of k]
  by (auto simp: upstream_values_def configured_values_def Let_def)

theorem provider_headers_configured_witness:
  "\<exists>h'. ApplyHeaders (fst (Lookup ''anthropic'')) '''' [] ''K'' [(''X-Team'', ''a'')] = Inr h' \<and>
    header_values h' ''anthropic-version'' = [''2023-06-01''] \<and> header_values h' ''x-team'' = [''a'']"
proof -
  have "\<not> (\<exists>e. ApplyHeaders (fst (Lookup ''anthropic'')) '''' [] ''K'' [(''X-Team'', ''a'')] = Inl e)"
    unfolding apply_headers_error_iff by code_simp
  then obtain h' where h': "ApplyHeaders (fst (Lookup ''anthropic'')) '''' [] ''K'' [(''X-Team'', ''a'')] = Inr h'"
    by (metis sum.exhaust)
  have k: "canonical_key ''anthropic-version'' = ''Anthropic-Version''"
    "canonical_key ''x-team'' = ''X-Team''" "canonical_key ''X-Team'' = ''X-Team''"
    "canonical_key ''Anthropic-Version'' = ''Anthropic-Version''" by code_simp+
  have d: "sp_default_headers (fst (Lookup ''anthropic'')) = [(''Anthropic-Version'', ''2023-06-01'')]"
    by code_simp
  show ?thesis
    using h' provider_headers_configured [OF h', of "''anthropic-version''"]
      provider_headers_configured [OF h', of "''x-team''"]
    by (simp add: k d)
qed

end
