(* ===== verification/Config_Parse.thy ===== *)
theory Config_Parse
  imports Config_Types Go_Duration
begin

section \<open>Parsing of configuration values (internal/config/config.go)\<close>

text \<open>
  Sizes, durations, environment references and the trusted-proxy list. An error value says
  which check failed.
\<close>

datatype size_error = SizeNumber parse_error | SizeNegative | SizeOverflow


subsection \<open>Sizes\<close>

definition size_units :: "(string \<times> i64) list" where
  "size_units =
     [(''KiB'', 1024), (''MiB'', 1024 * 1024), (''GiB'', 1024 * 1024 * 1024), (''KB'', 1000),
      (''MB'', 1000 * 1000), (''GB'', 1000 * 1000 * 1000), (''B'', 1)]"

fun parse_units :: "(string \<times> i64) list \<Rightarrow> string \<Rightarrow> size_error + i64" where
  "parse_units [] s =
     (case parse_int64 s of
        Inl e \<Rightarrow> Inl (SizeNumber e)
      | Inr n \<Rightarrow> (if n < 0 then Inl SizeNegative else Inr n))"
| "parse_units ((sfx, mult) # units) s =
     (if suffix sfx s then
        (let numeric = trim_space (trim_suffix s sfx) in
         case parse_int64 numeric of
           Inl e \<Rightarrow> Inl (SizeNumber e)
         | Inr n \<Rightarrow>
             (if n < 0 then Inl SizeNegative
              else if (2 ^ 63 - 1) div mult < n then Inl SizeOverflow
              else Inr (wrap64 (n * mult))))
      else parse_units units s)"

definition parseBytes :: "string \<Rightarrow> size_error + i64" where
  "parseBytes s =
     (let s = trim_space s in
      if s = '''' \<or> s = ''0'' then Inr 0 else parse_units size_units s)"


subsection \<open>Durations\<close>

definition parseDuration :: "string \<Rightarrow> unit + duration" where
  "parseDuration s =
     (if trim_space s = '''' \<or> s = ''0'' \<or> s = ''0s'' then Inr 0
      else (case time_parse_duration s of None \<Rightarrow> Inl () | Some d \<Rightarrow> Inr d))"

lemma parseDuration_range: "parseDuration s = Inr d \<Longrightarrow> in_i64 d"
  by (auto simp: parseDuration_def time_parse_duration_range split: if_splits option.splits)


subsection \<open>Environment references\<close>

text \<open>
  \<open>envPattern.ReplaceAllStringFunc\<close>: every leftmost match of a dollar sign and a braced
  identifier is replaced by the variable's value (empty when it is not set); replaced text
  is not scanned again.
\<close>

definition env_first :: "char \<Rightarrow> bool" where
  "env_first c \<longleftrightarrow> is_upper c \<or> is_lower c \<or> c = CHR ''_''"

definition env_char :: "char \<Rightarrow> bool" where
  "env_char c \<longleftrightarrow> env_first c \<or> is_digit c"

text \<open>The name of the reference a text starts with, and the text after the reference.\<close>

definition env_match :: "string \<Rightarrow> (string \<times> string) option" where
  "env_match s =
     (if prefix ''${'' s then
        (let name = takeWhile env_char (drop 2 s); rest = dropWhile env_char (drop 2 s) in
         if name \<noteq> [] \<and> env_first (hd name) \<and> prefix ''}'' rest then Some (name, tl rest) else None)
      else None)"

lemma env_match_shorter: "env_match s = Some (name, rest) \<Longrightarrow> length rest < length s"
proof -
  assume m: "env_match s = Some (name, rest)"
  then have "rest = tl (dropWhile env_char (drop 2 s))" "prefix ''${'' s"
    by (auto simp: env_match_def Let_def split: if_splits)
  then show ?thesis
    using length_dropWhile_le [of env_char "drop 2 s"] by (auto elim!: prefixE)
qed

function expand_env :: "(string \<Rightarrow> string) \<Rightarrow> string \<Rightarrow> string" where
  "expand_env getenv s =
     (case s of
        [] \<Rightarrow> []
      | c # cs \<Rightarrow>
          (case env_match s of
             Some (name, rest) \<Rightarrow> getenv name @ expand_env getenv rest
           | None \<Rightarrow> c # expand_env getenv cs))"
  by pat_completeness auto
termination
  by (relation "measure (\<lambda>(_, s). length s)") (auto dest: env_match_shorter)

declare expand_env.simps [simp del]

lemma expand_env_Nil [simp]: "expand_env getenv [] = []"
  by (simp add: expand_env.simps)


subsection \<open>Trusted proxies\<close>

datatype proxy_error = ProxyEmpty | ProxyCIDR string | ProxyIP string

definition parse_proxy :: "string \<Rightarrow> proxy_error + ip_prefix" where
  "parse_proxy raw =
     (let raw = trim_space raw in
      if raw = '''' then Inl ProxyEmpty
      else bind_res
        (if CHR ''/'' \<in> set raw then
           (case parse_prefix raw of None \<Rightarrow> Inl (ProxyCIDR raw) | Some p \<Rightarrow> Inr (prefix_masked p))
         else (case parse_addr raw of
             None \<Rightarrow> Inl (ProxyIP raw)
           | Some a \<Rightarrow> (let a = addr_unmap a in Inr (prefix_from a (bit_len a)))))
        (\<lambda>prefix.
           Inr (if is_4in6 (pf_addr prefix) then
                  (let addr = addr_unmap (pf_addr prefix); bits = int (pf_bits prefix) - 96;
                       bits = (if bits < 0 then 0 else bits)
                   in prefix_masked (prefix_from addr (nat bits)))
                else prefix)))"

definition parseTrustedProxies :: "string list \<Rightarrow> proxy_error + ip_prefix list" where
  "parseTrustedProxies values =
     loop_res (\<lambda>raw out.
        bind_res (parse_proxy raw) (\<lambda>prefix.
          Inr (if prefix \<in> set out then out else out @ [prefix]))) values []"


subsection \<open>What the parsers guarantee\<close>

lemma parse_units_bounds:
  assumes "\<forall>(u, m) \<in> set units. 0 < m" "parse_units units s = Inr n"
  shows "0 \<le> n \<and> n \<le> max_i64"
  using assms
proof (induction units s rule: parse_units.induct)
  case (1 s)
  then show ?case
    using parse_int64_range [of s] by (auto simp: i64_bounds split: sum.splits if_splits)
next
  case (2 sfx mult units s)
  show ?case
  proof (cases "suffix sfx s")
    case True
    let ?num = "trim_space (trim_suffix s sfx)"
    obtain k where k0: "parse_int64 ?num = Inr k"
      using 2(3) True by (cases "parse_int64 ?num") simp_all
    then have k: "0 \<le> k" "k \<le> (2 ^ 63 - 1) div mult" "n = wrap64 (k * mult)"
      using 2(3) True by (simp_all split: if_splits)
    have "0 < mult" using 2 by simp
    then have "k * mult \<le> 2 ^ 63 - 1"
      using k(2) int_div_less_iff [of mult "2 ^ 63 - 1" k] by (simp add: not_less [symmetric])
    moreover have "0 \<le> k * mult" using k(1) \<open>0 < mult\<close> by simp
    ultimately show ?thesis using k(3) by (simp add: i64_bounds wrap64_id)
  next
    case False
    with 2 show ?thesis by simp
  qed
qed


lemma ipv4_string_chars:
  "c \<in> set (ipv4_string w) \<Longrightarrow> is_digit c \<or> c = CHR ''.''"
  by (auto simp: ipv4_string_def Let_def pos_imp_zdiv_nonneg_iff dest: itoa_digits [rotated])

lemma parse_proxy_ipv4: "parse_proxy (addr_string (IPv4 w)) = Inr (prefix_from (IPv4 w) 32)"
proof -
  let ?s = "ipv4_string w"
  have "\<forall>c \<in> set ?s. \<not> space_byte c \<and> c \<noteq> CHR ''/''"
  proof
    fix c assume "c \<in> set ?s"
    then have "is_digit c \<or> c = CHR ''.''" by (rule ipv4_string_chars)
    then show "\<not> space_byte c \<and> c \<noteq> CHR ''/''" by (auto simp: space_byte_iff is_digit_def)
  qed
  then have "trim_space ?s = ?s" "CHR ''/'' \<notin> set ?s" by (auto intro: trim_space_all_visible)
  moreover have "?s \<noteq> []" by (simp add: ipv4_string_def Let_def)
  ultimately show ?thesis
    using parse_addr_ipv4 [of w]
    by (simp add: parse_proxy_def addr_string_def Let_def addr_unmap_def bit_len_def prefix_from_def
        is_4in6_def)
qed

text \<open>The accepted proxies: the ranges the entries denote, each once.\<close>

lemma parse_proxy_wf: "parse_proxy raw = Inr p \<Longrightarrow> prefix_masked p = p"
  by (auto simp: parse_proxy_def Let_def prefix_masked_host split: if_splits option.splits)

lemma parseTrustedProxies_spec:
  "parseTrustedProxies vs = Inr ps \<Longrightarrow>
   distinct ps \<and> set ps = {p. \<exists>v \<in> set vs. parse_proxy v = Inr p} \<and>
   (\<forall>v \<in> set vs. \<exists>p. parse_proxy v = Inr p)"
  unfolding parseTrustedProxies_def
  by (erule loop_res_inv [where P = "\<lambda>vs ps. distinct ps \<and>
        set ps = {p. \<exists>v \<in> set vs. parse_proxy v = Inr p} \<and> (\<forall>v \<in> set vs. \<exists>p. parse_proxy v = Inr p)"])
     (auto split: if_splits)

lemma size_units_pos: "\<forall>(u, m) \<in> set size_units. 0 < m"
  by (simp add: size_units_def)

lemma parseBytes_range: "parseBytes s = Inr n \<Longrightarrow> 0 \<le> n \<and> n \<le> max_i64"
  using parse_units_bounds [OF size_units_pos]
  by (auto simp: parseBytes_def Let_def max_i64_def split: if_splits)

text \<open>A number and a unit: how the search through the units ends.\<close>

lemma visible_digits:
  assumes "0 \<le> n" "c \<in> set (itoa n)"
  shows "is_digit c" "\<not> space_byte c"
proof -
  show "is_digit c" using assms nat_digits_digits [of "nat n"] by (auto simp: itoa_def)
  then show "\<not> space_byte c" by (rule is_digit_not_space)
qed

lemma parse_units_found:
  assumes "0 \<le> n" "in_i64 n"
  shows "parse_units ((sfx, mult) # units) (itoa n @ sfx) =
    (if (2 ^ 63 - 1) div mult < n then Inl SizeOverflow else Inr (wrap64 (n * mult)))"
proof -
  have "trim_space (itoa n) = itoa n"
    using visible_digits [OF assms(1)] by (intro trim_space_all_visible) blast
  with assms show ?thesis by (simp add: parse_int64_itoa Let_def suffix_def)
qed

lemma parse_units_skip:
  "\<not> suffix sfx s \<Longrightarrow> parse_units ((sfx, mult) # units) s = parse_units units s"
  by simp

lemma size_unit_cases:
  assumes "0 \<le> n" "in_i64 n" "(u, mult) \<in> set size_units"
  shows "parse_units size_units (itoa n @ u) =
    (if (2 ^ 63 - 1) div mult < n then Inl SizeOverflow else Inr (wrap64 (n * mult)))"
proof -
  obtain c cs where d: "rev (itoa n) = c # cs"
    using length_itoa [OF assms(2)] by (cases "rev (itoa n)") auto
  then have "c \<in> set (itoa n)" by (metis list.set_intros(1) set_rev)
  then have c: "c \<noteq> CHR ''K''" "c \<noteq> CHR ''M''" "c \<noteq> CHR ''G''" "c \<noteq> CHR ''i''"
    using visible_digits(1) [OF assms(1), of c] by (auto simp: is_digit_def)
  have ns: "suffix sfx (itoa n @ u) \<longleftrightarrow> prefix (rev sfx) (rev u @ c # cs)" for sfx u
    by (simp add: suffix_to_prefix d)
  note found = parse_units_found [OF assms(1,2)]
  have nsB: "\<not> suffix sfx (itoa n @ ''B'')"
    if "sfx \<in> {''KiB'', ''MiB'', ''GiB'', ''KB'', ''MB'', ''GB''}" for sfx
    unfolding ns using that c by auto
  consider "u = ''KiB''" "mult = 1024" | "u = ''MiB''" "mult = 1024 * 1024"
    | "u = ''GiB''" "mult = 1024 * 1024 * 1024" | "u = ''KB''" "mult = 1000"
    | "u = ''MB''" "mult = 1000 * 1000" | "u = ''GB''" "mult = 1000 * 1000 * 1000"
    | "u = ''B''" "mult = 1"
    using assms(3) by (auto simp: size_units_def)
  then show ?thesis
  proof cases
    case 7
    show ?thesis
      unfolding 7 size_units_def by (simp add: parse_units_skip nsB found del: parse_units.simps suffix_snoc)
  qed (simp_all only: size_units_def, simp_all add: parse_units_skip ns c found del: parse_units.simps)
qed

lemma parseBytes_unit:
  assumes "0 \<le> n" "in_i64 n" "(u, mult) \<in> set size_units"
  shows "parseBytes (itoa n @ u) =
    (if n * mult \<le> max_i64 then Inr (n * mult) else Inl SizeOverflow)"
proof -
  have u: "u \<noteq> []" "\<forall>c \<in> set u. \<not> space_byte c" "u \<noteq> ''0''"
    and mult: "0 < mult"
    using assms(3) by (auto simp: size_units_def space_byte_iff)
  have "trim_space (itoa n @ u) = itoa n @ u"
    using u visible_digits(2) [OF assms(1)] by (intro trim_space_all_visible) auto
  moreover have "itoa n @ u \<noteq> ''0''"
  proof
    assume "itoa n @ u = ''0''"
    then have "length (itoa n) + length u = 1" by (metis length_append length_Cons list.size(3) One_nat_def)
    then show False using u(1) length_itoa [OF assms(2)] by (cases u) auto
  qed
  moreover have "(2 ^ 63 - 1) div mult < n \<longleftrightarrow> \<not> n * mult \<le> max_i64"
    using int_div_less_iff [OF mult] by (simp add: max_i64_def not_le)
  moreover have "n * mult \<le> max_i64 \<Longrightarrow> wrap64 (n * mult) = n * mult"
    using assms(1) mult by (intro wrap64_id) (simp add: i64_bounds order_trans [of _ 0])
  ultimately show ?thesis
    using u(1) size_unit_cases [OF assms] by (simp add: parseBytes_def Let_def)
qed


subsection \<open>Properties\<close>

text \<open>
  A size is the number it denotes or an error, never a wrapped value: \<open>parseBytes\<close> of a
  number followed by any supported unit is the exact product when it fits in \<open>int64\<close> and
  the overflow error otherwise, and whatever text is given, an accepted size is between 0
  and the largest \<open>int64\<close>.
\<close>

theorem parse_bytes_exact:
  assumes "0 \<le> n" and "in_i64 n" and "(u, mult) \<in> set size_units"
  shows "parseBytes (itoa n @ u) =
      (if n * mult \<le> max_i64 then Inr (n * mult) else Inl SizeOverflow) \<and>
    (\<forall>s k. parseBytes s = Inr k \<longrightarrow> 0 \<le> k \<and> k \<le> max_i64)"
  using parseBytes_unit [OF assms] parseBytes_range by blast

theorem parse_bytes_exact_witness:
  "parseBytes (itoa 32 @ ''MiB'') = Inr 33554432 \<and>
   parseBytes (itoa 9000000000 @ ''GiB'') = Inl SizeOverflow"
  using parse_bytes_exact [of 32 "''MiB''" "1024 * 1024"]
    parse_bytes_exact [of 9000000000 "''GiB''" "1024 * 1024 * 1024"]
  by (simp add: i64_bounds size_units_def)

text \<open>
  Environment references are expanded in place and nothing else is touched: text before
  a reference that holds no dollar sign is kept, a reference to a variable becomes its
  value, which is not scanned for further references, and the rest is expanded in turn.
\<close>

theorem expand_env_reference:
  assumes "CHR ''$'' \<notin> set pre" and "name \<noteq> ''''" and "env_first (hd name)"
    and "\<forall>c \<in> set name. env_char c"
  shows "expand_env getenv (pre @ ''${'' @ name @ ''}'' @ rest) =
    pre @ getenv name @ expand_env getenv rest"
  using assms(1)
proof (induction pre)
  case Nil
  have stop: "\<not> env_char CHR ''}''" by code_simp
  have "takeWhile env_char (name @ CHR ''}'' # rest) = name"
    "dropWhile env_char (name @ CHR ''}'' # rest) = CHR ''}'' # rest"
    using assms(4) stop by (simp_all add: takeWhile_append dropWhile_append)
  then have "env_match (''${'' @ name @ ''}'' @ rest) = Some (name, rest)"
    using assms(2,3) by (simp add: env_match_def)
  then show ?case by (simp add: expand_env.simps [of getenv "CHR ''$'' # _"])
next
  case (Cons c pre)
  then have "env_match (c # pre @ ''${'' @ name @ ''}'' @ rest) = None" by (simp add: env_match_def)
  with Cons show ?case by (simp add: expand_env.simps [of getenv "c # _"])
qed

theorem expand_env_reference_witness:
  "expand_env (\<lambda>v. if v = ''KEY'' then ''${X}'' else '''') ''k: ${KEY}!'' = ''k: ${X}!''"
proof -
  have chars: "env_first CHR ''K''" "\<forall>c \<in> set ''KEY''. env_char c" by code_simp+
  have "expand_env g ''!'' = ''!''" for g
    by (simp add: expand_env.simps [of g "_ # _"] env_match_def)
  then show ?thesis
    using expand_env_reference [of "''k: ''" "''KEY''" "\<lambda>v. if v = ''KEY'' then ''${X}'' else ''''" "''!''"]
      chars by simp
qed


text \<open>
  The trusted-proxy list is read as the union of the ranges its entries denote: the
  result has no duplicates, every prefix is in masked form, an address is in the list
  exactly when it is in the range of some entry, and an entry that is a plain IPv4 address
  trusts that address and no other.
\<close>

theorem trusted_proxies_union:
  assumes "parseTrustedProxies vs = Inr ps"
  shows "distinct ps \<and> (\<forall>p \<in> set ps. prefix_masked p = p) \<and>
    (\<forall>a. (\<exists>p \<in> set ps. prefix_contains p a) \<longleftrightarrow>
         (\<exists>v \<in> set vs. \<exists>p. parse_proxy v = Inr p \<and> prefix_contains p a)) \<and>
    (\<forall>w. addr_string (IPv4 w) \<in> set vs \<longrightarrow>
       (\<exists>p \<in> set ps. \<forall>b. prefix_contains p b \<longleftrightarrow> b = IPv4 w))"
proof -
  note spec = parseTrustedProxies_spec [OF assms]
  have host: "parse_proxy (addr_string (IPv4 w)) = Inr (prefix_from (IPv4 w) 32)" for w
    by (rule parse_proxy_ipv4)
  have "\<exists>p \<in> set ps. \<forall>b. prefix_contains p b \<longleftrightarrow> b = IPv4 w"
    if "addr_string (IPv4 w) \<in> set vs" for w
    using spec that host [of w] prefix_contains_host [of "IPv4 w"]
    by (auto simp: bit_len_def addr_zone_def)
  with spec parse_proxy_wf show ?thesis by blast
qed

theorem trusted_proxies_union_witness:
  "\<exists>ps. parseTrustedProxies [''10.0.0.1'', ''10.0.0.0/8''] = Inr ps \<and> distinct ps \<and>
     (\<exists>p \<in> set ps. prefix_contains p (IPv4 0x0A010203))"
proof -
  have two: "parse_proxy ''10.0.0.1'' = Inr \<lparr>pf_addr = IPv4 0x0A000001, pf_bits = 32\<rparr>"
    "parse_proxy ''10.0.0.0/8'' = Inr \<lparr>pf_addr = IPv4 0x0A000000, pf_bits = 8\<rparr>" by code_simp+
  then obtain ps where ps: "parseTrustedProxies [''10.0.0.1'', ''10.0.0.0/8''] = Inr ps"
    by (simp add: parseTrustedProxies_def)
  have "prefix_contains \<lparr>pf_addr = IPv4 0x0A000000, pf_bits = 8\<rparr> (IPv4 0x0A010203)" by code_simp
  with trusted_proxies_union [OF ps] two ps show ?thesis by auto
qed

end
