(* ===== verification/Config_Defaults.thy ===== *)
theory Config_Defaults
  imports Config_Parse Provider_Catalog
begin

section \<open>Defaults and secret files (internal/config/config.go)\<close>

text \<open>
  What \<open>Load\<close> does between decoding the YAML and validating: \<open>applyDefaults\<close> field by field,
  the legacy single-provider section, and the secrets that are read from files. A file
  system is a function from paths to contents, \<open>None\<close> for a file that cannot be read.
\<close>


subsection \<open>applyDefaults\<close>

definition or_default :: "string \<Rightarrow> string \<Rightarrow> string" where
  "or_default s d = (if s = '''' then d else s)"

definition default_list :: "string list \<Rightarrow> string list \<Rightarrow> string list" where
  "default_list xs d = (if xs = [] then d else xs)"

definition normalize_origin :: "string \<Rightarrow> string" where
  "normalize_origin origin =
     (let origin = trim_space origin
      in if origin \<noteq> ''*'' then trim_suffix origin ''/'' else origin)"

definition cors_defaults :: "cors_config \<Rightarrow> cors_config" where
  "cors_defaults c =
     (let c = (if co_enabled c = None then c\<lparr>co_enabled := Some True\<rparr> else c);
          c = c\<lparr>co_origins := default_list (co_origins c) [''*''],
                co_methods := default_list (co_methods c)
                  [''GET'', ''POST'', ''PUT'', ''PATCH'', ''DELETE'', ''OPTIONS''],
                co_headers := default_list (co_headers c)
                  [''Authorization'', ''Content-Type'', ''X-Request-ID''],
                co_max_age := or_default (co_max_age c) ''10m''\<rparr>
      in c\<lparr>co_origins := map normalize_origin (co_origins c),
           co_methods := map (\<lambda>m. to_upper (trim_space m)) (co_methods c),
           co_headers := map trim_space (co_headers c)\<rparr>)"

definition server_defaults :: "server_config \<Rightarrow> server_config" where
  "server_defaults s =
     s\<lparr>sv_listen := or_default (sv_listen s) '':8080'',
       sv_read_timeout := or_default (sv_read_timeout s) ''30s'',
       sv_write_timeout := or_default (sv_write_timeout s) ''0s'',
       sv_idle_timeout := or_default (sv_idle_timeout s) ''120s'',
       sv_body_limit := or_default (sv_body_limit s) ''32MiB'',
       sv_trusted_proxies := map trim_space (sv_trusted_proxies s),
       sv_cors := cors_defaults (sv_cors s)\<rparr>"

text \<open>\<open>DefaultRedisRateLimitTimeout.String()\<close> and \<open>DefaultCircuitOpenFor.String()\<close>.\<close>

definition redis_timeout_text :: string where "redis_timeout_text = ''2s''"
definition circuit_open_for_text :: string where "circuit_open_for_text = ''30s''"

definition rate_limit_defaults :: "rate_limit_config \<Rightarrow> rate_limit_config" where
  "rate_limit_defaults c =
     (let r = rl_redis c;
          r = r\<lparr>rc_url := trim_space (rc_url r), rc_url_file := trim_space (rc_url_file r),
                rc_key_prefix := or_default (trim_space (rc_key_prefix r)) DefaultRedisRateLimitPrefix,
                rc_timeout := or_default (rc_timeout r) redis_timeout_text\<rparr>
      in c\<lparr>rl_backend := or_default (to_lower (trim_space (rl_backend c))) DefaultRateLimitBackend,
           rl_redis := r\<rparr>)"

definition provider_defaults :: "provider_config \<Rightarrow> provider_config" where
  "provider_defaults p =
     (let p = p\<lparr>pc_name := trim_space (pc_name p), pc_type := NormalizeType (pc_type p),
                pc_api_key_file := trim_space (pc_api_key_file p)\<rparr>;
          p = p\<lparr>pc_type := or_default (pc_type p) ''openai-compatible''\<rparr>;
          (spec, ok) = Lookup (pc_type p);
          p = (if ok \<and> pc_base_url p = '''' then p\<lparr>pc_base_url := sp_default_base_url spec\<rparr> else p);
          p = p\<lparr>pc_base_url := trim_right_byte CHR ''/'' (trim_space (pc_base_url p)),
                pc_timeout := or_default (pc_timeout p) ''0s''\<rparr>;
          b = pc_circuit p;
          b = (if cc_enabled b = None then b\<lparr>cc_enabled := Some True\<rparr> else b);
          b = (if cc_threshold b = 0 then b\<lparr>cc_threshold := DefaultCircuitFailureThreshold\<rparr> else b);
          b = b\<lparr>cc_open_for := or_default (cc_open_for b) circuit_open_for_text\<rparr>
      in p\<lparr>pc_circuit := b\<rparr>)"

text \<open>The zero values of the embedded structs.\<close>

definition zero_circuit_config :: circuit_config where
  "zero_circuit_config = \<lparr>cc_enabled = None, cc_threshold = 0, cc_open_for = []\<rparr>"

definition legacy_provider :: "upstream_config \<Rightarrow> provider_config" where
  "legacy_provider u =
     \<lparr>pc_name = ''gemini'', pc_type = ''gemini'', pc_base_url = up_base_url u,
      pc_api_key = up_api_key u, pc_api_key_file = up_api_key_file u, pc_timeout = up_timeout u,
      pc_headers = [], pc_circuit = zero_circuit_config\<rparr>"

definition syncLegacyUpstream :: "config \<Rightarrow> config" where
  "syncLegacyUpstream cfg =
     (case find (\<lambda>p. pc_name p = cf_default_provider cfg) (cf_providers cfg) of
        None \<Rightarrow> cfg
      | Some p \<Rightarrow> cfg\<lparr>cf_upstream := \<lparr>up_base_url = pc_base_url p, up_api_key = pc_api_key p,
          up_api_key_file = pc_api_key_file p, up_timeout = pc_timeout p\<rparr>\<rparr>)"

definition legacy_defaults :: "config \<Rightarrow> config" where
  "legacy_defaults cfg =
     (if cf_providers cfg = [] then
        (let u = cf_upstream cfg;
             u = u\<lparr>up_base_url := or_default (up_base_url u) ''https://generativelanguage.googleapis.com'',
                   up_timeout := or_default (up_timeout u) ''0s''\<rparr>
         in cfg\<lparr>cf_upstream := u, cf_providers := [legacy_provider u],
                cf_default_provider := or_default (cf_default_provider cfg) ''gemini''\<rparr>)
      else cfg)"

definition applyDefaults :: "config \<Rightarrow> config" where
  "applyDefaults cfg =
     (let cfg = cfg\<lparr>cf_server := server_defaults (cf_server cfg)\<rparr>;
          cfg = (if lg_recent (cf_logging cfg) \<le> 0
                 then cfg\<lparr>cf_logging := (cf_logging cfg)\<lparr>lg_recent := 300\<rparr>\<rparr> else cfg);
          cfg = cfg\<lparr>cf_operations :=
                  \<lparr>op_token = trim_space (op_token (cf_operations cfg)),
                   op_token_file = trim_space (op_token_file (cf_operations cfg))\<rparr>,
                cf_rate_limit := rate_limit_defaults (cf_rate_limit cfg)\<rparr>;
          cfg = legacy_defaults cfg;
          cfg = cfg\<lparr>cf_providers := map provider_defaults (cf_providers cfg),
                    cf_clients := map (\<lambda>c. c\<lparr>cl_token_file := trim_space (cl_token_file c)\<rparr>)
                      (cf_clients cfg)\<rparr>;
          cfg = (if cf_default_provider cfg = '''' \<and> cf_providers cfg \<noteq> []
                 then cfg\<lparr>cf_default_provider := pc_name (hd (cf_providers cfg))\<rparr> else cfg)
      in syncLegacyUpstream cfg)"


subsection \<open>Paths and secret files\<close>

text \<open>
  \<open>path/filepath\<close> on Unix: \<open>Clean\<close> processes the elements of a path lexically, \<open>Join\<close>
  cleans the concatenation, \<open>Dir\<close> cleans what precedes the last slash.
\<close>

definition is_abs :: "string \<Rightarrow> bool" where "is_abs p = prefix ''/'' p"

fun clean_elems :: "bool \<Rightarrow> string list \<Rightarrow> string list \<Rightarrow> string list" where
  "clean_elems rooted out [] = out"
| "clean_elems rooted out (e # es) =
     (if e = [] \<or> e = ''.'' then clean_elems rooted out es
      else if e = ''..'' then
        (if out \<noteq> [] \<and> last out \<noteq> ''..'' then clean_elems rooted (butlast out) es
         else if rooted then clean_elems rooted out es
         else clean_elems rooted (out @ [''..'']) es)
      else clean_elems rooted (out @ [e]) es)"

definition path_clean :: "string \<Rightarrow> string" where
  "path_clean p =
     (let s = join_with ''/'' (clean_elems (is_abs p) [] (split_on CHR ''/'' p)) in
      if is_abs p then ''/'' @ s else if s = [] then ''.'' else s)"

definition path_join :: "string \<Rightarrow> string \<Rightarrow> string" where
  "path_join a b = (if a = [] then (if b = [] then [] else path_clean b) else path_clean (a @ ''/'' @ b))"

definition path_dir :: "string \<Rightarrow> string" where
  "path_dir p = path_clean (rev (dropWhile (\<lambda>c. c \<noteq> CHR ''/'') (rev p)))"

type_synonym file_system = "string \<Rightarrow> string option"

datatype secret_error = SecretUnreadable | SecretEmpty

definition readSecretFile :: "file_system \<Rightarrow> string \<Rightarrow> string \<Rightarrow> secret_error + string" where
  "readSecretFile fs baseDir name =
     (let path = (if is_abs name then name else path_join baseDir name) in
      case fs path of
        None \<Rightarrow> Inl SecretUnreadable
      | Some b \<Rightarrow>
          (let secret = trim_space b in if secret = '''' then Inl SecretEmpty else Inr secret))"

datatype config_error =
  ReadConfig
| ParseConfig
| SecretConflict string string
| SecretFile string string secret_error
| BadDuration string
| BadSize size_error
| BadProxies proxy_error
| Invalid string string

text \<open>A secret that may be given directly or in a file, never both.\<close>

definition resolve_secret ::
  "file_system \<Rightarrow> string \<Rightarrow> string \<Rightarrow> string \<Rightarrow> bool \<Rightarrow> string \<Rightarrow> string \<Rightarrow> config_error + string" where
  "resolve_secret fs baseDir kind name given val file =
     (if given \<and> file \<noteq> '''' then Inl (SecretConflict kind name)
      else if file = '''' then Inr val
      else (case readSecretFile fs baseDir file of
          Inl e \<Rightarrow> Inl (SecretFile kind name e)
        | Inr secret \<Rightarrow> Inr secret))"

text \<open>A range loop that updates every element in place, stopping at the first error.\<close>

fun map_res :: "('a \<Rightarrow> 'e + 'b) \<Rightarrow> 'a list \<Rightarrow> 'e + 'b list" where
  "map_res f [] = Inr []"
| "map_res f (x # xs) = bind_res (f x) (\<lambda>y. bind_res (map_res f xs) (\<lambda>ys. Inr (y # ys)))"

definition resolveSecretFiles :: "file_system \<Rightarrow> string \<Rightarrow> config \<Rightarrow> config_error + config" where
  "resolveSecretFiles fs baseDir cfg =
     bind_res (map_res (\<lambda>p.
         bind_res (resolve_secret fs baseDir ''provider'' (pc_name p)
             (trim_space (pc_api_key p) \<noteq> '''') (pc_api_key p) (pc_api_key_file p))
           (\<lambda>key. Inr (p\<lparr>pc_api_key := key\<rparr>))) (cf_providers cfg)) (\<lambda>ps.
     bind_res (map_res (\<lambda>c.
         bind_res (resolve_secret fs baseDir ''client'' (cl_name c)
             (trim_space (cl_token c) \<noteq> '''') (cl_token c) (cl_token_file c))
           (\<lambda>token. Inr (c\<lparr>cl_token := token\<rparr>))) (cf_clients cfg)) (\<lambda>cs.
     bind_res (resolve_secret fs baseDir ''operations'' ''''
         (op_token (cf_operations cfg) \<noteq> '''') (op_token (cf_operations cfg))
         (op_token_file (cf_operations cfg))) (\<lambda>op.
     bind_res (resolve_secret fs baseDir ''redis'' ''''
         (rc_url (rl_redis (cf_rate_limit cfg)) \<noteq> '''') (rc_url (rl_redis (cf_rate_limit cfg)))
         (rc_url_file (rl_redis (cf_rate_limit cfg)))) (\<lambda>redis_url.
     Inr (cfg\<lparr>cf_providers := ps, cf_clients := cs,
              cf_operations := (cf_operations cfg)\<lparr>op_token := op\<rparr>,
              cf_rate_limit := (cf_rate_limit cfg)\<lparr>rl_redis :=
                (rl_redis (cf_rate_limit cfg))\<lparr>rc_url := redis_url\<rparr>\<rparr>\<rparr>)))))"

end
