(* ===== verification/Config_Validate.thy ===== *)
theory Config_Validate
  imports Config_Defaults Go_Url
begin

section \<open>Validation (internal/config/config.go, telemetry.go, logging_config.go)\<close>

text \<open>
  Every check of \<open>validate\<close> in its order; an error is \<open>Invalid what name\<close>. The two
  \<open>UnmarshalYAML\<close> methods take the decoded section; the telemetry keys are known to be in
  the allowed set by then.
\<close>


subsection \<open>Names and URLs\<close>

text \<open>\<open>providerNamePattern\<close>: a letter or digit, then letters, digits, dot, underscore, dash.\<close>

definition valid_provider_name :: "string \<Rightarrow> bool" where
  "valid_provider_name s =
     (s \<noteq> [] \<and> is_alnum (hd s) \<and>
      list_all (\<lambda>c. is_alnum c \<or> c = CHR ''.'' \<or> c = CHR ''_'' \<or> c = CHR ''-'') (tl s))"

definition http_url :: "url \<Rightarrow> bool" where
  "http_url u = (url_host u \<noteq> '''' \<and> (url_scheme u = ''http'' \<or> url_scheme u = ''https''))"

definition bare_url :: "url \<Rightarrow> bool" where
  "bare_url u = (url_user u = None \<and> url_raw_query u = '''' \<and> url_fragment u = '''')"

definition check_url :: "string \<Rightarrow> string \<Rightarrow> string \<Rightarrow> config_error + unit" where
  "check_url what name raw =
     (case url_parse raw of
        None \<Rightarrow> Inl (Invalid (what @ '' must be an absolute http(s) URL'') name)
      | Some u \<Rightarrow>
          bind_res (guard_res (\<not> http_url u) (Invalid (what @ '' must be an absolute http(s) URL'') name))
            (\<lambda>_. guard_res (\<not> bare_url u)
                  (Invalid (what @ '' must not contain userinfo, query, or fragment'') name)))"


subsection \<open>Providers\<close>

definition provider_policy :: "config_runtime \<Rightarrow> string \<Rightarrow> circuit_runtime" where
  "provider_policy rt name =
     (case map_of (rt_provider_circuits rt) name of
        Some p \<Rightarrow> p
      | None \<Rightarrow> \<lparr>cr_enabled = True, cr_threshold = DefaultCircuitFailureThreshold,
                 cr_open_for = DefaultCircuitOpenFor\<rparr>)"

definition validate_provider ::
  "config_runtime \<Rightarrow> provider_config \<Rightarrow> string set \<times> bool \<Rightarrow> config_error + string set \<times> bool" where
  "validate_provider rt p st =
     (let (seen, defaultFound) = st; n = pc_name p; (spec, ok) = Lookup (pc_type p);
          policy = provider_policy rt n in
      bind_res (guard_res (n = '''') (Invalid ''provider has empty name'' '''')) (\<lambda>_.
      bind_res (guard_res (\<not> valid_provider_name n)
        (Invalid ''provider name contains unsupported characters'' n)) (\<lambda>_.
      bind_res (guard_res (n \<in> seen) (Invalid ''duplicate provider name'' n)) (\<lambda>_.
      bind_res (guard_res (\<not> ok) (Invalid ''provider has unsupported type'' n)) (\<lambda>_.
      bind_res (guard_res (sp_requires_api_key spec \<and> trim_space (pc_api_key p) = '''')
        (Invalid ''provider requires api_key or api_key_file'' n)) (\<lambda>_.
      bind_res (guard_res (trim_space (pc_base_url p) = '''')
        (Invalid ''provider requires base_url'' n)) (\<lambda>_.
      bind_res (check_url ''base_url'' n (pc_base_url p)) (\<lambda>_.
      bind_res (guard_res (\<exists>(k, v) \<in> set (pc_headers p). trim_space k = '''')
        (Invalid ''provider has empty header name'' n)) (\<lambda>_.
      bind_res (guard_res (cr_enabled policy \<and> cr_threshold policy \<le> 0)
        (Invalid ''circuit_breaker.failure_threshold must be positive'' n)) (\<lambda>_.
      bind_res (guard_res (cr_enabled policy \<and> cr_open_for policy \<le> 0)
        (Invalid ''circuit_breaker.open_for must be positive'' n)) (\<lambda>_.
      Inr (insert n seen,
           defaultFound \<or> n = cf_default_provider (rt_config rt)))))))))))))"


subsection \<open>Clients\<close>

definition validate_client ::
  "client_config \<Rightarrow> string set \<times> nat \<Rightarrow> config_error + string set \<times> nat" where
  "validate_client c st =
     (let (seenTokens, activeClients) = st in
      if \<not> cl_enabled c then Inr st
      else
        bind_res (guard_res (trim_space (cl_name c) = '''')
          (Invalid ''enabled client has empty name'' '''')) (\<lambda>_.
        bind_res (guard_res (trim_space (cl_token c) = '''')
          (Invalid ''client has empty token'' (cl_name c))) (\<lambda>_.
        bind_res (guard_res (cl_token c \<in> seenTokens)
          (Invalid ''duplicate client token'' (cl_name c))) (\<lambda>_.
        bind_res (guard_res (cl_rate_limit_rpm c < 0)
          (Invalid ''rate_limit_rpm must not be negative'' (cl_name c))) (\<lambda>_.
        Inr (insert (cl_token c) seenTokens, Suc activeClients))))))"


subsection \<open>CORS and rate limiting\<close>

definition validate_origin :: "string \<Rightarrow> config_error + unit" where
  "validate_origin raw =
     (let origin = trim_space raw in
      if origin = '''' then Inl (Invalid ''allowed_origins contains an empty origin'' '''')
      else if origin = ''*'' then Inr ()
      else (case url_parse origin of
          None \<Rightarrow> Inl (Invalid ''allowed_origins contains invalid origin'' origin)
        | Some u \<Rightarrow>
            bind_res (guard_res (url_scheme u = '''' \<or> url_host u = '''' \<or> \<not> bare_url u)
              (Invalid ''allowed_origins contains invalid origin'' origin)) (\<lambda>_.
            bind_res (guard_res (url_scheme u \<noteq> ''http'' \<and> url_scheme u \<noteq> ''https'')
              (Invalid ''origin must use http or https'' origin)) (\<lambda>_.
            guard_res (url_path u \<noteq> '''' \<and> url_path u \<noteq> ''/'')
              (Invalid ''origin must not contain a path'' origin)))))"

definition validateCORS :: "cors_config \<Rightarrow> duration \<Rightarrow> config_error + unit" where
  "validateCORS cfg maxAge =
     (if \<not> cors_is_enabled cfg then Inr ()
      else
        bind_res (guard_res (co_origins cfg = []) (Invalid ''allowed_origins must not be empty'' '''')) (\<lambda>_.
        bind_res (check_all validate_origin (co_origins cfg)) (\<lambda>_.
        bind_res (guard_res ((\<exists>x \<in> set (co_origins cfg). trim_space x = ''*'') \<and> co_credentials cfg)
          (Invalid ''allow_credentials cannot be true with wildcard allowed_origins'' '''')) (\<lambda>_.
        bind_res (guard_res (co_methods cfg = []) (Invalid ''allowed_methods must not be empty'' '''')) (\<lambda>_.
        bind_res (check_all (\<lambda>m. guard_res (trim_space m = '''')
          (Invalid ''allowed_methods contains an empty method'' '''')) (co_methods cfg)) (\<lambda>_.
        bind_res (guard_res (co_headers cfg = []) (Invalid ''allowed_headers must not be empty'' '''')) (\<lambda>_.
        bind_res (check_all (\<lambda>h. guard_res (trim_space h = '''')
          (Invalid ''allowed_headers contains an empty header'' '''')) (co_headers cfg)) (\<lambda>_.
        guard_res (maxAge < 0) (Invalid ''max_age must not be negative'' '''')))))))))"

definition validateRateLimit :: "rate_limit_config \<Rightarrow> duration \<Rightarrow> config_error + unit" where
  "validateRateLimit cfg timeout =
     (if rl_backend cfg = ''memory'' then Inr ()
      else if rl_backend cfg \<noteq> ''redis''
      then Inl (Invalid ''rate_limit.backend must be memory or redis'' (rl_backend cfg))
      else
        bind_res (guard_res (trim_space (rc_url (rl_redis cfg)) = '''')
          (Invalid ''rate_limit.redis.url or url_file is required'' '''')) (\<lambda>_.
        bind_res (case url_parse (rc_url (rl_redis cfg)) of
            None \<Rightarrow> Inl (Invalid ''rate_limit.redis.url must be an absolute redis:// or rediss:// URL'' '''')
          | Some u \<Rightarrow>
              bind_res (guard_res (url_host u = '''' \<or>
                  (url_scheme u \<noteq> ''redis'' \<and> url_scheme u \<noteq> ''rediss''))
                (Invalid ''rate_limit.redis.url must be an absolute redis:// or rediss:// URL'' ''''))
                (\<lambda>_. guard_res (url_fragment u \<noteq> '''')
                  (Invalid ''rate_limit.redis.url must not contain a fragment'' ''''))) (\<lambda>_.
        bind_res (guard_res (timeout \<le> 0)
          (Invalid ''rate_limit.redis.timeout must be positive'' '''')) (\<lambda>_.
        let prefix = rc_key_prefix (rl_redis cfg) in
        bind_res (guard_res (trim_space prefix = '''')
          (Invalid ''rate_limit.redis.key_prefix must not be empty'' '''')) (\<lambda>_.
        bind_res (guard_res (128 < length prefix)
          (Invalid ''rate_limit.redis.key_prefix must not exceed 128 bytes'' '''')) (\<lambda>_.
        guard_res (\<exists>r \<in> set prefix. byte r < 0x20 \<or> byte r = 0x7f)
          (Invalid ''rate_limit.redis.key_prefix contains control characters'' '''')))))))"


subsection \<open>The whole configuration\<close>

definition validate :: "config_runtime \<Rightarrow> config_error + unit" where
  "validate rt =
     (let cfg = rt_config rt in
      bind_res (guard_res (cf_providers cfg = []) (Invalid ''no providers configured'' '''')) (\<lambda>_.
      bind_res (loop_res (validate_provider rt) (cf_providers cfg) ({}, False)) (\<lambda>(_, defaultFound).
      bind_res (guard_res (\<not> defaultFound)
        (Invalid ''default_provider does not match a configured provider'' (cf_default_provider cfg))) (\<lambda>_.
      bind_res (loop_res validate_client (cf_clients cfg) ({}, 0)) (\<lambda>(seenTokens, activeClients).
      bind_res (guard_res (activeClients = 0) (Invalid ''no enabled clients'' '''')) (\<lambda>_.
      bind_res (guard_res (op_token (cf_operations cfg) \<noteq> '''' \<and> op_token (cf_operations cfg) \<in> seenTokens)
        (Invalid ''operations token must be distinct from every enabled client token'' '''')) (\<lambda>_.
      bind_res (guard_res (rt_body_limit rt < 0) (Invalid ''request_body_limit must not be negative'' '''')) (\<lambda>_.
      bind_res (validateCORS (sv_cors (cf_server cfg)) (rt_cors_max_age rt)) (\<lambda>_.
      validateRateLimit (cf_rate_limit cfg) (rt_rate_limit_timeout rt))))))))))"


subsection \<open>Telemetry and logging sections\<close>

definition telemetry_validate :: "telemetry_config \<Rightarrow> config_error + unit" where
  "telemetry_validate c =
     (if ratio_less (te_sample_ratio c) (Some 0) \<or> ratio_less (Some 1) (te_sample_ratio c)
      then Inl (Invalid ''telemetry.sample_ratio must be between 0 and 1'' '''')
      else if \<not> te_enabled c then
        guard_res (te_propagate c) (Invalid ''telemetry.propagate_upstream requires telemetry.enabled'' '''')
      else
        bind_res (guard_res (trim_space (te_service_name c) = '''')
          (Invalid ''telemetry.service_name must not be empty'' '''')) (\<lambda>_.
        bind_res (guard_res (ratio_le (te_sample_ratio c) (Some 0))
          (Invalid ''telemetry.sample_ratio must be greater than 0'' '''')) (\<lambda>_.
        if te_endpoint c = '''' then Inr ()
        else check_url ''telemetry.endpoint'' '''' (te_endpoint c))))"

text \<open>The decoded section, with \<open>None\<close> for an absent \<open>sample_ratio\<close>.\<close>

definition telemetry_unmarshal ::
  "telemetry_config \<Rightarrow> ratio option \<Rightarrow> config_error + telemetry_config" where
  "telemetry_unmarshal raw sampleRatio =
     (let c = raw\<lparr>te_service_name :=
                or_default (trim_space (te_service_name raw)) DefaultTelemetryServiceName,
                te_endpoint := trim_space (te_endpoint raw),
                te_environment := trim_space (te_environment raw),
                te_sample_ratio :=
                  (case sampleRatio of None \<Rightarrow> DefaultTelemetrySampleRatio | Some r \<Rightarrow> r)\<rparr>
      in bind_res (telemetry_validate c) (\<lambda>_. Inr c))"

definition telemetry_normalized :: "telemetry_config \<Rightarrow> config_error + telemetry_config" where
  "telemetry_normalized c =
     (let c = c\<lparr>te_service_name :=
                or_default (trim_space (te_service_name c)) DefaultTelemetryServiceName,
                te_endpoint := trim_space (te_endpoint c),
                te_environment := trim_space (te_environment c)\<rparr>;
          c = (if te_sample_ratio c = Some 0
               then c\<lparr>te_sample_ratio := DefaultTelemetrySampleRatio\<rparr> else c)
      in bind_res (telemetry_validate c) (\<lambda>_. Inr c))"

definition logging_unmarshal :: "logging_config \<Rightarrow> config_error + logging_config" where
  "logging_unmarshal raw =
     (if lg_log_body raw \<or> lg_log_headers raw
      then Inl (Invalid ''logging.log_body and logging.log_headers are intentionally unsupported'' '''')
      else Inr \<lparr>lg_recent = lg_recent raw, lg_log_body = False, lg_log_headers = False\<rparr>)"


subsection \<open>What an accepted configuration satisfies\<close>

definition url_ok :: "string \<Rightarrow> bool" where
  "url_ok raw = (case url_parse raw of None \<Rightarrow> False | Some u \<Rightarrow> http_url u \<and> bare_url u)"

definition provider_ok :: "config_runtime \<Rightarrow> provider_config \<Rightarrow> bool" where
  "provider_ok rt p \<longleftrightarrow>
     valid_provider_name (pc_name p) \<and> snd (Lookup (pc_type p)) \<and>
     (sp_requires_api_key (fst (Lookup (pc_type p))) \<longrightarrow> trim_space (pc_api_key p) \<noteq> '''') \<and>
     trim_space (pc_base_url p) \<noteq> '''' \<and> url_ok (pc_base_url p) \<and>
     (\<forall>(k, v) \<in> set (pc_headers p). trim_space k \<noteq> '''') \<and>
     (cr_enabled (provider_policy rt (pc_name p)) \<longrightarrow>
        0 < cr_threshold (provider_policy rt (pc_name p)) \<and>
        0 < cr_open_for (provider_policy rt (pc_name p)))"

definition client_ok :: "client_config \<Rightarrow> bool" where
  "client_ok c \<longleftrightarrow>
     trim_space (cl_name c) \<noteq> '''' \<and> trim_space (cl_token c) \<noteq> '''' \<and> 0 \<le> cl_rate_limit_rpm c"

definition enabled_tokens :: "client_config list \<Rightarrow> string list" where
  "enabled_tokens cs = map cl_token (filter cl_enabled cs)"

lemma valid_provider_name_nonempty: "valid_provider_name n \<Longrightarrow> n \<noteq> ''''"
  by (auto simp: valid_provider_name_def)

lemma check_url_Inr: "check_url what name raw = Inr u \<longleftrightarrow> url_ok raw"
  by (simp add: check_url_def url_ok_def split: option.split)

lemma validate_provider_Inr:
  "validate_provider rt p (seen, d) = Inr st \<longleftrightarrow>
     pc_name p \<notin> seen \<and> provider_ok rt p \<and>
     st = (insert (pc_name p) seen, d \<or> pc_name p = cf_default_provider (rt_config rt))"
  using valid_provider_name_nonempty [of "pc_name p"]
  by (auto simp: validate_provider_def provider_ok_def Let_def check_url_Inr case_prod_unfold not_le)

lemma validate_providers_Inr:
  "loop_res (validate_provider rt) ps (seen, d) = Inr st \<longleftrightarrow>
     distinct (map pc_name ps) \<and> set (map pc_name ps) \<inter> seen = {} \<and> (\<forall>p \<in> set ps. provider_ok rt p) \<and>
     st = (set (map pc_name ps) \<union> seen, d \<or> cf_default_provider (rt_config rt) \<in> set (map pc_name ps))"
  by (induction ps arbitrary: seen d) (auto simp: validate_provider_Inr)

lemma validate_client_Inr:
  "validate_client c (seen, n) = Inr st \<longleftrightarrow>
     (if cl_enabled c
      then cl_token c \<notin> seen \<and> client_ok c \<and> st = (insert (cl_token c) seen, Suc n)
      else st = (seen, n))"
  by (auto simp: validate_client_def client_ok_def not_less)

lemma validate_clients_Inr:
  "loop_res validate_client cs (seen, n) = Inr st \<longleftrightarrow>
     distinct (enabled_tokens cs) \<and> set (enabled_tokens cs) \<inter> seen = {} \<and>
     (\<forall>c \<in> set cs. cl_enabled c \<longrightarrow> client_ok c) \<and>
     st = (set (enabled_tokens cs) \<union> seen, n + length (enabled_tokens cs))"
  by (induction cs arbitrary: seen n) (auto simp: validate_client_Inr enabled_tokens_def)

definition providers_ok :: "config_runtime \<Rightarrow> bool" where
  "providers_ok rt \<longleftrightarrow>
     (let cfg = rt_config rt in
      distinct (map pc_name (cf_providers cfg)) \<and> (\<forall>p \<in> set (cf_providers cfg). provider_ok rt p) \<and>
      cf_default_provider cfg \<in> set (map pc_name (cf_providers cfg)))"

definition clients_ok :: "config_runtime \<Rightarrow> bool" where
  "clients_ok rt \<longleftrightarrow>
     (let cfg = rt_config rt; tokens = enabled_tokens (cf_clients cfg) in
      tokens \<noteq> [] \<and> distinct tokens \<and> (\<forall>c \<in> set (cf_clients cfg). cl_enabled c \<longrightarrow> client_ok c) \<and>
      (op_token (cf_operations cfg) \<noteq> '''' \<longrightarrow> op_token (cf_operations cfg) \<notin> set tokens))"

text \<open>The acceptance condition of \<open>validate\<close>, without the order of its checks.\<close>

lemma validate_iff:
  "validate rt = Inr () \<longleftrightarrow>
     providers_ok rt \<and> clients_ok rt \<and> 0 \<le> rt_body_limit rt \<and>
     validateCORS (sv_cors (cf_server (rt_config rt))) (rt_cors_max_age rt) = Inr () \<and>
     validateRateLimit (cf_rate_limit (rt_config rt)) (rt_rate_limit_timeout rt) = Inr ()"
  by (auto simp: validate_def Let_def validate_providers_Inr validate_clients_Inr providers_ok_def
      clients_ok_def not_less)

lemma validateCORS_credentials:
  "validateCORS cfg maxAge = Inr () \<Longrightarrow> cors_is_enabled cfg \<Longrightarrow> co_credentials cfg \<Longrightarrow>
   \<forall>x \<in> set (co_origins cfg). trim_space x \<noteq> ''*''"
  by (auto simp: validateCORS_def)



subsection \<open>Properties\<close>

text \<open>
  \<open>validate\<close> accepts exactly the configurations the gateway can run: at least one
  provider, provider names well formed and distinct, known types, keys where the type needs
  one, plain absolute base URLs, positive circuit settings, a default that exists; an
  enabled client, enabled clients with names, distinct non-blank tokens and no negative
  limits, an operations token no client shares; and the checks of CORS and rate limiting.
\<close>

theorem validate_accepts_iff:
  "validate rt = Inr () \<longleftrightarrow>
     providers_ok rt \<and> clients_ok rt \<and> 0 \<le> rt_body_limit rt \<and>
     validateCORS (sv_cors (cf_server (rt_config rt))) (rt_cors_max_age rt) = Inr () \<and>
     validateRateLimit (cf_rate_limit (rt_config rt)) (rt_rate_limit_timeout rt) = Inr ()"
  by (rule validate_iff)

text \<open>
  Accepted CORS settings never combine credentials with a wildcard: when CORS is enabled,
  every origin is a plain http or https origin without a path or is the wildcard, and
  credentials exclude the wildcard.
\<close>

theorem cors_settings_safe:
  assumes "validateCORS cfg maxAge = Inr ()" and "cors_is_enabled cfg"
  shows "(co_credentials cfg \<longrightarrow> (\<forall>x \<in> set (co_origins cfg). trim_space x \<noteq> ''*'')) \<and>
    co_origins cfg \<noteq> [] \<and> 0 \<le> maxAge \<and>
    (\<forall>x \<in> set (co_origins cfg). trim_space x = ''*'' \<or>
       (\<exists>u. url_parse (trim_space x) = Some u \<and> http_url u \<and> bare_url u \<and>
          (url_path u = '''' \<or> url_path u = ''/'')))"
proof -
  have "\<forall>x \<in> set (co_origins cfg). validate_origin x = Inr ()"
    using assms by (simp add: validateCORS_def check_all_Inr)
  then have "trim_space x = ''*'' \<or> (\<exists>u. url_parse (trim_space x) = Some u \<and> http_url u \<and> bare_url u \<and>
      (url_path u = '''' \<or> url_path u = ''/''))" if "x \<in> set (co_origins cfg)" for x
    using that by (auto simp: validate_origin_def http_url_def Let_def
        split: if_splits option.splits)
  with assms validateCORS_credentials [OF assms(1)] show ?thesis
    by (auto simp: validateCORS_def not_less)
qed

definition sample_cors :: cors_config where
  "sample_cors = \<lparr>co_enabled = Some True, co_origins = [''https://app.example''], co_methods = [''GET''],
     co_headers = [''Authorization''], co_credentials = True, co_max_age = ''10m''\<rparr>"

theorem cors_settings_safe_witness:
  "validateCORS sample_cors 600 = Inr () \<and> cors_is_enabled sample_cors \<and>
   ''*'' \<notin> trim_space ` set (co_origins sample_cors)"
proof -
  have ok: "validateCORS sample_cors 600 = Inr ()" "cors_is_enabled sample_cors"
    "co_credentials sample_cors" by code_simp+
  with cors_settings_safe [OF ok(1,2)] show ?thesis by force
qed

lemma telemetry_normalized_fixed:
  assumes "trim_space (te_service_name c) = te_service_name c" "te_service_name c \<noteq> ''''"
    "trim_space (te_endpoint c) = te_endpoint c" "trim_space (te_environment c) = te_environment c"
    "te_sample_ratio c \<noteq> Some 0" "telemetry_validate c = Inr ()"
  shows "telemetry_normalized c = Inr c"
proof -
  have "c\<lparr>te_service_name := te_service_name c, te_endpoint := te_endpoint c,
      te_environment := te_environment c\<rparr> = c" by simp
  with assms show ?thesis by (simp add: telemetry_normalized_def or_default_def Let_def)
qed

text \<open>
  Telemetry settings that pass \<open>Normalized\<close> are consistent and stable: trace context is
  propagated only with telemetry enabled, an enabled exporter has a service name and a
  sampling ratio that is positive and at most 1 (or NaN), and normalising again changes nothing.
\<close>

theorem telemetry_normalized_stable:
  assumes "telemetry_normalized c = Inr c'"
  shows "(te_propagate c' \<longrightarrow> te_enabled c') \<and> te_service_name c' \<noteq> '''' \<and>
    (\<forall>r. te_sample_ratio c' = Some r \<longrightarrow> 0 < r \<and> r \<le> 1) \<and>
    telemetry_normalized c' = Inr c'"
proof -
  let ?c = "c\<lparr>te_service_name := or_default (trim_space (te_service_name c)) DefaultTelemetryServiceName,
      te_endpoint := trim_space (te_endpoint c), te_environment := trim_space (te_environment c),
      te_sample_ratio := (if te_sample_ratio c = Some 0 then DefaultTelemetrySampleRatio
        else te_sample_ratio c)\<rparr>"
  have c': "c' = ?c" "telemetry_validate ?c = Inr ()"
    using assms by (auto simp: telemetry_normalized_def Let_def split: if_splits)
  have name: "trim_space (te_service_name ?c) = te_service_name ?c" "te_service_name ?c \<noteq> ''''"
  proof -
    have "trim_space DefaultTelemetryServiceName = DefaultTelemetryServiceName" by code_simp
    then show "trim_space (te_service_name ?c) = te_service_name ?c" "te_service_name ?c \<noteq> ''''"
      by (simp_all add: or_default_def DefaultTelemetryServiceName_def)
  qed
  have ratio: "te_sample_ratio ?c \<noteq> Some 0" by (simp add: DefaultTelemetrySampleRatio_def)
  have range: "0 < r \<and> r \<le> 1" if "te_sample_ratio c' = Some r" for r
    using c' that ratio by (auto simp: telemetry_validate_def ratio_less_def not_less split: if_splits)
  have "telemetry_normalized c' = Inr c'"
    unfolding c'(1) by (rule telemetry_normalized_fixed) (use name ratio c'(2) in simp_all)
  moreover have "te_propagate c' \<longrightarrow> te_enabled c'"
    using c' by (auto simp: telemetry_validate_def split: if_splits)
  ultimately show ?thesis using range name c'(1) by simp
qed

definition sample_telemetry :: telemetry_config where
  "sample_telemetry = \<lparr>te_enabled = True, te_service_name = '' '', te_endpoint = ''http://otel:4318'',
     te_sample_ratio = Some 0, te_environment = '''', te_propagate = True\<rparr>"

theorem telemetry_normalized_stable_witness:
  "\<exists>c'. telemetry_normalized sample_telemetry = Inr c' \<and> te_service_name c' = ''gemgate'' \<and>
     te_sample_ratio c' = Some (1 / 10) \<and> telemetry_normalized c' = Inr c'"
proof -
  have url: "url_ok ''http://otel:4318''" "trim_space ''http://otel:4318'' = ''http://otel:4318''"
    "trim_space '' '' = ''''" "trim_space ''gemgate'' = ''gemgate''" by code_simp+
  obtain c' where c': "telemetry_normalized sample_telemetry = Inr c'"
    "te_service_name c' = ''gemgate''" "te_sample_ratio c' = Some (1 / 10)"
    by (simp add: telemetry_normalized_def sample_telemetry_def telemetry_validate_def url
        or_default_def DefaultTelemetryServiceName_def DefaultTelemetrySampleRatio_def
        ratio_less_def ratio_le_def check_url_Inr)
  with telemetry_normalized_stable [OF c'(1)] show ?thesis by blast
qed

end
