(* ===== verification/Config_Load.thy ===== *)
theory Config_Load
  imports Config_Validate
begin

section \<open>Load (internal/config/config.go)\<close>

text \<open>
  \<open>Load\<close>, from the bytes of the file to the validated \<open>Runtime\<close>. The YAML decoder (with the
  sections' own \<open>UnmarshalYAML\<close>) is a package outside the repository: it is the argument
  \<open>decode\<close>, \<open>None\<close> standing for a parse error. The file system and the environment are
  functions.
\<close>


definition parse_field :: "string \<Rightarrow> string \<Rightarrow> config_error + duration" where
  "parse_field field s = (case parseDuration s of Inl _ \<Rightarrow> Inl (BadDuration field) | Inr d \<Rightarrow> Inr d)"

definition zero_runtime :: "config \<Rightarrow> config_runtime" where
  "zero_runtime cfg =
     \<lparr>rt_config = cfg, rt_read_timeout = 0, rt_write_timeout = 0, rt_idle_timeout = 0,
      rt_upstream_timeout = 0, rt_provider_timeouts = [], rt_provider_circuits = [],
      rt_trusted_proxies = [], rt_body_limit = 0, rt_cors_max_age = 0, rt_rate_limit_timeout = 0\<rparr>"

definition load_provider ::
  "config \<Rightarrow> provider_config \<Rightarrow> config_runtime \<Rightarrow> config_error + config_runtime" where
  "load_provider cfg p rt =
     bind_res (parse_field (''timeout'' @ pc_name p) (pc_timeout p)) (\<lambda>d.
       let rt = rt\<lparr>rt_provider_timeouts := AList.update (pc_name p) d (rt_provider_timeouts rt)\<rparr>;
           rt = (if pc_name p = cf_default_provider cfg then rt\<lparr>rt_upstream_timeout := d\<rparr> else rt)
       in bind_res (parse_field (''open_for'' @ pc_name p) (cc_open_for (pc_circuit p))) (\<lambda>openFor.
         Inr (rt\<lparr>rt_provider_circuits := AList.update (pc_name p)
             \<lparr>cr_enabled = circuit_is_enabled (pc_circuit p), cr_threshold = cc_threshold (pc_circuit p),
              cr_open_for = openFor\<rparr> (rt_provider_circuits rt)\<rparr>)))"

definition build_runtime :: "config \<Rightarrow> config_error + config_runtime" where
  "build_runtime cfg =
     (let sv = cf_server cfg in
      bind_res (parse_field ''server.read_timeout'' (sv_read_timeout sv)) (\<lambda>rd.
      bind_res (parse_field ''server.write_timeout'' (sv_write_timeout sv)) (\<lambda>wr.
      bind_res (parse_field ''server.idle_timeout'' (sv_idle_timeout sv)) (\<lambda>idle.
      bind_res (case parseBytes (sv_body_limit sv) of Inl e \<Rightarrow> Inl (BadSize e) | Inr n \<Rightarrow> Inr n) (\<lambda>limit.
      bind_res (parse_field ''server.cors.max_age'' (co_max_age (sv_cors sv))) (\<lambda>maxAge.
      bind_res (case parseTrustedProxies (sv_trusted_proxies sv) of
          Inl e \<Rightarrow> Inl (BadProxies e) | Inr ps \<Rightarrow> Inr ps) (\<lambda>proxies.
      bind_res (parse_field ''rate_limit.redis.timeout'' (rc_timeout (rl_redis (cf_rate_limit cfg))))
        (\<lambda>redis.
      loop_res (load_provider cfg) (cf_providers cfg)
        ((zero_runtime cfg)\<lparr>rt_read_timeout := rd, rt_write_timeout := wr, rt_idle_timeout := idle,
           rt_body_limit := limit, rt_cors_max_age := maxAge, rt_trusted_proxies := proxies,
           rt_rate_limit_timeout := redis\<rparr>)))))))))"

definition load ::
  "(string \<Rightarrow> config option) \<Rightarrow> (string \<Rightarrow> string) \<Rightarrow> file_system \<Rightarrow> string \<Rightarrow>
   config_error + config_runtime" where
  "load decode getenv fs path =
     (case fs path of
        None \<Rightarrow> Inl ReadConfig
      | Some b \<Rightarrow>
          (case decode (expand_env getenv b) of
             None \<Rightarrow> Inl ParseConfig
           | Some cfg \<Rightarrow>
               bind_res (resolveSecretFiles fs (path_dir path) (applyDefaults cfg)) (\<lambda>cfg.
               bind_res (build_runtime (syncLegacyUpstream cfg)) (\<lambda>rt.
               bind_res (validate rt) (\<lambda>_. Inr rt)))))"


subsection \<open>The tables of a loaded configuration\<close>

lemma load_provider_config: "load_provider cfg p rt = Inr rt' \<Longrightarrow> rt_config rt' = rt_config rt"
  by (auto simp: load_provider_def Let_def)

text \<open>The entry of a provider in the two tables, from its own fields.\<close>

definition tables_of :: "provider_config \<Rightarrow> config_runtime \<Rightarrow> bool" where
  "tables_of p rt \<longleftrightarrow>
     (\<exists>d. parseDuration (pc_timeout p) = Inr d \<and>
        map_of (rt_provider_timeouts rt) (pc_name p) = Some d) \<and>
     (\<exists>d. parseDuration (cc_open_for (pc_circuit p)) = Inr d \<and>
        map_of (rt_provider_circuits rt) (pc_name p) =
          Some \<lparr>cr_enabled = circuit_is_enabled (pc_circuit p),
                cr_threshold = cc_threshold (pc_circuit p), cr_open_for = d\<rparr>)"

lemma parse_field_Inr: "parse_field f s = Inr d \<longleftrightarrow> parseDuration s = Inr d"
  by (simp add: parse_field_def split: sum.split)

lemma load_provider_tables:
  assumes "load_provider cfg p rt = Inr rt'"
  shows "tables_of p rt'"
    and "pc_name q \<noteq> pc_name p \<Longrightarrow> tables_of q rt \<Longrightarrow> tables_of q rt'"
    and "rt_upstream_timeout rt' = (if pc_name p = cf_default_provider cfg
      then the (map_of (rt_provider_timeouts rt') (pc_name p)) else rt_upstream_timeout rt)"
  using assms
  by (auto simp: load_provider_def tables_of_def parse_field_Inr Let_def update_conv')

text \<open>The fields the provider loop does not write.\<close>

definition base_fields :: "config_runtime \<Rightarrow> config \<times> duration list \<times> i64 \<times> ip_prefix list" where
  "base_fields rt =
     (rt_config rt, [rt_read_timeout rt, rt_write_timeout rt, rt_idle_timeout rt, rt_cors_max_age rt,
        rt_rate_limit_timeout rt], rt_body_limit rt, rt_trusted_proxies rt)"

lemma load_provider_base: "load_provider cfg p rt = Inr rt' \<Longrightarrow> base_fields rt' = base_fields rt"
  by (auto simp: load_provider_def base_fields_def Let_def)

lemma load_providers:
  assumes "loop_res (load_provider cfg) ps rt = Inr rt'" "distinct (map pc_name ps)"
  shows "base_fields rt' = base_fields rt \<and> (\<forall>p \<in> set ps. tables_of p rt')"
  using assms
proof (induction ps arbitrary: rt rt' rule: rev_induct)
  case Nil
  then show ?case by simp
next
  case (snoc p ps)
  then obtain r where r: "loop_res (load_provider cfg) ps rt = Inr r" "load_provider cfg p r = Inr rt'"
    by auto
  then have IH: "base_fields r = base_fields rt \<and> (\<forall>p \<in> set ps. tables_of p r)"
    using snoc by auto
  have "tables_of q rt'" if "q \<in> set ps" for q
  proof (rule load_provider_tables(2) [OF r(2)])
    show "pc_name q \<noteq> pc_name p" using snoc.prems(2) that by (auto simp: image_iff)
    show "tables_of q r" using IH that by blast
  qed
  then show ?case using IH load_provider_base [OF r(2)] load_provider_tables(1) [OF r(2)] by auto
qed

lemma load_providers_config:
  "loop_res (load_provider cfg) ps rt = Inr rt' \<Longrightarrow> base_fields rt' = base_fields rt"
  by (induction ps arbitrary: rt) (auto dest: load_provider_base)

lemma build_runtime_config:
  assumes "build_runtime cfg = Inr rt" shows "rt_config rt = cfg"
  using assms load_providers_config
  by (fastforce simp: build_runtime_def Let_def base_fields_def zero_runtime_def)

lemma build_runtime_tables:
  assumes "build_runtime cfg = Inr rt" "distinct (map pc_name (cf_providers cfg))"
  shows "\<forall>p \<in> set (cf_providers cfg). tables_of p rt"
  using assms load_providers by (fastforce simp: build_runtime_def Let_def)


subsection \<open>What \<open>Load\<close> guarantees\<close>

lemma map_res_mem: "map_res f xs = Inr ys \<Longrightarrow> y \<in> set ys \<Longrightarrow> \<exists>x \<in> set xs. f x = Inr y"
  by (induction xs arbitrary: ys) auto

lemma provider_defaults_url:
  "trim_right_byte CHR ''/'' (pc_base_url (provider_defaults p)) = pc_base_url (provider_defaults p)"
  by (simp add: provider_defaults_def Let_def trim_right_byte_idem split: prod.split)

lemma applyDefaults_providers:
  "p \<in> set (cf_providers (applyDefaults cfg)) \<Longrightarrow>
   trim_right_byte CHR ''/'' (pc_base_url p) = pc_base_url p"
  by (auto simp: applyDefaults_def syncLegacyUpstream_def Let_def provider_defaults_url
      split: option.splits if_splits)

lemma syncLegacyUpstream_kept [simp]:
  "cf_providers (syncLegacyUpstream cfg) = cf_providers cfg"
  "cf_default_provider (syncLegacyUpstream cfg) = cf_default_provider cfg"
  "cf_clients (syncLegacyUpstream cfg) = cf_clients cfg"
  by (simp_all add: syncLegacyUpstream_def split: option.split)

lemma resolveSecretFiles_urls:
  assumes "resolveSecretFiles fs dir cfg = Inr cfg'" "p' \<in> set (cf_providers cfg')"
  shows "\<exists>p \<in> set (cf_providers cfg). pc_base_url p' = pc_base_url p"
proof -
  obtain ps where ps: "cf_providers cfg' = ps" "map_res (\<lambda>p.
         bind_res (resolve_secret fs dir ''provider'' (pc_name p)
             (trim_space (pc_api_key p) \<noteq> '''') (pc_api_key p) (pc_api_key_file p))
           (\<lambda>key. Inr (p\<lparr>pc_api_key := key\<rparr>))) (cf_providers cfg) = Inr ps"
    using assms(1) by (auto simp: resolveSecretFiles_def)
  from map_res_mem [OF ps(2)] assms(2) ps(1) show ?thesis by fastforce
qed

lemma loadD:
  assumes "load decode getenv fs path = Inr rt"
  obtains cfg0 cfg where "resolveSecretFiles fs (path_dir path) (applyDefaults cfg0) = Inr cfg"
    "build_runtime (syncLegacyUpstream cfg) = Inr rt" "validate rt = Inr ()"
    "rt_config rt = syncLegacyUpstream cfg"
  using assms that build_runtime_config
  by (fastforce simp: load_def split: option.splits)

lemma load_urls:
  assumes "load decode getenv fs path = Inr rt" "p \<in> set (cf_providers (rt_config rt))"
  shows "trim_right_byte CHR ''/'' (pc_base_url p) = pc_base_url p"
proof (rule loadD [OF assms(1)])
  fix cfg0 cfg
  assume *: "resolveSecretFiles fs (path_dir path) (applyDefaults cfg0) = Inr cfg"
    "rt_config rt = syncLegacyUpstream cfg"
  then obtain q where "q \<in> set (cf_providers (applyDefaults cfg0))" "pc_base_url p = pc_base_url q"
    using resolveSecretFiles_urls [OF *(1)] assms(2) by force
  then show ?thesis using applyDefaults_providers by simp
qed

lemma load_valid: "load decode getenv fs path = Inr rt \<Longrightarrow> validate rt = Inr ()"
  by (rule loadD) auto

lemma load_tables:
  assumes "load decode getenv fs path = Inr rt" "p \<in> set (cf_providers (rt_config rt))"
  shows "tables_of p rt"
proof (rule loadD [OF assms(1)])
  fix cfg0 cfg
  assume *: "build_runtime (syncLegacyUpstream cfg) = Inr rt" "validate rt = Inr ()"
    "rt_config rt = syncLegacyUpstream cfg"
  then have "distinct (map pc_name (cf_providers (syncLegacyUpstream cfg)))"
    by (simp add: validate_iff providers_ok_def Let_def)
  from build_runtime_tables [OF *(1) this] *(3) assms(2) show ?thesis by simp
qed


subsection \<open>Properties\<close>

text \<open>
  A configuration that loads is complete and accepted: it passed \<open>validate\<close>, every
  provider has its timeout and its circuit settings in the tables the gateway reads, parsed
  from its own fields, an enabled circuit has a positive threshold and cooldown, and every
  base URL is free of trailing slashes.
\<close>

theorem load_complete:
  assumes "load decode getenv fs path = Inr rt" and "p \<in> set (cf_providers (rt_config rt))"
  shows "validate rt = Inr () \<and> tables_of p rt \<and>
    (circuit_is_enabled (pc_circuit p) \<longrightarrow>
       0 < cc_threshold (pc_circuit p) \<and>
       (\<exists>d > 0. parseDuration (cc_open_for (pc_circuit p)) = Inr d)) \<and>
    trim_right_byte CHR ''/'' (pc_base_url p) = pc_base_url p"
proof -
  note valid = load_valid [OF assms(1)]
  note tab = load_tables [OF assms]
  have "provider_ok rt p" using valid assms(2) by (simp add: validate_iff providers_ok_def Let_def)
  then have "circuit_is_enabled (pc_circuit p) \<longrightarrow> 0 < cc_threshold (pc_circuit p) \<and>
       (\<exists>d > 0. parseDuration (cc_open_for (pc_circuit p)) = Inr d)"
    using tab by (auto simp: provider_ok_def provider_policy_def tables_of_def)
  then show ?thesis using valid tab load_urls [OF assms] by blast
qed

definition sample_config :: config where
  "sample_config =
     \<lparr>cf_server = \<lparr>sv_listen = '''', sv_read_timeout = '''', sv_write_timeout = '''',
        sv_idle_timeout = '''', sv_public_health = True, sv_body_limit = '''', sv_trusted_proxies = [''10.0.0.0/8''],
        sv_cors = \<lparr>co_enabled = None, co_origins = [], co_methods = [], co_headers = [],
          co_credentials = False, co_max_age = ''''\<rparr>\<rparr>,
      cf_upstream = \<lparr>up_base_url = '''', up_api_key = '''', up_api_key_file = '''', up_timeout = ''''\<rparr>,
      cf_providers = [\<lparr>pc_name = ''main'', pc_type = '' OpenAI '', pc_base_url = '''',
        pc_api_key = ''sk-1'', pc_api_key_file = '''', pc_timeout = ''1m30s'', pc_headers = [],
        pc_circuit = \<lparr>cc_enabled = None, cc_threshold = 0, cc_open_for = ''''\<rparr>\<rparr>],
      cf_default_provider = '''',
      cf_operations = \<lparr>op_token = '''', op_token_file = ''''\<rparr>,
      cf_clients = [\<lparr>cl_name = ''app'', cl_token = ''t1'', cl_token_file = '''', cl_enabled = True,
        cl_rate_limit_rpm = 60\<rparr>],
      cf_rate_limit = \<lparr>rl_backend = '''', rl_redis = \<lparr>rc_url = '''', rc_url_file = '''',
        rc_key_prefix = '''', rc_timeout = '''', rc_fail_open = False\<rparr>\<rparr>,
      cf_telemetry = \<lparr>te_enabled = False, te_service_name = '''', te_endpoint = '''',
        te_sample_ratio = Some 0, te_environment = '''', te_propagate = False\<rparr>,
      cf_logging = \<lparr>lg_recent = 0, lg_log_body = False, lg_log_headers = False\<rparr>\<rparr>"

definition sample_load :: "config_error + config_runtime" where
  "sample_load = load (\<lambda>_. Some sample_config) (\<lambda>_. '''') (\<lambda>_. Some ''x'') ''/etc/gemgate/config.yaml''"

lemma sample_load_ok: "\<not> isl sample_load"
  by code_simp

theorem load_complete_witness:
  "\<exists>rt p. load (\<lambda>_. Some sample_config) (\<lambda>_. '''') (\<lambda>_. Some ''x'') ''/etc/gemgate/config.yaml'' = Inr rt \<and>
     p \<in> set (cf_providers (rt_config rt)) \<and> validate rt = Inr () \<and> tables_of p rt"
proof -
  obtain rt where rt: "load (\<lambda>_. Some sample_config) (\<lambda>_. '''') (\<lambda>_. Some ''x'')
      ''/etc/gemgate/config.yaml'' = Inr rt"
    using sample_load_ok unfolding sample_load_def by (metis isl_def sum.exhaust)
  then have "cf_providers (rt_config rt) \<noteq> []"
    using load_valid [OF rt] by (auto simp: validate_iff providers_ok_def Let_def)
  then obtain p where "p \<in> set (cf_providers (rt_config rt))" by (cases "cf_providers (rt_config rt)") auto
  with rt load_complete [OF rt] show ?thesis by blast
qed

end
