(* ===== verification/Cors_Policy.thy ===== *)
theory Cors_Policy
  imports Http_Header Config_Validate
begin

section \<open>CORS (internal/gateway/cors.go)\<close>

text \<open>
  The policy built from the configuration and \<open>handle\<close>, which answers preflight requests and
  decorates the others. The sets of the Go code are lists searched by membership.
\<close>

record cors_handler =
  ch_enabled :: bool
  ch_wildcard :: bool
  ch_origins :: "string list"
  ch_methods :: "string list"
  ch_headers :: "string list"
  ch_methods_header :: string
  ch_headers_header :: string
  ch_credentials :: bool
  ch_max_age :: int

text \<open>\<open>int(d.Round(time.Second).Seconds())\<close> of a positive duration.\<close>

definition max_age_seconds :: "duration \<Rightarrow> int" where
  "max_age_seconds maxAge =
     (if 0 < maxAge then duration_round maxAge nanos_second sdiv nanos_second else 0)"

definition newCORSPolicy :: "cors_config \<Rightarrow> duration \<Rightarrow> cors_handler" where
  "newCORSPolicy cfg maxAge =
     (let methods = filter (\<lambda>m. m \<noteq> '''') (map (\<lambda>m. to_upper (trim_space m)) (co_methods cfg));
          headers = filter (\<lambda>h. h \<noteq> '''') (map (\<lambda>h. canonical_key (trim_space h)) (co_headers cfg));
          origins = map trim_space (co_origins cfg)
      in \<lparr>ch_enabled = cors_is_enabled cfg, ch_wildcard = (''*'' \<in> set origins),
          ch_origins = filter (\<lambda>origin. origin \<noteq> ''*'' \<and> origin \<noteq> '''') origins,
          ch_methods = methods, ch_headers = map to_lower headers,
          ch_methods_header = join_with '', '' methods, ch_headers_header = join_with '', '' headers,
          ch_credentials = co_credentials cfg, ch_max_age = max_age_seconds maxAge\<rparr>)"

definition appendVary :: "header \<Rightarrow> string \<Rightarrow> header" where
  "appendVary h val =
     (if list_ex (\<lambda>existing. list_ex (\<lambda>item. equal_fold (trim_space item) val)
            (split_on CHR '','' existing)) (header_values h ''Vary'')
      then h else header_add h ''Vary'' val)"

definition allowOrigin :: "cors_handler \<Rightarrow> header \<Rightarrow> string \<Rightarrow> bool \<times> header" where
  "allowOrigin c h origin =
     (if ch_wildcard c then (True, header_set h ''Access-Control-Allow-Origin'' ''*'')
      else if origin \<notin> set (ch_origins c) then (False, h)
      else (True, appendVary (header_set h ''Access-Control-Allow-Origin'' origin) ''Origin''))"

definition writeCommonHeaders :: "cors_handler \<Rightarrow> header \<Rightarrow> header" where
  "writeCommonHeaders c h =
     (let h = (if ch_methods_header c \<noteq> ''''
               then header_set h ''Access-Control-Allow-Methods'' (ch_methods_header c) else h);
          h = (if ch_headers_header c \<noteq> ''''
               then header_set h ''Access-Control-Allow-Headers'' (ch_headers_header c) else h);
          h = (if ch_credentials c
               then header_set h ''Access-Control-Allow-Credentials'' ''true'' else h)
      in if 0 < ch_max_age c
         then header_set h ''Access-Control-Max-Age'' (itoa (ch_max_age c)) else h)"

definition methodAllowed :: "cors_handler \<Rightarrow> string \<Rightarrow> bool" where
  "methodAllowed c m \<longleftrightarrow> to_upper (trim_space m) \<in> set (ch_methods c)"

definition headersAllowed :: "cors_handler \<Rightarrow> string \<Rightarrow> bool" where
  "headersAllowed c val =
     (if trim_space val = '''' then True
      else list_all (\<lambda>part. let lh = to_lower (trim_space part) in lh = '''' \<or> lh \<in> set (ch_headers c))
             (split_on CHR '','' val))"

definition is_preflight :: "request \<Rightarrow> bool" where
  "is_preflight r \<longleftrightarrow>
     rq_method r = ''OPTIONS'' \<and> trim_space (header_get (rq_header r) ''Origin'') \<noteq> '''' \<and>
     trim_space (header_get (rq_header r) ''Access-Control-Request-Method'') \<noteq> ''''"

text \<open>\<open>handle\<close>: whether the request is fully answered, and the writer afterwards.\<close>

definition cors_handle ::
  "cors_handler \<Rightarrow> response_writer \<Rightarrow> request \<Rightarrow> bool \<times> response_writer" where
  "cors_handle c w r =
     (if \<not> ch_enabled c then (False, w)
      else
        (let origin = trim_space (header_get (rq_header r) ''Origin'');
             preflight = is_preflight r;
             (allowed, h) = (if origin \<noteq> '''' then allowOrigin c (rw_header w) origin else (True, rw_header w));
             h = (if origin \<noteq> '''' \<and> allowed then writeCommonHeaders c h else h);
             w = w\<lparr>rw_header := h\<rparr>
         in if origin \<noteq> '''' \<and> \<not> allowed \<and> preflight
            then (True, http_error w ''CORS origin is not allowed'' 403)
            else if preflight then
              (if \<not> methodAllowed c (header_get (rq_header r) ''Access-Control-Request-Method'')
               then (True, http_error w ''CORS method is not allowed'' 403)
               else if \<not> headersAllowed c (header_get (rq_header r) ''Access-Control-Request-Headers'')
               then (True, http_error w ''CORS request header is not allowed'' 403)
               else (True, write_header (w\<lparr>rw_header :=
                   appendVary (appendVary h ''Access-Control-Request-Method'')
                     ''Access-Control-Request-Headers''\<rparr>) 204))
            else (False, w)))"


subsection \<open>What the responses say\<close>

lemma cors_keys [simp]:
  "canonical_key ''Access-Control-Allow-Origin'' = ''Access-Control-Allow-Origin''"
  "canonical_key ''Access-Control-Allow-Methods'' = ''Access-Control-Allow-Methods''"
  "canonical_key ''Access-Control-Allow-Headers'' = ''Access-Control-Allow-Headers''"
  "canonical_key ''Access-Control-Allow-Credentials'' = ''Access-Control-Allow-Credentials''"
  "canonical_key ''Access-Control-Max-Age'' = ''Access-Control-Max-Age''"
  "canonical_key ''Vary'' = ''Vary''"
  "canonical_key ''Content-Length'' = ''Content-Length''"
  "canonical_key ''Content-Type'' = ''Content-Type''"
  "canonical_key ''X-Content-Type-Options'' = ''X-Content-Type-Options''"
  by code_simp+

lemma appendVary_other:
  "canonical_key k \<noteq> ''Vary'' \<Longrightarrow> header_values (appendVary h val) k = header_values h k"
  by (simp add: appendVary_def)

lemma appendVary_mem:
  "\<exists>existing \<in> set (header_values (appendVary h val) ''Vary'').
     \<exists>item \<in> set (split_on CHR '','' existing). equal_fold (trim_space item) val"
  if "CHR '','' \<notin> set val" "trim_space val = val"
  using that by (auto simp: appendVary_def list_ex_iff)

text \<open>The headers that open a response to scripts of another origin.\<close>

definition grant :: "header \<Rightarrow> string list \<times> string list" where
  "grant h = (header_values h ''Access-Control-Allow-Origin'',
              header_values h ''Access-Control-Allow-Credentials'')"

lemma grant_common: "grant (writeCommonHeaders c h) =
    (fst (grant h), if ch_credentials c then [''true''] else snd (grant h))"
  by (simp add: writeCommonHeaders_def grant_def Let_def)

lemma grant_vary [simp]: "grant (appendVary h val) = grant h"
  by (simp add: grant_def appendVary_other)

lemma grant_allowOrigin:
  "grant (snd (allowOrigin c h origin)) =
     (if ch_wildcard c then ([''*''], snd (grant h))
      else if origin \<in> set (ch_origins c) then ([origin], snd (grant h)) else grant h)"
  "fst (allowOrigin c h origin) \<longleftrightarrow> ch_wildcard c \<or> origin \<in> set (ch_origins c)"
  by (simp_all add: allowOrigin_def grant_def appendVary_other)

lemma header_http_error:
  "rw_sent w = None \<Longrightarrow> grant (rw_header (http_error w msg 403)) = grant (rw_header w)"
  by (simp add: http_error_def write_body_def conn_write_def write_header_def grant_def Let_def)

definition origin_allowed :: "cors_handler \<Rightarrow> request \<Rightarrow> bool" where
  "origin_allowed c r \<longleftrightarrow>
     (let origin = trim_space (header_get (rq_header r) ''Origin'')
      in origin \<noteq> '''' \<and> (ch_wildcard c \<or> origin \<in> set (ch_origins c)))"

lemma cors_handle_grant:
  assumes "ch_enabled c" "rw_sent w = None" "grant (rw_header w) = ([], [])"
  shows "grant (rw_header (snd (cors_handle c w r))) =
    (if origin_allowed c r
     then ([if ch_wildcard c then ''*'' else trim_space (header_get (rq_header r) ''Origin'')],
           if ch_credentials c then [''true''] else [])
     else ([], []))"
proof -
  let ?o = "trim_space (header_get (rq_header r) ''Origin'')"
  obtain a h where ah: "allowOrigin c (rw_header w) ?o = (a, h)" by (metis prod.collapse)
  have g: "grant h = (if ch_wildcard c then ([''*''], []) else if ?o \<in> set (ch_origins c) then ([?o], [])
      else ([], []))" "a \<longleftrightarrow> ch_wildcard c \<or> ?o \<in> set (ch_origins c)"
    using grant_allowOrigin [of c "rw_header w" ?o] ah assms(3) by auto
  have wh: "grant (rw_header (write_header (w'\<lparr>rw_header := x\<rparr>) 204)) = grant x"
    for w' :: response_writer and x by (simp add: write_header_def)
  show ?thesis
    using assms g
    by (auto simp: cors_handle_def Let_def ah origin_allowed_def grant_common header_http_error wh
        is_preflight_def split: if_splits)
qed


lemma cors_not_preflight:
  "\<not> is_preflight r \<Longrightarrow> fst (cors_handle c w r) = False \<and> rw_sent (snd (cors_handle c w r)) = rw_sent w"
  by (simp add: cors_handle_def Let_def split: prod.split)

lemma rw_status_write_header [simp]:
  "rw_sent w = None \<Longrightarrow> rw_status (write_header (w\<lparr>rw_header := h\<rparr>) 204) = Some 204"
  by (simp add: write_header_def rw_status_def)

lemma rw_status_http_error_403 [simp]:
  "rw_sent w = None \<Longrightarrow> rw_status (http_error (w\<lparr>rw_header := h\<rparr>) msg 403) = Some 403"
  by (rule rw_sent_http_error) simp_all

lemma cors_preflight:
  assumes "ch_enabled c" "is_preflight r" "rw_sent w = None"
  shows "fst (cors_handle c w r) \<and> rw_status (snd (cors_handle c w r)) =
    Some (if origin_allowed c r \<and>
             methodAllowed c (header_get (rq_header r) ''Access-Control-Request-Method'') \<and>
             headersAllowed c (header_get (rq_header r) ''Access-Control-Request-Headers'')
          then 204 else 403)"
proof -
  let ?o = "trim_space (header_get (rq_header r) ''Origin'')"
  obtain a h where ah: "allowOrigin c (rw_header w) ?o = (a, h)" by (metis prod.collapse)
  have "?o \<noteq> ''''" using assms(2) by (simp add: is_preflight_def)
  moreover have "a \<longleftrightarrow> origin_allowed c r"
    using grant_allowOrigin(2) [of c "rw_header w" ?o] ah calculation by (simp add: origin_allowed_def)
  ultimately show ?thesis
    using assms ah by (simp add: cors_handle_def Let_def)
qed


subsection \<open>Properties\<close>

text \<open>What a preflight asks for, read off the request and the configured lists alone.\<close>

definition origin_configured :: "cors_config \<Rightarrow> string \<Rightarrow> bool" where
  "origin_configured cfg origin \<longleftrightarrow>
     (\<exists>o' \<in> set (co_origins cfg). trim_space o' = ''*'' \<or> trim_space o' = trim_space origin)"

definition method_configured :: "cors_config \<Rightarrow> string \<Rightarrow> bool" where
  "method_configured cfg m \<longleftrightarrow>
     (\<exists>m' \<in> set (co_methods cfg). to_upper (trim_space m') = to_upper (trim_space m))"

definition headers_configured :: "cors_config \<Rightarrow> string \<Rightarrow> bool" where
  "headers_configured cfg requested \<longleftrightarrow>
     (\<forall>name \<in> set (split_on CHR '','' requested). trim_space name \<noteq> '''' \<longrightarrow>
        (\<exists>h' \<in> set (co_headers cfg). equal_fold (trim_space h') (trim_space name)))"

lemma blank_bytes: "set s \<subseteq> set (trim_left_by encs s) \<union> \<Union> (set ` set encs)"
proof (induction encs s rule: trim_left_by.induct)
  case (1 encs s)
  show ?case
  proof (cases "space_len encs s = 0")
    case False
    then obtain e where e: "e \<in> set encs" "prefix e s" "space_len encs s = length e"
      using nth_mem by (auto simp: space_len_def find_Some_iff split: list.splits if_splits option.splits)
    then obtain t where t: "s = e @ t" by (auto elim: prefixE)
    have "set t \<subseteq> set (trim_left_by encs t) \<union> \<Union> (set ` set encs)"
      using 1 [OF False] e(3) t by simp
    moreover have "trim_left_by encs s = trim_left_by encs t"
      using False e(3) t by (simp add: trim_left_by.simps [of encs "e @ t"])
    ultimately show ?thesis using e(1) t by auto
  qed (simp add: trim_left_by_id)
qed

lemma blank_no_comma: "trim_space s = '''' \<Longrightarrow> CHR '','' \<notin> set s"
proof -
  assume "trim_space s = ''''"
  then have "trim_left_by (map rev space_encodings) (rev (trim_left_by space_encodings s)) = []"
    by (simp add: trim_space_def trim_right_def trim_left_def)
  with blank_bytes [of s space_encodings]
    blank_bytes [of "rev (trim_left_by space_encodings s)" "map rev space_encodings"]
  have "set s \<subseteq> \<Union> (set ` set space_encodings)" by auto
  moreover have "CHR '','' \<notin> set (concat space_encodings)" by code_simp
  ultimately show "CHR '','' \<notin> set s" by auto
qed

lemma canonical_key_empty [simp]: "canonical_key s = '''' \<longleftrightarrow> s = ''''"
  by (metis canonical_key_idem canonical_key_def length_0_conv length_map to_lower_canonical_key to_lower_def)

lemma case_empty [simp]: "to_lower s = '''' \<longleftrightarrow> s = ''''" "to_upper s = '''' \<longleftrightarrow> s = ''''"
  by (simp_all add: to_lower_def to_upper_def)

lemma policy_sets:
  "ch_wildcard (newCORSPolicy cfg maxAge) \<longleftrightarrow> ''*'' \<in> trim_space ` set (co_origins cfg)"
  "set (ch_origins (newCORSPolicy cfg maxAge)) = trim_space ` set (co_origins cfg) - {''*'', ''''}"
  "set (ch_methods (newCORSPolicy cfg maxAge)) = (to_upper \<circ> trim_space) ` set (co_methods cfg) - {''''}"
  "set (ch_headers (newCORSPolicy cfg maxAge)) = (to_lower \<circ> trim_space) ` set (co_headers cfg) - {''''}"
  by (auto simp: newCORSPolicy_def Let_def image_iff) (metis case_empty(1) to_lower_canonical_key)+

lemma origin_configured_iff:
  "origin_allowed (newCORSPolicy cfg maxAge) r \<longleftrightarrow>
     trim_space (header_get (rq_header r) ''Origin'') \<noteq> '''' \<and>
     origin_configured cfg (header_get (rq_header r) ''Origin'')"
  by (auto simp: origin_allowed_def policy_sets origin_configured_def Let_def image_iff) metis+

lemma method_configured_iff:
  "trim_space m \<noteq> '''' \<Longrightarrow> methodAllowed (newCORSPolicy cfg maxAge) m \<longleftrightarrow> method_configured cfg m"
  by (auto simp: methodAllowed_def policy_sets method_configured_def image_iff) metis

lemma headers_configured_iff:
  "headersAllowed (newCORSPolicy cfg maxAge) requested \<longleftrightarrow> headers_configured cfg requested"
proof (cases "trim_space requested = ''''")
  case True
  then show ?thesis
    using blank_no_comma [OF True] by (simp add: headersAllowed_def headers_configured_def)
next
  case False

  have "to_lower (trim_space name) \<in> set (ch_headers (newCORSPolicy cfg maxAge)) \<longleftrightarrow>
      (\<exists>h' \<in> set (co_headers cfg). equal_fold (trim_space h') (trim_space name))"
    if "trim_space name \<noteq> ''''" for name
    using that by (auto simp: policy_sets equal_fold_def image_iff) metis
  with False show ?thesis
    by (simp add: headersAllowed_def headers_configured_def list_all_iff Let_def) blast
qed

text \<open>
  C18. A preflight request is always answered by the CORS layer and never reaches the gateway:
  with 204 when its origin is configured (itself or by the wildcard), its method is, in any
  case, and each header it names is, in any case; with 403 otherwise. Any other request is
  passed on, with nothing sent.
\<close>

theorem cors_preflight_decision:
  assumes "cors_is_enabled cfg" and "rw_sent w = None" and "c = newCORSPolicy cfg maxAge"
  shows "(is_preflight r \<longrightarrow>
      fst (cors_handle c w r) \<and> rw_status (snd (cors_handle c w r)) =
        Some (if origin_configured cfg (header_get (rq_header r) ''Origin'') \<and>
                 method_configured cfg (header_get (rq_header r) ''Access-Control-Request-Method'') \<and>
                 headers_configured cfg (header_get (rq_header r) ''Access-Control-Request-Headers'')
              then 204 else 403)) \<and>
    (\<not> is_preflight r \<longrightarrow>
      \<not> fst (cors_handle c w r) \<and> rw_sent (snd (cors_handle c w r)) = None)"
proof -
  have "ch_enabled c" using assms(1,3) by (simp add: newCORSPolicy_def Let_def)
  from cors_preflight [OF this _ assms(2)] show ?thesis
    using cors_not_preflight [of r c w] assms(2,3)
    by (simp add: origin_configured_iff method_configured_iff headers_configured_iff is_preflight_def)
qed

definition sample_policy :: cors_handler where
  "sample_policy = newCORSPolicy sample_cors 600000000000"

definition preflight_request :: "string \<Rightarrow> request" where
  "preflight_request m =
     \<lparr>rq_method = ''OPTIONS'', rq_path = ''/v1/models'', rq_query = '''', rq_uri = ''/v1/models'',
      rq_header = [(''Origin'', [''https://app.example'']), (''Access-Control-Request-Method'', [m]),
        (''Access-Control-Request-Headers'', [''authorization''])],
      rq_remote = ''192.0.2.1:1234'', rq_body = None, rq_length = 0\<rparr>"

theorem cors_preflight_decision_witness:
  "rw_status (snd (cors_handle sample_policy (new_writer 64) (preflight_request ''GET''))) = Some 204 \<and>
   rw_status (snd (cors_handle sample_policy (new_writer 64) (preflight_request ''DELETE''))) = Some 403"
proof -
  have e: "cors_is_enabled sample_cors" "rw_sent (new_writer 64) = None"
    by (code_simp, simp add: new_writer_def)
  have facts: "is_preflight (preflight_request ''GET'')" "is_preflight (preflight_request ''DELETE'')"
    "origin_configured sample_cors (header_get (rq_header (preflight_request ''GET'')) ''Origin'')"
    "method_configured sample_cors
       (header_get (rq_header (preflight_request ''GET'')) ''Access-Control-Request-Method'')"
    "headers_configured sample_cors
       (header_get (rq_header (preflight_request ''GET'')) ''Access-Control-Request-Headers'')"
    "\<not> method_configured sample_cors
       (header_get (rq_header (preflight_request ''DELETE'')) ''Access-Control-Request-Method'')"
    by code_simp+
  show ?thesis
    using cors_preflight_decision [OF e sample_policy_def, of "preflight_request ''GET''"]
      cors_preflight_decision [OF e sample_policy_def, of "preflight_request ''DELETE''"] facts by simp
qed

text \<open>
  C19. The grant to scripts of another origin is exact: the response allows precisely the
  request's own origin (or the wildcard, where configured) when that origin is allowed, and
  no origin and no credentials otherwise; and under settings that passed validation the
  wildcard is never combined with credentials.
\<close>

theorem cors_grant_exact:
  assumes "validateCORS cfg maxAge = Inr ()" and "cors_is_enabled cfg"
    and "rw_sent w = None" and "grant (rw_header w) = ([], [])" and "c = newCORSPolicy cfg maxAge"
  shows "grant (rw_header (snd (cors_handle c w r))) =
      (if origin_allowed c r
       then ([if ch_wildcard c then ''*'' else trim_space (header_get (rq_header r) ''Origin'')],
             if ch_credentials c then [''true''] else [])
       else ([], [])) \<and>
    grant (rw_header (snd (cors_handle c w r))) \<noteq> ([''*''], [''true''])"
proof -
  have e: "ch_enabled c" using assms(2,5) by (simp add: newCORSPolicy_def Let_def)
  have "\<forall>x \<in> set (ch_origins c). x \<noteq> ''*''" using assms(5) by (simp add: newCORSPolicy_def Let_def)
  moreover have "ch_credentials c \<Longrightarrow> \<not> ch_wildcard c"
    using validateCORS_credentials [OF assms(1,2)] assms(5) by (auto simp: newCORSPolicy_def Let_def)
  ultimately show ?thesis
    using cors_handle_grant [OF e assms(3,4), of r] by (auto simp: origin_allowed_def Let_def)
qed

theorem cors_grant_exact_witness:
  "grant (rw_header (snd (cors_handle (newCORSPolicy sample_cors 600) (new_writer 64)
      (preflight_request ''GET'')))) = ([''https://app.example''], [''true''])"
proof -
  have ok: "validateCORS sample_cors 600 = Inr ()" "cors_is_enabled sample_cors" by code_simp+
  have w: "rw_sent (new_writer 64) = None" "grant (rw_header (new_writer 64)) = ([], [])"
    by (simp_all add: new_writer_def grant_def)
  have c: "origin_allowed (newCORSPolicy sample_cors 600) (preflight_request ''GET'')"
    "\<not> ch_wildcard (newCORSPolicy sample_cors 600)" "ch_credentials (newCORSPolicy sample_cors 600)"
    "trim_space (header_get (rq_header (preflight_request ''GET'')) ''Origin'') = ''https://app.example''"
    by code_simp+
  show ?thesis using cors_grant_exact [OF ok w refl, of "preflight_request ''GET''"] c by simp
qed

end
