(* ===== verification/Trusted_Proxy.thy ===== *)
theory Trusted_Proxy
  imports Http_Header Config_Parse
begin

section \<open>Client addresses behind trusted proxies (internal/gateway/trusted_proxy.go)\<close>

text \<open>
  Which address a request is attributed to: the peer's, unless the peer is a trusted proxy;
  then the last address of the \<open>X-Forwarded-For\<close> chain that is not one.
\<close>


subsection \<open>The peer\<close>

text \<open>\<open>net.SplitHostPort\<close>: the host, \<open>None\<close> for an error.\<close>

definition split_host_port :: "string \<Rightarrow> string option" where
  "split_host_port hp =
     (case str_split_last CHR '':'' hp of
        None \<Rightarrow> None
      | Some (before_port, port) \<Rightarrow>
          (if prefix ''['' hp then
             (case split_first CHR '']'' hp of
                None \<Rightarrow> None
              | Some (a, rest) \<Rightarrow>
                  (if length before_port \<noteq> Suc (length a) \<or> rest = [] \<or> hd rest \<noteq> CHR '':'' then None
                   else if CHR ''['' \<in> set (drop 1 hp) \<or> CHR '']'' \<in> set rest then None
                   else Some (drop 1 a)))
           else if CHR '':'' \<in> set before_port \<or> CHR ''['' \<in> set hp \<or> CHR '']'' \<in> set hp then None
           else Some before_port))"

definition parseRemoteAddr :: "string \<Rightarrow> ip_addr option" where
  "parseRemoteAddr val =
     (let val = trim_space val in
      if val = '''' then None
      else
        (let val = (case split_host_port val of Some host \<Rightarrow> host | None \<Rightarrow> val);
             val = trim_bytes [CHR ''['', CHR '']''] val
         in map_option addr_unmap (parse_addr val)))"


subsection \<open>The chain\<close>

text \<open>\<open>None\<close> is \<open>(nil, false)\<close>.\<close>

definition parse_forwarded :: "string \<Rightarrow> ip_addr option" where
  "parse_forwarded raw =
     (let raw = trim_space raw in
      if raw = '''' then None else map_option addr_unmap (parse_addr raw))"

fun collect :: "'a option list \<Rightarrow> 'a list option" where
  "collect [] = Some []"
| "collect (None # xs) = None"
| "collect (Some x # xs) = map_option (Cons x) (collect xs)"

definition parseForwardedChain :: "string list \<Rightarrow> ip_addr list option" where
  "parseForwardedChain values =
     (if values = [] then Some []
      else collect (map parse_forwarded (concat (map (split_on CHR '','') values))))"

definition trustedProxy :: "ip_prefix list \<Rightarrow> ip_addr \<Rightarrow> bool" where
  "trustedProxy proxies addr = list_ex (\<lambda>p. prefix_contains p (addr_unmap addr)) proxies"

text \<open>The loop over \<open>idx\<close>, from the right end of the chain.\<close>

fun walk_back :: "(ip_addr \<Rightarrow> bool) \<Rightarrow> ip_addr list \<Rightarrow> nat \<Rightarrow> nat" where
  "walk_back trusted chain 0 = 0"
| "walk_back trusted chain (Suc idx) =
     (if trusted (chain ! Suc idx) then walk_back trusted chain idx else Suc idx)"

definition resolveClientIP :: "ip_prefix list \<Rightarrow> string \<Rightarrow> header \<Rightarrow> string" where
  "resolveClientIP proxies remote h =
     (case parseRemoteAddr remote of
        None \<Rightarrow> ''''
      | Some peer \<Rightarrow>
          (if \<not> trustedProxy proxies peer then addr_string peer
           else
             (case parseForwardedChain (header_values h ''X-Forwarded-For'') of
                Some (f # fs) \<Rightarrow>
                  (let chain = (f # fs) @ [peer];
                       idx = walk_back (trustedProxy proxies) chain (length chain - 1)
                   in addr_string (chain ! idx))
              | _ \<Rightarrow>
                  (let raw = trim_space (header_get h ''X-Real-IP'') in
                   if raw \<noteq> '''' then
                     (case parse_addr raw of
                        Some addr \<Rightarrow> addr_string (addr_unmap addr)
                      | None \<Rightarrow> addr_string peer)
                   else addr_string peer))))"


subsection \<open>The walk over the chain\<close>

text \<open>The abstract rule: the last address that is not a proxy, or else the first of all.\<close>

fun last_untrusted :: "('a \<Rightarrow> bool) \<Rightarrow> 'a list \<Rightarrow> 'a option" where
  "last_untrusted trusted [] = None"
| "last_untrusted trusted (a # as) =
     (case last_untrusted trusted as of
        Some b \<Rightarrow> Some b
      | None \<Rightarrow> if trusted a then None else Some a)"

lemma last_untrusted_append:
  "last_untrusted t (xs @ ys) =
     (case last_untrusted t ys of Some b \<Rightarrow> Some b | None \<Rightarrow> last_untrusted t xs)"
  by (induction xs) (auto split: option.splits)

lemma last_untrusted_None: "last_untrusted t xs = None \<longleftrightarrow> (\<forall>x \<in> set xs. t x)"
  by (induction xs) (auto split: option.splits)

lemma last_untrusted_Some:
  "last_untrusted t xs = Some a \<Longrightarrow> \<not> t a \<and> (\<exists>pre post. xs = pre @ a # post \<and> (\<forall>x \<in> set post. t x))"
proof (induction xs)
  case Nil
  then show ?case by simp
next
  case (Cons x xs)
  show ?case
  proof (cases "last_untrusted t xs")
    case None
    with Cons.prems have "a = x" "\<not> t x" by (auto split: if_splits)
    with None show ?thesis by (auto simp: last_untrusted_None intro: exI [of _ "[]"])
  next
    case (Some b)
    with Cons obtain pre post where "\<not> t a" "xs = pre @ a # post" "\<forall>x \<in> set post. t x" by auto
    then show ?thesis by (auto intro: exI [of _ "x # pre"])
  qed
qed

lemma walk_back_spec:
  "n < length chain \<Longrightarrow>
   chain ! walk_back t chain n =
     (case last_untrusted t (take (Suc n) chain) of Some a \<Rightarrow> a | None \<Rightarrow> hd chain)"
proof (induction n)
  case 0
  then show ?case by (cases chain) auto
next
  case (Suc n)
  then show ?case by (simp add: take_Suc_conv_app_nth [of "Suc n"] last_untrusted_append)
qed

lemma walk_back_chain:
  "chain \<noteq> [] \<Longrightarrow>
   chain ! walk_back t chain (length chain - 1) =
     (case last_untrusted t chain of Some a \<Rightarrow> a | None \<Rightarrow> hd chain)"
  using walk_back_spec [of "length chain - 1" chain t] by (cases chain) simp_all

lemma collect_append:
  "collect (xs @ ys) = (case (collect xs, collect ys) of (Some a, Some b) \<Rightarrow> Some (a @ b) | _ \<Rightarrow> None)"
proof (induction xs)
  case Nil
  then show ?case by (simp split: option.split)
next
  case (Cons x xs)
  then show ?case by (cases x) (auto split: option.splits)
qed

lemma parseForwardedChain_append:
  assumes "parseForwardedChain us = Some xs" "parseForwardedChain vs = Some ys"
  shows "parseForwardedChain (us @ vs) = Some (xs @ ys)"
  using assms by (auto simp: parseForwardedChain_def collect_append split: if_splits)

lemma resolve_chain:
  assumes "parseRemoteAddr remote = Some peer" "trustedProxy proxies peer"
    and "parseForwardedChain (header_values h ''X-Forwarded-For'') = Some fs" "fs \<noteq> []"
  shows "resolveClientIP proxies remote h =
    addr_string (case last_untrusted (trustedProxy proxies) fs of Some a \<Rightarrow> a | None \<Rightarrow> hd fs)"
proof -
  obtain f gs where fs: "fs = f # gs" using assms(4) by (cases fs) auto
  let ?t = "trustedProxy proxies"
  have "last_untrusted ?t (fs @ [peer]) = last_untrusted ?t fs"
    using assms(2) by (simp add: last_untrusted_append)
  moreover have "hd (fs @ [peer]) = hd fs" using assms(4) by simp
  ultimately have "(fs @ [peer]) ! walk_back ?t (fs @ [peer]) (length (fs @ [peer]) - 1) =
      (case last_untrusted ?t fs of Some a \<Rightarrow> a | None \<Rightarrow> hd fs)"
    using walk_back_chain [of "fs @ [peer]" ?t] by (cases "last_untrusted ?t fs") simp_all
  with assms(1-3) show ?thesis
    unfolding fs resolveClientIP_def by (simp only: option.case list.case if_False if_True Let_def simp_thms)
qed


lemma split_on_comma: "split_on c (xs @ c # ys) = split_on c xs @ split_on c ys"
proof (induction xs)
  case (Cons x xs)
  then show ?case by (cases "split_on c xs") auto
qed simp

text \<open>A value another one is joined to by a comma counts like one on a line of its own.\<close>

lemma parseForwardedChain_comma:
  "parseForwardedChain (us @ (x @ '','' @ v) # vs) = parseForwardedChain (us @ x # v # vs)"
  by (simp add: parseForwardedChain_def split_on_comma)

lemma collect_None: "collect xs = None \<longleftrightarrow> None \<in> set xs"
  by (induction xs rule: collect.induct) auto

lemma parseForwardedChain_append_None:
  "parseForwardedChain us = None \<Longrightarrow> parseForwardedChain (us @ vs) = None"
  by (auto simp: parseForwardedChain_def collect_None split: if_splits)

lemma parseForwardedChain_nonempty: "parseForwardedChain (v # vs) \<noteq> Some []"
proof -
  have "collect xs = Some [] \<Longrightarrow> xs = []" for xs :: "'a option list"
    by (cases xs rule: collect.cases) auto
  then show ?thesis by (force simp: parseForwardedChain_def)
qed

lemma resolve_discarded:
  assumes "parseRemoteAddr remote = Some peer" "trustedProxy proxies peer"
    and "parseForwardedChain (header_values h ''X-Forwarded-For'') = None"
  shows "resolveClientIP proxies remote h =
    (case parse_addr (trim_space (header_get h ''X-Real-IP'')) of
       Some a \<Rightarrow> addr_string (addr_unmap a) | None \<Rightarrow> addr_string peer)"
proof -
  have "parse_addr '''' = None" by code_simp
  with assms show ?thesis by (auto simp: resolveClientIP_def Let_def split: option.split)
qed


subsection \<open>Properties\<close>

text \<open>
  Forwarding headers of an untrusted peer are ignored: the client address is the peer's
  own, whatever the headers say.
\<close>

theorem untrusted_peer_ignores_headers:
  assumes "parseRemoteAddr remote = Some peer" and "\<not> trustedProxy proxies peer"
  shows "resolveClientIP proxies remote h = addr_string peer"
  using assms by (simp add: resolveClientIP_def)

theorem untrusted_peer_ignores_headers_witness:
  "resolveClientIP [] ''192.0.2.7:4711'' [(''X-Forwarded-For'', [''10.0.0.1''])] = ''192.0.2.7''"
proof -
  have p: "parseRemoteAddr ''192.0.2.7:4711'' = Some (IPv4 0xC0000207)" by code_simp
  have "\<not> trustedProxy [] (IPv4 0xC0000207)" by (simp add: trustedProxy_def)
  moreover have "addr_string (IPv4 0xC0000207) = ''192.0.2.7''" by code_simp
  ultimately show ?thesis using untrusted_peer_ignores_headers [OF p] by simp
qed

text \<open>
  C15. Behind trusted proxies the client address is the last address of the forwarded chain
  that is not itself a trusted proxy (the first one when all are). A client that sends
  forwarding headers of its own, which the proxies keep on the left of what they write (as
  header lines of their own, or in the same line before a comma), changes nothing as long as
  its values are addresses; if one is not, the whole chain is discarded, and the address is
  the one in \<open>X-Real-IP\<close> if that is one, else the peer's.
\<close>

theorem forwarded_chain_unspoofable:
  assumes "parseRemoteAddr remote = Some peer" and "trustedProxy proxies peer"
    and "header_values h ''X-Forwarded-For'' = v # vs" and "parseForwardedChain (v # vs) = Some fs"
    and "header_values h' ''X-Forwarded-For'' = forged @ v # vs \<or>
      (\<exists>first same_line. forged = first @ [same_line] \<and>
        header_values h' ''X-Forwarded-For'' = first @ (same_line @ '','' @ v) # vs)"
  shows "resolveClientIP proxies remote h =
      addr_string (case last_untrusted (trustedProxy proxies) fs of Some a \<Rightarrow> a | None \<Rightarrow> hd fs) \<and>
    (case parseForwardedChain forged of
       Some gs \<Rightarrow>
         (\<exists>a \<in> set fs. \<not> trustedProxy proxies a) \<longrightarrow>
           resolveClientIP proxies remote h' = resolveClientIP proxies remote h
     | None \<Rightarrow>
         resolveClientIP proxies remote h' =
           (case parse_addr (trim_space (header_get h' ''X-Real-IP'')) of
              Some a \<Rightarrow> addr_string (addr_unmap a) | None \<Rightarrow> addr_string peer))"
proof -
  have nonempty: "fs \<noteq> []" using assms(4) parseForwardedChain_nonempty by blast
  have chain: "parseForwardedChain (header_values h' ''X-Forwarded-For'') = parseForwardedChain (forged @ v # vs)"
    using assms(5) parseForwardedChain_comma by auto
  show ?thesis
  proof (cases "parseForwardedChain forged")
    case None
    with chain have "parseForwardedChain (header_values h' ''X-Forwarded-For'') = None"
      by (simp add: parseForwardedChain_append_None)
    with None resolve_chain [OF assms(1,2), of h fs] resolve_discarded [OF assms(1,2)] assms(3,4) nonempty
    show ?thesis by simp
  next
    case (Some gs)
    from parseForwardedChain_append [OF Some assms(4)] chain
    have "parseForwardedChain (header_values h' ''X-Forwarded-For'') = Some (gs @ fs)" by simp
    from resolve_chain [OF assms(1,2) this] resolve_chain [OF assms(1,2), of h fs] assms(3,4) nonempty Some
    show ?thesis by (auto simp: last_untrusted_append last_untrusted_None split: option.split)
  qed
qed

theorem forwarded_chain_unspoofable_witness:
  "resolveClientIP [\<lparr>pf_addr = IPv4 0x0A000000, pf_bits = 8\<rparr>] ''10.0.0.2:80''
     [(''X-Forwarded-For'', [''1.1.1.1'', ''8.8.8.8,203.0.113.9, 10.0.0.7''])] = ''203.0.113.9''"
proof -
  let ?t = "trustedProxy [\<lparr>pf_addr = IPv4 0x0A000000, pf_bits = 8\<rparr>]"
  let ?h = "[(''X-Forwarded-For'', [''203.0.113.9, 10.0.0.7''])]"
  let ?h' = "[(''X-Forwarded-For'', [''1.1.1.1'', ''8.8.8.8,203.0.113.9, 10.0.0.7''])]"
  have p: "parseRemoteAddr ''10.0.0.2:80'' = Some (IPv4 0x0A000002)" by code_simp
  have v: "header_values ?h ''X-Forwarded-For'' = [''203.0.113.9, 10.0.0.7'']" by code_simp
  have chain: "parseForwardedChain [''203.0.113.9, 10.0.0.7''] = Some [IPv4 0xCB007109, IPv4 0x0A000007]"
    "parseForwardedChain [''1.1.1.1'', ''8.8.8.8''] = Some [IPv4 0x01010101, IPv4 0x08080808]" by code_simp+
  have t: "?t (IPv4 0x0A000002)" "?t (IPv4 0x0A000007)" "\<not> ?t (IPv4 0xCB007109)" by code_simp+
  have s: "addr_string (IPv4 0xCB007109) = ''203.0.113.9''" by code_simp
  have "header_values ?h' ''X-Forwarded-For'' = [''1.1.1.1''] @ [''8.8.8.8'' @ '','' @ ''203.0.113.9, 10.0.0.7'']"
    by code_simp
  then have x: "header_values ?h' ''X-Forwarded-For'' = [''1.1.1.1'', ''8.8.8.8''] @ [''203.0.113.9, 10.0.0.7''] \<or>
      (\<exists>first same_line. [''1.1.1.1'', ''8.8.8.8''] = first @ [same_line] \<and>
        header_values ?h' ''X-Forwarded-For'' = first @ [same_line @ '','' @ ''203.0.113.9, 10.0.0.7''])"
    by (intro disjI2 exI [of _ "[''1.1.1.1'']"] exI [of _ "''8.8.8.8''"]) simp
  from forwarded_chain_unspoofable [OF p t(1) v chain(1) x] t s show ?thesis
    by (simp add: chain(2))
qed

text \<open>
  A chain that does not parse is not used at all: with one malformed entry anywhere the
  result is the same as without the header (the peer, or \<open>X-Real-IP\<close> where it parses).
\<close>

theorem malformed_chain_discarded:
  assumes "val \<in> set (header_values h ''X-Forwarded-For'')" and "part \<in> set (split_on CHR '','' val)"
    and "parse_forwarded part = None"
  shows "resolveClientIP proxies remote h = resolveClientIP proxies remote (header_del h ''X-Forwarded-For'')"
proof -
  have "None \<in> set xs \<Longrightarrow> collect xs = None" for xs :: "ip_addr option list"
    by (induction xs rule: collect.induct) auto
  moreover have "None \<in> set (map parse_forwarded
      (concat (map (split_on CHR '','') (header_values h ''X-Forwarded-For''))))"
    using assms by force
  ultimately have "parseForwardedChain (header_values h ''X-Forwarded-For'') = None"
    using assms(1) by (auto simp: parseForwardedChain_def)
  moreover have "canonical_key ''X-Real-IP'' \<noteq> canonical_key ''X-Forwarded-For''" by code_simp
  ultimately show ?thesis
    by (simp add: resolveClientIP_def parseForwardedChain_def split: option.split)
qed

theorem malformed_chain_discarded_witness:
  "resolveClientIP [\<lparr>pf_addr = IPv4 0x0A000000, pf_bits = 8\<rparr>] ''10.0.0.2:80''
     [(''X-Forwarded-For'', [''203.0.113.9, unknown''])] =
   resolveClientIP [\<lparr>pf_addr = IPv4 0x0A000000, pf_bits = 8\<rparr>] ''10.0.0.2:80'' []"
proof -
  have "''203.0.113.9, unknown'' \<in> set (header_values [(''X-Forwarded-For'', [''203.0.113.9, unknown''])]
      ''X-Forwarded-For'')" "'' unknown'' \<in> set (split_on CHR '','' ''203.0.113.9, unknown'')"
    "parse_forwarded '' unknown'' = None"
    "header_del [(''X-Forwarded-For'', [''203.0.113.9, unknown''])] ''X-Forwarded-For'' = []"
    by code_simp+
  with malformed_chain_discarded [of _ "[(''X-Forwarded-For'', [''203.0.113.9, unknown''])]"]
  show ?thesis by metis
qed

end
