(* ===== verification/Gw_Runtime.thy ===== *)
theory Gw_Runtime
  imports Config_Load Cors_Policy Log_Ring Gw_Metrics Rate_Limiter Http_Helpers
begin

section \<open>Runtime snapshots and hot reload (internal/gateway/gateway.go, runtime.go)\<close>

text \<open>
  The state of a gateway and the immutable runtime snapshot a request works on. Circuit
  breakers are shared, mutable objects that outlive the snapshot that created them: they
  live in a store, \<open>gw_breakers\<close>, and a provider holds the address of its breaker, so a
  request still running on an old snapshot reports to the old breaker after a reload.
\<close>


subsection \<open>State\<close>

record provider_runtime =
  pr_name :: string
  pr_spec :: provider_spec
  pr_base_url :: url
  pr_api_key :: string
  pr_headers :: "(string \<times> string) list"
  pr_timeout :: duration
  pr_breaker :: nat
  pr_propagate :: bool

record client_auth =
  ca_name :: string
  ca_rate_limit_rpm :: i64

record runtime_snapshot =
  rs_cfg :: config_runtime
  rs_providers :: "(string \<times> provider_runtime) list"
  rs_default :: provider_runtime
  rs_tokens :: "(string \<times> client_auth) list"
  rs_operations_token :: string
  rs_cors :: cors_handler

record http_server =
  hs_addr :: string
  hs_read_timeout :: duration
  hs_read_header_timeout :: duration
  hs_write_timeout :: duration
  hs_idle_timeout :: duration
  hs_isolated :: bool

record 'r gateway =
  gw_runtime :: runtime_snapshot
  gw_rate_limits :: "'r limiter rate_limit_manager"
  gw_metrics :: metrics
  gw_logs :: log_ring
  gw_breakers :: "circuit_breaker list"
  gw_server :: http_server
  gw_started :: gotime

record reload_result =
  rr_changed :: bool
  rr_reloaded :: gotime
  rr_providers :: nat
  rr_clients :: nat


subsection \<open>Building a snapshot\<close>

definition circuitPolicyFor :: "config_runtime \<Rightarrow> string \<Rightarrow> circuit_policy" where
  "circuitPolicyFor rt providerName =
     (case map_of (rt_provider_circuits rt) providerName of
        None \<Rightarrow> defaultCircuitPolicy
      | Some configured \<Rightarrow>
          (let policy = \<lparr>cp_enabled = cr_enabled configured, cp_threshold = cr_threshold configured,
                         cp_open_for = cr_open_for configured\<rparr>;
               policy = (if cp_threshold policy \<le> 0
                         then policy\<lparr>cp_threshold := defaultCircuitFailureThreshold\<rparr> else policy)
           in if cp_open_for policy \<le> 0
              then policy\<lparr>cp_open_for := defaultCircuitOpenFor\<rparr> else policy))"

datatype build_error =
  BuildType string string
| BuildURL string
| BuildDefault string

text \<open>
  One provider: the metrics entry, the breaker (fresh, or cloned from the previous
  snapshot's) and the client. The state is the metrics, the store of breakers and the
  providers built so far.
\<close>

type_synonym build_state = "metrics \<times> circuit_breaker list \<times> (string \<times> provider_runtime) list"

definition build_breaker ::
  "config_runtime \<Rightarrow> runtime_snapshot option \<Rightarrow> circuit_breaker list \<Rightarrow> gotime \<Rightarrow> string \<Rightarrow>
   circuit_breaker" where
  "build_breaker rt previous breakers now name =
     (let policy = circuitPolicyFor rt name in
      case previous of
        None \<Rightarrow> newCircuitBreakerWithPolicy policy
      | Some old \<Rightarrow>
          (case map_of (rs_providers old) name of
             None \<Rightarrow> newCircuitBreakerWithPolicy policy
           | Some oldProvider \<Rightarrow>
               cloneWithPolicy (Some (breakers ! pr_breaker oldProvider)) policy now))"

definition build_provider ::
  "config_runtime \<Rightarrow> runtime_snapshot option \<Rightarrow> gotime \<Rightarrow> provider_config \<Rightarrow> build_state \<Rightarrow>
   build_error option \<times> build_state" where
  "build_provider rt previous now p st =
     (let (metrics, breakers, providers) = st; (spec, ok) = Lookup (pc_type p) in
      if \<not> ok then (Some (BuildType (pc_name p) (pc_type p)), st)
      else (case url_parse (trim_right_byte CHR ''/'' (pc_base_url p)) of
          None \<Rightarrow> (Some (BuildURL (pc_name p)), st)
        | Some u \<Rightarrow>
            (if url_scheme u = '''' \<or> url_host u = '''' then (Some (BuildURL (pc_name p)), st)
             else
               (let (_, metrics) = metrics_provider (pc_name p) metrics;
                    breaker = build_breaker rt previous breakers now (pc_name p);
                    te = cf_telemetry (rt_config rt);
                    timeout = (case map_of (rt_provider_timeouts rt) (pc_name p) of
                                 None \<Rightarrow> 0 | Some d \<Rightarrow> d);
                    pr = \<lparr>pr_name = pc_name p, pr_spec = spec, pr_base_url = u,
                          pr_api_key = pc_api_key p, pr_headers = pc_headers p, pr_timeout = timeout,
                          pr_breaker = length breakers,
                          pr_propagate = te_enabled te \<and> te_propagate te\<rparr>
                in (None, metrics, breakers @ [breaker],
                    AList.update (pc_name p) pr providers)))))"

fun build_providers ::
  "config_runtime \<Rightarrow> runtime_snapshot option \<Rightarrow> gotime \<Rightarrow> provider_config list \<Rightarrow> build_state \<Rightarrow>
   build_error option \<times> build_state" where
  "build_providers rt previous now [] st = (None, st)"
| "build_providers rt previous now (p # ps) st =
     (case build_provider rt previous now p st of
        (Some e, st) \<Rightarrow> (Some e, st)
      | (None, st) \<Rightarrow> build_providers rt previous now ps st)"

definition client_tokens :: "client_config list \<Rightarrow> (string \<times> client_auth) list" where
  "client_tokens clients =
     fold (\<lambda>c tokens. if \<not> cl_enabled c then tokens
        else AList.update (cl_token c)
               \<lparr>ca_name = cl_name c, ca_rate_limit_rpm = cl_rate_limit_rpm c\<rparr> tokens) clients []"

definition buildRuntimeSnapshot ::
  "config_runtime \<Rightarrow> runtime_snapshot option \<Rightarrow> gotime \<Rightarrow> metrics \<Rightarrow> circuit_breaker list \<Rightarrow>
   (build_error + runtime_snapshot) \<times> metrics \<times> circuit_breaker list" where
  "buildRuntimeSnapshot rt previous now metrics breakers =
     (let cfg = rt_config rt;
          (err, metrics, breakers, providers) =
            build_providers rt previous now (cf_providers cfg) (metrics, breakers, [])
      in case err of
           Some e \<Rightarrow> (Inl e, metrics, breakers)
         | None \<Rightarrow>
             (case map_of providers (cf_default_provider cfg) of
                None \<Rightarrow> (Inl (BuildDefault (cf_default_provider cfg)), metrics, breakers)
              | Some defaultProvider \<Rightarrow>
                  (Inr \<lparr>rs_cfg = rt, rs_providers = providers, rs_default = defaultProvider,
                        rs_tokens = client_tokens (cf_clients cfg),
                        rs_operations_token = op_token (cf_operations cfg),
                        rs_cors = newCORSPolicy (sv_cors (cf_server cfg)) (rt_cors_max_age rt)\<rparr>,
                   metrics, breakers)))"


subsection \<open>Hot reload\<close>

text \<open>
  \<open>reflect.DeepEqual\<close> of two configurations: maps are compared without regard to order.
  (A nil and an empty slice, which it tells apart, are the same list here.)
\<close>

definition sort_headers :: "provider_config \<Rightarrow> provider_config" where
  "sort_headers p = p\<lparr>pc_headers := sort_key fst (pc_headers p)\<rparr>"

definition same_config :: "config \<Rightarrow> config \<Rightarrow> bool" where
  "same_config a b \<longleftrightarrow>
     a\<lparr>cf_providers := map sort_headers (cf_providers a)\<rparr> =
     b\<lparr>cf_providers := map sort_headers (cf_providers b)\<rparr>"

datatype reload_error =
  ReloadListen | ReloadReadTimeout | ReloadWriteTimeout | ReloadIdleTimeout
| ReloadRateLimit | ReloadTelemetry
| ReloadBuild build_error

definition validateHotReload :: "config_runtime \<Rightarrow> config_runtime \<Rightarrow> reload_error + unit" where
  "validateHotReload old next =
     bind_res (guard_res (sv_listen (cf_server (rt_config old)) \<noteq> sv_listen (cf_server (rt_config next)))
       ReloadListen) (\<lambda>_.
     bind_res (guard_res (rt_read_timeout old \<noteq> rt_read_timeout next) ReloadReadTimeout) (\<lambda>_.
     bind_res (guard_res (rt_write_timeout old \<noteq> rt_write_timeout next) ReloadWriteTimeout) (\<lambda>_.
     bind_res (guard_res (rt_idle_timeout old \<noteq> rt_idle_timeout next) ReloadIdleTimeout) (\<lambda>_.
     bind_res (guard_res (cf_rate_limit (rt_config old) \<noteq> cf_rate_limit (rt_config next))
       ReloadRateLimit) (\<lambda>_.
     guard_res (cf_telemetry (rt_config old) \<noteq> cf_telemetry (rt_config next)) ReloadTelemetry)))))"

definition system_entry :: "gotime \<Rightarrow> string \<Rightarrow> string \<Rightarrow> log_entry" where
  "system_entry tm level msg =
     \<lparr>le_time = tm, le_level = level, le_client = ''system'', le_client_ip = '''', le_provider = '''',
      le_method = '''', le_path = '''', le_status = 0, le_bytes = 0, le_duration = 0,
      le_request_id = '''', le_message = msg\<rparr>"

text \<open>
  \<open>text_of\<close> renders an error, \<open>Error()\<close> of the Go value. \<open>now\<close> is the clock the new breakers
  are cloned with and \<open>logged\<close> the clock of the log entry.
\<close>

definition recordReloadFailure :: "gotime \<Rightarrow> string \<Rightarrow> 'r gateway \<Rightarrow> 'r gateway" where
  "recordReloadFailure clock err g =
     g\<lparr>gw_logs := logring_add clock
         (system_entry zero_time ''error'' (''config reload rejected: '' @ err)) (gw_logs g)\<rparr>"

definition reload ::
  "(string \<Rightarrow> string) \<Rightarrow> (reload_error \<Rightarrow> string) \<Rightarrow> gotime \<Rightarrow> gotime \<Rightarrow> config_runtime \<Rightarrow>
   'r gateway \<Rightarrow> (reload_error + reload_result) \<times> 'r gateway" where
  "reload sha256 text_of now logged rt g =
     (let old = gw_runtime g in
      if same_config (rt_config (rs_cfg old)) (rt_config rt)
      then (Inr \<lparr>rr_changed = False, rr_reloaded = zero_time, rr_providers = 0, rr_clients = 0\<rparr>, g)
      else (case validateHotReload (rs_cfg old) rt of
          Inl e \<Rightarrow> (Inl e, recordReloadFailure logged (text_of e) g)
        | Inr _ \<Rightarrow>
            (let (built, metrics, breakers) =
                   buildRuntimeSnapshot rt (Some old) now (gw_metrics g) (gw_breakers g);
                 g = g\<lparr>gw_metrics := metrics, gw_breakers := breakers\<rparr>
             in case built of
                  Inl e \<Rightarrow> (Inl (ReloadBuild e), recordReloadFailure logged (text_of (ReloadBuild e)) g)
                | Inr next \<Rightarrow>
                    (let g = g\<lparr>gw_runtime := next,
                               gw_rate_limits := manager_retain_tokens limiter_retain sha256
                                 (gw_rate_limits g) (set (map fst (rs_tokens next))),
                               gw_logs := logring_resize (lg_recent (cf_logging (rt_config rt))) (gw_logs g)\<rparr>;
                         np = length (rs_providers next); nc = length (rs_tokens next);
                         g = g\<lparr>gw_logs := logring_add logged (system_entry logged ''info''
                               (''config reloaded atomically: '' @ itoa (int np) @ '' providers, ''
                                @ itoa (int nc) @ '' enabled clients'')) (gw_logs g)\<rparr>
                     in (Inr \<lparr>rr_changed = True, rr_reloaded = logged, rr_providers = np,
                              rr_clients = nc\<rparr>, g)))))"


subsection \<open>Construction\<close>

datatype new_error = NewLimiter limiter_error | NewBuild build_error

definition new_gateway ::
  "(string \<Rightarrow> string \<Rightarrow> duration \<Rightarrow> ('r \<times> redis_link) option) \<Rightarrow> string \<Rightarrow> (string \<Rightarrow> string) \<Rightarrow> gotime \<Rightarrow>
   config_runtime \<Rightarrow> new_error + 'r gateway" where
  "new_gateway connect inst sha256 clock rt =
     (case newRateLimitManager connect inst rt of
        Inl e \<Rightarrow> Inl (NewLimiter e)
      | Inr rateLimits \<Rightarrow>
          (case buildRuntimeSnapshot rt None clock (newMetrics clock) [] of
             (Inl e, _) \<Rightarrow> Inl (NewBuild e)
           | (Inr state, metrics, breakers) \<Rightarrow>
               Inr \<lparr>gw_runtime = state,
                    gw_rate_limits = manager_retain_tokens limiter_retain sha256 rateLimits
                      (set (map fst (rs_tokens state))),
                    gw_metrics = metrics,
                    gw_logs = newLogRing (lg_recent (cf_logging (rt_config rt))),
                    gw_breakers = breakers,
                    gw_server = \<lparr>hs_addr = sv_listen (cf_server (rt_config rt)),
                      hs_read_timeout = rt_read_timeout rt,
                      hs_read_header_timeout =
                        minDuration [10 * nanos_second, rt_read_timeout rt, 10 * nanos_second],
                      hs_write_timeout = rt_write_timeout rt, hs_idle_timeout = rt_idle_timeout rt,
                      hs_isolated = False\<rparr>,
                    gw_started = clock\<rparr>))"


subsection \<open>What a build yields\<close>

text \<open>A provider that can be built, and the runtime value built for it at an address.\<close>

definition provider_url :: "provider_config \<Rightarrow> url option" where
  "provider_url p =
     (case url_parse (trim_right_byte CHR ''/'' (pc_base_url p)) of
        None \<Rightarrow> None | Some u \<Rightarrow> if url_scheme u = '''' \<or> url_host u = '''' then None else Some u)"

definition provider_ready :: "provider_config \<Rightarrow> bool" where
  "provider_ready p \<longleftrightarrow> snd (Lookup (pc_type p)) \<and> provider_url p \<noteq> None"

definition runtime_of :: "config_runtime \<Rightarrow> provider_config \<Rightarrow> nat \<Rightarrow> provider_runtime" where
  "runtime_of rt p a =
     \<lparr>pr_name = pc_name p, pr_spec = fst (Lookup (pc_type p)), pr_base_url = the (provider_url p),
      pr_api_key = pc_api_key p, pr_headers = pc_headers p,
      pr_timeout = (case map_of (rt_provider_timeouts rt) (pc_name p) of None \<Rightarrow> 0 | Some d \<Rightarrow> d),
      pr_breaker = a,
      pr_propagate = te_enabled (cf_telemetry (rt_config rt)) \<and> te_propagate (cf_telemetry (rt_config rt))\<rparr>"

text \<open>Every breaker a snapshot refers to is in the store.\<close>

definition breakers_in :: "runtime_snapshot option \<Rightarrow> nat \<Rightarrow> bool" where
  "breakers_in previous n \<longleftrightarrow>
     (case previous of None \<Rightarrow> True | Some s \<Rightarrow> \<forall>pr \<in> snd ` set (rs_providers s). pr_breaker pr < n)"

lemma update_fresh: "k \<notin> fst ` set al \<Longrightarrow> AList.update k v al = al @ [(k, v)]"
  by (induction al) auto

lemma build_breaker_append:
  assumes "breakers_in previous (length brs)"
  shows "build_breaker rt previous (brs @ xs) now n = build_breaker rt previous brs now n"
proof (cases previous)
  case (Some s)
  have "map_of (rs_providers s) n = Some pr \<Longrightarrow> pr_breaker pr < length brs" for pr
    using assms by (force simp: Some breakers_in_def dest: map_of_SomeD)
  then show ?thesis
    by (cases "map_of (rs_providers s) n") (simp_all add: build_breaker_def Some nth_append Let_def)
qed (simp add: build_breaker_def)

lemma build_provider_ready:
  assumes "provider_ready p" "pc_name p \<notin> fst ` set prs"
  shows "build_provider rt previous now p (m, brs, prs) =
    (None, snd (metrics_provider (pc_name p) m), brs @ [build_breaker rt previous brs now (pc_name p)],
     prs @ [(pc_name p, runtime_of rt p (length brs))])"
  using assms
  by (auto simp: build_provider_def provider_ready_def provider_url_def runtime_of_def Let_def
      update_fresh split: prod.split option.splits if_splits)

lemma build_provider_frame:
  assumes "build_provider rt previous now p (m, brs, prs) = (e, m', brs', prs')"
  shows "(\<exists>xs. brs' = brs @ xs) \<and> provider_entry n m' = provider_entry n m"
  using assms metrics_provider_entry [of "pc_name p" m _ _ n]
  by (auto simp: build_provider_def Let_def split: prod.splits option.splits if_splits)

lemma build_providers_frame:
  assumes "build_providers rt previous now ps (m, brs, prs) = (e, m', brs', prs')"
  shows "(\<exists>xs. brs' = brs @ xs) \<and> provider_entry n m' = provider_entry n m"
  using assms
proof (induction ps arbitrary: m brs prs)
  case (Cons p ps)
  obtain e1 m1 brs1 prs1 where p: "build_provider rt previous now p (m, brs, prs) = (e1, m1, brs1, prs1)"
    by (metis prod_cases4)
  from Cons.IH [of m1 brs1 prs1] Cons.prems build_provider_frame [OF p, of n] p
  show ?case by (cases e1) auto
qed simp

lemma build_providers_ready:
  assumes "distinct (map pc_name ps)" "\<forall>p \<in> set ps. provider_ready p"
    "pc_name ` set ps \<inter> fst ` set prs = {}" "breakers_in previous (length brs)"
  shows "\<exists>m'. build_providers rt previous now ps (m, brs, prs) =
    (None, m', brs @ map (\<lambda>p. build_breaker rt previous brs now (pc_name p)) ps,
     prs @ map (\<lambda>(a, p). (pc_name p, runtime_of rt p a)) (enumerate (length brs) ps))"
  using assms
proof (induction ps arbitrary: m brs prs)
  case (Cons p ps)
  let ?b = "build_breaker rt previous brs now (pc_name p)"
  let ?prs = "prs @ [(pc_name p, runtime_of rt p (length brs))]"
  have more: "breakers_in previous (length (brs @ [?b]))"
    using Cons.prems(4) by (auto simp: breakers_in_def less_Suc_eq split: option.splits)
  from Cons.prems have "distinct (map pc_name ps)" "\<forall>p \<in> set ps. provider_ready p"
    "pc_name ` set ps \<inter> fst ` set ?prs = {}" by auto
  from Cons.IH [OF this more, of "snd (metrics_provider (pc_name p) m)"] Cons.prems
  show ?case
    by (simp add: build_provider_ready build_breaker_append [OF Cons.prems(4)])
qed simp


definition auth_of :: "client_config \<Rightarrow> client_auth" where
  "auth_of c = \<lparr>ca_name = cl_name c, ca_rate_limit_rpm = cl_rate_limit_rpm c\<rparr>"

lemma client_tokens_snoc:
  "client_tokens (cs @ [c]) =
     (if cl_enabled c then AList.update (cl_token c) (auth_of c) (client_tokens cs) else client_tokens cs)"
  by (simp add: client_tokens_def auth_of_def)

lemma client_tokens_distinct:
  "distinct (enabled_tokens cs) \<Longrightarrow>
   client_tokens cs = map (\<lambda>c. (cl_token c, auth_of c)) (filter cl_enabled cs)"
proof (induction cs rule: rev_induct)
  case Nil then show ?case by (simp add: client_tokens_def)
next
  case (snoc c cs)
  then show ?case
    by (auto simp: client_tokens_snoc enabled_tokens_def image_image intro!: update_fresh)
qed

definition built_providers :: "config_runtime \<Rightarrow> nat \<Rightarrow> (string \<times> provider_runtime) list" where
  "built_providers rt a =
     map (\<lambda>(a, p). (pc_name p, runtime_of rt p a)) (enumerate a (cf_providers (rt_config rt)))"

definition snapshot_of :: "config_runtime \<Rightarrow> nat \<Rightarrow> runtime_snapshot" where
  "snapshot_of rt a =
     \<lparr>rs_cfg = rt, rs_providers = built_providers rt a,
      rs_default = the (map_of (built_providers rt a) (cf_default_provider (rt_config rt))),
      rs_tokens = client_tokens (cf_clients (rt_config rt)),
      rs_operations_token = op_token (cf_operations (rt_config rt)),
      rs_cors = newCORSPolicy (sv_cors (cf_server (rt_config rt))) (rt_cors_max_age rt)\<rparr>"

definition runtime_ready :: "config_runtime \<Rightarrow> bool" where
  "runtime_ready rt \<longleftrightarrow>
     distinct (map pc_name (cf_providers (rt_config rt))) \<and>
     (\<forall>p \<in> set (cf_providers (rt_config rt)). provider_ready p) \<and>
     cf_default_provider (rt_config rt) \<in> pc_name ` set (cf_providers (rt_config rt))"

lemma built_providers_names [simp]:
  "map fst (built_providers rt a) = map pc_name (cf_providers (rt_config rt))"
  by (simp add: built_providers_def case_prod_unfold comp_def)
     (metis map_map comp_apply map_snd_enumerate map_cong)

lemma built_providers_set:
  "(n, pr) \<in> set (built_providers rt a) \<longleftrightarrow>
     (\<exists>i < length (cf_providers (rt_config rt)).
        n = pc_name (cf_providers (rt_config rt) ! i) \<and>
        pr = runtime_of rt (cf_providers (rt_config rt) ! i) (a + i))"
  unfolding in_set_conv_nth by (auto simp: built_providers_def nth_enumerate_eq)

lemma build_snapshot_ready:
  assumes "runtime_ready rt" "breakers_in previous (length brs)"
  shows "\<exists>m'. buildRuntimeSnapshot rt previous now m brs =
    (Inr (snapshot_of rt (length brs)), m',
     brs @ map (build_breaker rt previous brs now \<circ> pc_name) (cf_providers (rt_config rt)))"
proof -
  let ?ps = "cf_providers (rt_config rt)"
  obtain m' where b: "build_providers rt previous now ?ps (m, brs, []) =
      (None, m', brs @ map (build_breaker rt previous brs now \<circ> pc_name) ?ps,
       built_providers rt (length brs))"
    using build_providers_ready [of ?ps "[]" previous brs rt now m] assms
    by (auto simp: runtime_ready_def built_providers_def comp_def)
  have "cf_default_provider (rt_config rt) \<in> fst ` set (built_providers rt (length brs))"
    using assms(1) by (metis built_providers_names list.set_map runtime_ready_def)
  then obtain pr where "map_of (built_providers rt (length brs)) (cf_default_provider (rt_config rt)) = Some pr"
    by (metis map_of_eq_None_iff not_Some_eq)
  then show ?thesis by (simp add: buildRuntimeSnapshot_def b snapshot_of_def Let_def)
qed

lemma build_snapshot_frame:
  assumes "buildRuntimeSnapshot rt previous now m brs = (r, m', brs')"
  shows "(\<exists>xs. brs' = brs @ xs) \<and> provider_entry n m' = provider_entry n m \<and>
    (case r of Inl e \<Rightarrow> True | Inr s \<Rightarrow> rs_cfg s = rt)"
proof -
  obtain e m1 brs1 prs1 where p: "build_providers rt previous now (cf_providers (rt_config rt)) (m, brs, []) =
    (e, m1, brs1, prs1)" by (metis prod_cases4)
  from build_providers_frame [OF p, of n] assms show ?thesis
    by (auto simp: buildRuntimeSnapshot_def p Let_def split: option.splits)
qed

text \<open>A configuration that loads can be built.\<close>

lemma url_ok_ready: "url_ok (pc_base_url p) \<Longrightarrow>
    trim_right_byte CHR ''/'' (pc_base_url p) = pc_base_url p \<Longrightarrow> provider_url p \<noteq> None"
  by (auto simp: url_ok_def provider_url_def http_url_def split: option.splits)

lemma load_runtime_ready:
  assumes "load decode getenv fs path = Inr rt"
  shows "runtime_ready rt"
proof -
  from load_valid [OF assms] have ok: "providers_ok rt" by (simp add: validate_iff)
  moreover have "provider_ready p" if "p \<in> set (cf_providers (rt_config rt))" for p
    using ok that load_urls [OF assms that] url_ok_ready
    by (auto simp: providers_ok_def provider_ok_def provider_ready_def Let_def)
  ultimately show ?thesis by (auto simp: runtime_ready_def providers_ok_def Let_def)
qed


subsection \<open>Properties\<close>

text \<open>
  The invariant of a gateway: its snapshot is the one its configuration describes, over
  breakers of its own in the store.
\<close>

definition gateway_wf :: "'r gateway \<Rightarrow> bool" where
  "gateway_wf g \<longleftrightarrow>
     (let rt = rs_cfg (gw_runtime g) in
      runtime_ready rt \<and>
      (\<exists>a. gw_runtime g = snapshot_of rt a \<and>
           a + length (cf_providers (rt_config rt)) \<le> length (gw_breakers g)))"

lemma snapshot_of_sel [simp]:
  "rs_cfg (snapshot_of rt a) = rt" "rs_providers (snapshot_of rt a) = built_providers rt a"
  "rs_tokens (snapshot_of rt a) = client_tokens (cf_clients (rt_config rt))"
  "rs_operations_token (snapshot_of rt a) = op_token (cf_operations (rt_config rt))"
  by (simp_all add: snapshot_of_def)

lemma runtime_of_sel [simp]:
  "pr_name (runtime_of rt p a) = pc_name p" "pr_breaker (runtime_of rt p a) = a"
  "pr_api_key (runtime_of rt p a) = pc_api_key p" "pr_headers (runtime_of rt p a) = pc_headers p"
  by (simp_all add: runtime_of_def)

lemma gateway_wf_breakers:
  assumes "gateway_wf g" shows "breakers_in (Some (gw_runtime g)) (length (gw_breakers g))"
proof -
  let ?ps = "cf_providers (rt_config (rs_cfg (gw_runtime g)))"
  obtain a where a: "gw_runtime g = snapshot_of (rs_cfg (gw_runtime g)) a"
    "a + length ?ps \<le> length (gw_breakers g)"
    using assms by (auto simp: gateway_wf_def Let_def)
  have "pr_breaker pr < length (gw_breakers g)" if "(n, pr) \<in> set (rs_providers (gw_runtime g))" for n pr
  proof -
    have "(n, pr) \<in> set (built_providers (rs_cfg (gw_runtime g)) a)"
      using that a(1) by (metis snapshot_of_sel(2))
    with a(2) show ?thesis by (auto simp: built_providers_set)
  qed
  then show ?thesis by (auto simp: breakers_in_def)
qed

lemma built_providers_lookup:
  assumes "runtime_ready rt" "i < length (cf_providers (rt_config rt))"
  shows "map_of (built_providers rt a) (pc_name (cf_providers (rt_config rt) ! i)) =
    Some (runtime_of rt (cf_providers (rt_config rt) ! i) (a + i))"
  using assms by (auto simp: runtime_ready_def built_providers_set intro!: map_of_is_SomeI)

lemma new_gateway_ready:
  assumes "runtime_ready rt" "newRateLimitManager connect inst rt = Inr mgr"
  shows "\<exists>g. new_gateway connect inst sha256 clock rt = Inr g \<and> gateway_wf g \<and>
    gw_runtime g = snapshot_of rt 0 \<and>
    gw_breakers g = map (newCircuitBreakerWithPolicy \<circ> circuitPolicyFor rt \<circ> pc_name)
      (cf_providers (rt_config rt))"
proof -
  obtain m' where b: "buildRuntimeSnapshot rt None clock (newMetrics clock) [] =
    (Inr (snapshot_of rt 0), m', map (build_breaker rt None [] clock \<circ> pc_name) (cf_providers (rt_config rt)))"
    using build_snapshot_ready [OF assms(1), of None "[]" clock "newMetrics clock"]
    by (auto simp: breakers_in_def)
  have "build_breaker rt None [] clock = newCircuitBreakerWithPolicy \<circ> circuitPolicyFor rt"
    by (simp add: build_breaker_def fun_eq_iff)
  with b assms show ?thesis by (auto simp: new_gateway_def gateway_wf_def)
qed

text \<open>
  A configuration that \<open>Load\<close> accepts always starts: when the rate-limit backend can be
  made, \<open>New\<close> returns a gateway that runs exactly this configuration, with one fresh circuit
  breaker per provider, in the order of the file.
\<close>

theorem loaded_config_starts:
  assumes "load decode getenv fs path = Inr rt" and "newRateLimitManager connect inst rt = Inr mgr"
  shows "\<exists>g. new_gateway connect inst sha256 clock rt = Inr g \<and> gateway_wf g \<and>
    rs_cfg (gw_runtime g) = rt \<and>
    map fst (rs_providers (gw_runtime g)) = map pc_name (cf_providers (rt_config rt)) \<and>
    gw_breakers g = map (newCircuitBreakerWithPolicy \<circ> circuitPolicyFor rt \<circ> pc_name)
      (cf_providers (rt_config rt))"
  using new_gateway_ready [OF load_runtime_ready [OF assms(1)] assms(2), of sha256 clock]
  by force

text \<open>A build adds the new providers' counters and touches none.\<close>

lemma build_snapshot_counters:
  assumes "buildRuntimeSnapshot rt previous now m brs = (r, m', brs')"
  shows "m'\<lparr>mt_providers := mt_providers m\<rparr> = m"
proof -
  have one: "m1\<lparr>mt_providers := []\<rparr> = m0\<lparr>mt_providers := []\<rparr>"
    if "build_provider rt previous now p (m0, brs0, prs0) = (e, m1, brs1, prs1)" for p m0 brs0 prs0 e m1 brs1 prs1
    using that
    by (auto simp: build_provider_def metrics_provider_def put_provider_def Let_def
        split: prod.splits option.splits if_splits)
  have all: "build_providers rt previous now ps (m0, brs0, prs0) = (e, m1, brs1, prs1) \<Longrightarrow>
      m1\<lparr>mt_providers := []\<rparr> = m0\<lparr>mt_providers := []\<rparr>" for ps m0 brs0 prs0 e m1 brs1 prs1
  proof (induction ps arbitrary: m0 brs0 prs0)
    case (Cons p ps)
    obtain e1 m2 brs2 prs2 where p: "build_provider rt previous now p (m0, brs0, prs0) = (e1, m2, brs2, prs2)"
      by (metis prod_cases4)
    from Cons.IH [of m2 brs2 prs2] Cons.prems one [OF p] p show ?case by (cases e1) auto
  qed simp
  obtain e m1 brs1 prs1 where p: "build_providers rt previous now (cf_providers (rt_config rt)) (m, brs, []) =
    (e, m1, brs1, prs1)" by (metis prod_cases4)
  have "m' = m1" using assms by (auto simp: buildRuntimeSnapshot_def p Let_def split: option.splits)
  with all [OF p] show ?thesis by (cases m1, cases m) simp
qed

lemma ready_provider:
  assumes "runtime_ready rt" "i < length (cf_providers (rt_config rt))"
  shows "url_parse (trim_right_byte CHR ''/'' (pc_base_url (cf_providers (rt_config rt) ! i))) =
    Some (pr_base_url (runtime_of rt (cf_providers (rt_config rt) ! i) a))"
proof -
  have "provider_ready (cf_providers (rt_config rt) ! i)" using assms by (simp add: runtime_ready_def)
  then show ?thesis
    by (auto simp: provider_ready_def provider_url_def runtime_of_def split: option.splits if_splits)
qed

text \<open>
  The whole of a snapshot, from the configuration: each provider with its own settings and its
  own breaker (the \<open>i\<close>-th one from \<open>a\<close> on), the default one, the tokens of the enabled clients,
  the operations token and the CORS policy.
\<close>

definition runs_configuration :: "config_runtime \<Rightarrow> nat \<Rightarrow> runtime_snapshot \<Rightarrow> bool" where
  "runs_configuration rt a s \<longleftrightarrow>
     rs_cfg s = rt \<and>
     map fst (rs_providers s) = map pc_name (cf_providers (rt_config rt)) \<and>
     (\<forall>i < length (cf_providers (rt_config rt)). case cf_providers (rt_config rt) ! i of p \<Rightarrow>
        (case rs_providers s ! i of (n, pr) \<Rightarrow>
           pr_name pr = pc_name p \<and> pr_spec pr = fst (Lookup (pc_type p)) \<and>
           url_parse (trim_right_byte CHR ''/'' (pc_base_url p)) = Some (pr_base_url pr) \<and>
           pr_api_key pr = pc_api_key p \<and> pr_headers pr = pc_headers p \<and>
           pr_timeout pr = (case map_of (rt_provider_timeouts rt) (pc_name p) of None \<Rightarrow> 0 | Some d \<Rightarrow> d) \<and>
           pr_propagate pr = (te_enabled (cf_telemetry (rt_config rt)) \<and> te_propagate (cf_telemetry (rt_config rt))) \<and>
           pr_breaker pr = a + i)) \<and>
     map_of (rs_providers s) (cf_default_provider (rt_config rt)) = Some (rs_default s) \<and>
     rs_tokens s = map (\<lambda>c. (cl_token c, \<lparr>ca_name = cl_name c, ca_rate_limit_rpm = cl_rate_limit_rpm c\<rparr>))
       (filter cl_enabled (cf_clients (rt_config rt))) \<and>
     rs_operations_token s = op_token (cf_operations (rt_config rt)) \<and>
     rs_cors s = newCORSPolicy (sv_cors (cf_server (rt_config rt))) (rt_cors_max_age rt)"

lemma loaded_snapshot_runs:
  assumes "load decode getenv fs path = Inr rt"
  shows "runs_configuration rt a (snapshot_of rt a)"
proof -
  let ?ps = "cf_providers (rt_config rt)"
  note ready = load_runtime_ready [OF assms]
  have "cf_default_provider (rt_config rt) \<in> fst ` set (built_providers rt a)"
    using ready by (metis built_providers_names list.set_map runtime_ready_def)
  then have default: "map_of (built_providers rt a) (cf_default_provider (rt_config rt)) =
      Some (the (map_of (built_providers rt a) (cf_default_provider (rt_config rt))))"
    by (metis map_of_eq_None_iff option.collapse)
  have "distinct (enabled_tokens (cf_clients (rt_config rt)))"
    using load_valid [OF assms] by (simp add: validate_iff clients_ok_def Let_def)
  then have tokens: "client_tokens (cf_clients (rt_config rt)) =
      map (\<lambda>c. (cl_token c, \<lparr>ca_name = cl_name c, ca_rate_limit_rpm = cl_rate_limit_rpm c\<rparr>))
        (filter cl_enabled (cf_clients (rt_config rt)))"
    by (simp add: client_tokens_distinct auth_of_def [abs_def])
  have "built_providers rt a ! i = (pc_name (?ps ! i), runtime_of rt (?ps ! i) (a + i))" if "i < length ?ps" for i
    using that by (simp add: built_providers_def nth_enumerate_eq)
  then show ?thesis
    using default tokens ready_provider [OF ready]
    by (simp add: runs_configuration_def snapshot_of_def runtime_of_def)
qed

text \<open>
  C7. A reload is all or nothing. For a configuration that loads, whatever the outcome, the
  server, the start time, every breaker requests in flight still report to, and every counter of
  the gateway and of each provider stay. When it is rejected, it is for a setting that is fixed
  at start, and the log gets one line and nothing else changes; when nothing changed, nothing
  changes; otherwise the whole snapshot is the new configuration's (providers, default, tokens,
  operations token and CORS), over new breakers that continue those of the same names, the rate
  limiter keeps the windows of the tokens that remain, and the log is resized and gets one line.
\<close>

theorem reload_atomic:
  assumes "load decode getenv fs path = Inr rt" and "gateway_wf g"
    and "reload sha256 text_of now logged rt g = (res, g')"
  shows "gw_server g' = gw_server g \<and> gw_started g' = gw_started g \<and>
    take (length (gw_breakers g)) (gw_breakers g') = gw_breakers g \<and>
    (gw_metrics g')\<lparr>mt_providers := mt_providers (gw_metrics g)\<rparr> = gw_metrics g \<and>
    (\<forall>n. provider_entry n (gw_metrics g') = provider_entry n (gw_metrics g)) \<and>
    (case res of
       Inl e \<Rightarrow> validateHotReload (rs_cfg (gw_runtime g)) rt = Inl e \<and>
         g' = g\<lparr>gw_logs := logring_add logged
           (system_entry zero_time ''error'' (''config reload rejected: '' @ text_of e)) (gw_logs g)\<rparr>
     | Inr r \<Rightarrow>
         (if rr_changed r
          then validateHotReload (rs_cfg (gw_runtime g)) rt = Inr () \<and>
            runs_configuration rt (length (gw_breakers g)) (gw_runtime g') \<and>
            gw_breakers g' = gw_breakers g @
              map (build_breaker rt (Some (gw_runtime g)) (gw_breakers g) now \<circ> pc_name) (cf_providers (rt_config rt)) \<and>
            gw_rate_limits g' = manager_retain_tokens limiter_retain sha256 (gw_rate_limits g)
              (cl_token ` {c \<in> set (cf_clients (rt_config rt)). cl_enabled c}) \<and>
            (\<exists>message. gw_logs g' = logring_add logged (system_entry logged ''info'' message)
              (logring_resize (lg_recent (cf_logging (rt_config rt))) (gw_logs g)))
          else g' = g \<and> same_config (rt_config (rs_cfg (gw_runtime g))) (rt_config rt)))"
proof -
  let ?n = "length (gw_breakers g)" and ?ps = "cf_providers (rt_config rt)"
  let ?b = "build_breaker rt (Some (gw_runtime g)) (gw_breakers g) now \<circ> pc_name"
  obtain m' where b: "buildRuntimeSnapshot rt (Some (gw_runtime g)) now (gw_metrics g) (gw_breakers g) =
      (Inr (snapshot_of rt ?n), m', gw_breakers g @ map ?b ?ps)"
    using build_snapshot_ready [OF load_runtime_ready [OF assms(1)] gateway_wf_breakers [OF assms(2)]] by blast
  note counters = build_snapshot_counters [OF b]
  have entries: "provider_entry n m' = provider_entry n (gw_metrics g)" for n using build_snapshot_frame [OF b] by blast
  note runs = loaded_snapshot_runs [OF assms(1), of ?n]
  have tokens: "set (map fst (rs_tokens (snapshot_of rt ?n))) =
      cl_token ` {c \<in> set (cf_clients (rt_config rt)). cl_enabled c}"
    using runs by (auto simp: runs_configuration_def image_image)
  note defs = reload_def b Let_def recordReloadFailure_def
  show ?thesis
  proof (cases "same_config (rt_config (rs_cfg (gw_runtime g))) (rt_config rt)")
    case True
    with assms(3) show ?thesis by (auto simp: defs)
  next
    case False
    note new = False
    show ?thesis
    proof (cases "validateHotReload (rs_cfg (gw_runtime g)) rt")
      case (Inl e)
      with new assms(3) show ?thesis by (auto simp: defs)
    next
      case (Inr u)
      with new assms(3) counters entries runs tokens show ?thesis by (auto simp: defs)
    qed
  qed
qed

text \<open>
  A reload that needs no restart succeeds, and circuits survive it: a loaded configuration
  that changes none of the settings fixed at start is accepted, the gateway stays well
  formed, and every provider works on a new breaker that continues the one its predecessor
  of the same name had (fresh when there was none), apart from the breakers of requests in
  flight.
\<close>

theorem reload_accepts:
  assumes "load decode getenv fs path = Inr rt" and "gateway_wf g"
    and "\<not> same_config (rt_config (rs_cfg (gw_runtime g))) (rt_config rt)"
    and "validateHotReload (rs_cfg (gw_runtime g)) rt = Inr ()"
  shows "\<exists>r g'. reload sha256 text_of now logged rt g = (Inr r, g') \<and> rr_changed r \<and>
    rr_providers r = length (cf_providers (rt_config rt)) \<and>
    rr_clients r = length (enabled_tokens (cf_clients (rt_config rt))) \<and>
    gateway_wf g' \<and> rs_cfg (gw_runtime g') = rt \<and>
    (\<forall>p \<in> set (cf_providers (rt_config rt)). \<exists>pr.
       map_of (rs_providers (gw_runtime g')) (pc_name p) = Some pr \<and>
       length (gw_breakers g) \<le> pr_breaker pr \<and>
       gw_breakers g' ! pr_breaker pr =
         build_breaker rt (Some (gw_runtime g)) (gw_breakers g) now (pc_name p))"
proof -
  let ?ps = "cf_providers (rt_config rt)" and ?n = "length (gw_breakers g)"
  let ?b = "build_breaker rt (Some (gw_runtime g)) (gw_breakers g) now"
  note ready = load_runtime_ready [OF assms(1)]
  obtain m' where b: "buildRuntimeSnapshot rt (Some (gw_runtime g)) now (gw_metrics g) (gw_breakers g) =
      (Inr (snapshot_of rt ?n), m', gw_breakers g @ map (?b \<circ> pc_name) ?ps)"
    using build_snapshot_ready [OF ready gateway_wf_breakers [OF assms(2)]] by blast
  have "distinct (enabled_tokens (cf_clients (rt_config rt)))"
    using load_valid [OF assms(1)] by (simp add: validate_iff clients_ok_def Let_def)
  then have tokens: "length (client_tokens (cf_clients (rt_config rt))) =
      length (enabled_tokens (cf_clients (rt_config rt)))"
    by (simp add: client_tokens_distinct enabled_tokens_def)
  have provs: "length (built_providers rt ?n) = length ?ps" by (simp add: built_providers_def)
  obtain g' where g': "reload sha256 text_of now logged rt g = (Inr \<lparr>rr_changed = True, rr_reloaded = logged,
        rr_providers = length ?ps, rr_clients = length (enabled_tokens (cf_clients (rt_config rt)))\<rparr>, g')"
      "gw_runtime g' = snapshot_of rt ?n" "gw_breakers g' = gw_breakers g @ map (?b \<circ> pc_name) ?ps"
    using assms(3,4) by (simp add: reload_def b tokens provs Let_def)
  have "\<exists>pr. map_of (rs_providers (gw_runtime g')) (pc_name p) = Some pr \<and> ?n \<le> pr_breaker pr \<and>
      gw_breakers g' ! pr_breaker pr = ?b (pc_name p)" if "p \<in> set ?ps" for p
  proof -
    obtain i where i: "i < length ?ps" "p = ?ps ! i" using \<open>p \<in> set ?ps\<close> by (auto simp: in_set_conv_nth)
    from built_providers_lookup [OF ready i(1)] i g'(2,3) show ?thesis
      by (intro exI [of _ "runtime_of rt p (?n + i)"]) (simp add: nth_append)
  qed
  moreover have "gateway_wf g'" using ready g'(2,3) by (auto simp: gateway_wf_def)
  ultimately show ?thesis using g' by simp
qed


text \<open>Two configurations that load, and the gateway of the first.\<close>

definition sample_path :: string where "sample_path = ''/etc/gemgate/config.yaml''"
definition no_connect :: "string \<Rightarrow> string \<Rightarrow> duration \<Rightarrow> (unit \<times> redis_link) option" where
  "no_connect mode u timeout = None"
definition sample_config2 :: config where
  "sample_config2 = sample_config\<lparr>cf_logging := \<lparr>lg_recent = 7, lg_log_body = False, lg_log_headers = False\<rparr>,
     cf_operations := \<lparr>op_token = ''ops'', op_token_file = ''''\<rparr>\<rparr>"
definition sample_load2 :: "config_error + config_runtime" where
  "sample_load2 = load (\<lambda>_. Some sample_config2) (\<lambda>_. '''') (\<lambda>_. Some ''x'') sample_path"

lemma sample_reload_ok:
  "case (sample_load, sample_load2) of
     (Inr a, Inr b) \<Rightarrow> \<not> same_config (rt_config a) (rt_config b) \<and> validateHotReload a b = Inr () \<and>
       \<not> isl (newRateLimitManager no_connect '''' a) \<and> op_token (cf_operations (rt_config b)) = ''ops'' \<and>
       cf_clients (rt_config a) = cf_clients sample_config
   | _ \<Rightarrow> False"
  by code_simp

lemma sample_reload:
  obtains rt rt' mgr where "load (\<lambda>_. Some sample_config) (\<lambda>_. '''') (\<lambda>_. Some ''x'') sample_path = Inr rt"
    "load (\<lambda>_. Some sample_config2) (\<lambda>_. '''') (\<lambda>_. Some ''x'') sample_path = Inr rt'"
    "newRateLimitManager no_connect '''' rt = Inr mgr"
    "\<not> same_config (rt_config rt) (rt_config rt')" "validateHotReload rt rt' = Inr ()"
    "op_token (cf_operations (rt_config rt')) = ''ops''" "cf_clients (rt_config rt) = cf_clients sample_config"
  using sample_reload_ok that
  by (auto simp: sample_load_def sample_load2_def sample_path_def isl_def split: sum.splits)
     (metis sum.exhaust)

theorem loaded_config_starts_witness:
  "\<exists>rt g. load (\<lambda>_. Some sample_config) (\<lambda>_. '''') (\<lambda>_. Some ''x'') sample_path = Inr rt \<and>
     new_gateway no_connect '''' (\<lambda>s. s) 0 rt = Inr g \<and> gateway_wf g"
proof -
  obtain rt mgr where *: "load (\<lambda>_. Some sample_config) (\<lambda>_. '''') (\<lambda>_. Some ''x'') sample_path = Inr rt"
    "newRateLimitManager no_connect '''' rt = Inr mgr" by (rule sample_reload)
  from loaded_config_starts [OF *, of "\<lambda>s. s" 0] *(1) show ?thesis by blast
qed

lemma sample_gateway:
  obtains rt rt' g where "load (\<lambda>_. Some sample_config2) (\<lambda>_. '''') (\<lambda>_. Some ''x'') sample_path = Inr rt'"
    "new_gateway no_connect '''' (\<lambda>s. s) 0 rt = Inr g" "gateway_wf g" "rs_cfg (gw_runtime g) = rt"
    "\<not> same_config (rt_config rt) (rt_config rt')" "validateHotReload rt rt' = Inr ()"
proof (rule sample_reload)
  fix rt rt' mgr
  assume *: "load (\<lambda>_. Some sample_config) (\<lambda>_. '''') (\<lambda>_. Some ''x'') sample_path = Inr rt"
    "newRateLimitManager no_connect '''' rt = Inr mgr"
    "load (\<lambda>_. Some sample_config2) (\<lambda>_. '''') (\<lambda>_. Some ''x'') sample_path = Inr rt'"
    "\<not> same_config (rt_config rt) (rt_config rt')" "validateHotReload rt rt' = Inr ()"
  from new_gateway_ready [OF load_runtime_ready [OF *(1)] *(2), of "\<lambda>s. s" 0] * that
  show ?thesis by force
qed

theorem reload_accepts_witness:
  "\<exists>rt rt' g r g'. new_gateway no_connect '''' (\<lambda>s. s) 0 rt = Inr g \<and>
     reload (\<lambda>s. s) (\<lambda>_. '''') 5 6 rt' g = (Inr r, g') \<and> rr_changed r \<and> gateway_wf g'"
proof -
  obtain rt rt' g where *:
    "load (\<lambda>_. Some sample_config2) (\<lambda>_. '''') (\<lambda>_. Some ''x'') sample_path = Inr rt'"
    "new_gateway no_connect '''' (\<lambda>s. s) 0 rt = Inr g" "gateway_wf g" "rs_cfg (gw_runtime g) = rt"
    "\<not> same_config (rt_config rt) (rt_config rt')" "validateHotReload rt rt' = Inr ()"
    by (rule sample_gateway)
  from reload_accepts [OF *(1,3), of "\<lambda>s. s" "\<lambda>_. ''''" 5 6] * show ?thesis by blast
qed

theorem reload_atomic_witness:
  "\<exists>rt rt' g r g'. new_gateway no_connect '''' (\<lambda>s. s) 0 rt = Inr g \<and>
     reload (\<lambda>s. s) (\<lambda>_. '''') 5 6 rt' g = (Inr r, g') \<and> rr_changed r \<and>
     runs_configuration rt' (length (gw_breakers g)) (gw_runtime g') \<and>
     mt_requests (gw_metrics g') = mt_requests (gw_metrics g)"
proof -
  obtain rt rt' g where *:
    "load (\<lambda>_. Some sample_config2) (\<lambda>_. '''') (\<lambda>_. Some ''x'') sample_path = Inr rt'"
    "new_gateway no_connect '''' (\<lambda>s. s) 0 rt = Inr g" "gateway_wf g" "rs_cfg (gw_runtime g) = rt"
    "\<not> same_config (rt_config rt) (rt_config rt')" "validateHotReload rt rt' = Inr ()"
    by (rule sample_gateway)
  obtain res g' where r: "reload (\<lambda>s. s) (\<lambda>_. '''') 5 6 rt' g = (res, g')" by (metis prod.collapse)
  from reload_atomic [OF *(1,3) r] *(4,5,6) obtain s where
    "res = Inr s" "rr_changed s" "runs_configuration rt' (length (gw_breakers g)) (gw_runtime g')"
    "(gw_metrics g')\<lparr>mt_providers := mt_providers (gw_metrics g)\<rparr> = gw_metrics g"
    by (cases res) (auto split: if_splits)
  moreover from arg_cong [OF this(4), of mt_requests]
  have "mt_requests (gw_metrics g') = mt_requests (gw_metrics g)" by simp
  ultimately show ?thesis using *(2) r by blast
qed

end
