(* ===== verification/Provider_Transport.thy ===== *)
theory Provider_Transport
  imports Gw_Runtime
begin

section \<open>The provider transport (internal/gateway/provider_metrics_transport.go)\<close>

text \<open>
  The \<open>RoundTripper\<close> every provider client runs: it asks the provider's breaker, counts the
  call, sends the request through the base transport and closes the books exactly once, when
  the response body ends or is closed. The base transport and the network behind it are an
  argument, a function from requests to results; spans are in \<open>Gw_Tracing\<close> and the
  injection of trace context is an argument that rewrites the headers.
\<close>


subsection \<open>Requests, responses and clocks\<close>

record upstream_request =
  ur_method :: string
  ur_url :: url
  ur_header :: header
  ur_body :: "request_body option"
  ur_length :: i64

text \<open>
  A response body yields its chunks and ends, with its last chunk, in EOF or in an error.
  \<open>None\<close> is a nil body.
\<close>

record upstream_body =
  ub_chunks :: "string list"
  ub_last :: string
  ub_fails :: bool
  ub_close_fails :: bool

record upstream_response =
  us_status :: int
  us_header :: header
  us_body :: "upstream_body option"

datatype upstream_result = UpFailed string | UpReply upstream_response

definition body_reads :: "upstream_body \<Rightarrow> (string \<times> read_result) list" where
  "body_reads b =
     map (\<lambda>c. (c, ReadMore)) (ub_chunks b) @ [(ub_last b, if ub_fails b then ReadFailed else ReadEOF)]"

text \<open>
  The readings of the clock during one call, and whether the downstream request was aborted
  when the call ended (\<open>downstreamRequestAborted\<close>).
\<close>

record call_world =
  cw_permit :: gotime
  cw_start :: gotime
  cw_end :: gotime
  cw_record :: gotime
  cw_finish :: gotime
  cw_aborted :: bool


subsection \<open>The two halves of a call\<close>

text \<open>
  \<open>RoundTrip\<close> asks the breaker and then counts the call, and \<open>done\<close> counts the end of the call and
  then tells the breaker. Each of the two is under a lock of its own, and another call may come
  between them. \<open>begin_call\<close> and \<open>end_call\<close> take each pair as one step: the breakers and the metrics
  share no field, so a step of another call between the two acts on either of them as it would
  before or after the pair, but a reader that looks at both in the moment between sees them one
  call apart, and such a reading is not among the states of this model.
\<close>

definition begin_call ::
  "provider_runtime \<Rightarrow> gotime \<Rightarrow> 'r gateway \<Rightarrow> (circuit_permit \<times> bool \<times> duration) \<times> 'r gateway" where
  "begin_call p now g =
     (let ((permit, allowed, retryAfter), b) = circuit_allow (gw_breakers g ! pr_breaker p) now;
          g = g\<lparr>gw_breakers := (gw_breakers g)[pr_breaker p := b]\<rparr>
      in if allowed
         then ((permit, True, retryAfter), g\<lparr>gw_metrics := providerBegin (pr_name p) (gw_metrics g)\<rparr>)
         else ((permit, False, retryAfter), g))"

definition end_call ::
  "provider_runtime \<Rightarrow> circuit_permit \<Rightarrow> call_world \<Rightarrow> int \<Rightarrow> bool \<Rightarrow> bool \<Rightarrow> 'r gateway \<Rightarrow> 'r gateway" where
  "end_call p permit t status transportError failed g =
     (let g = g\<lparr>gw_metrics := providerFinish (pr_name p) status (time_sub (cw_end t) (cw_start t))
                transportError (cw_record t) (gw_metrics g)\<rparr>
      in g\<lparr>gw_breakers := (gw_breakers g)[pr_breaker p :=
             circuit_finish (gw_breakers g ! pr_breaker p) permit failed (cw_finish t)]\<rparr>)"

text \<open>The wrapped body: what is left to read, \<open>once\<close>, and the call it closes.\<close>

record provider_body =
  pb_reads :: "(string \<times> read_result) list"
  pb_close_fails :: bool
  pb_once :: bool
  pb_call :: "(circuit_permit \<times> int) option"

definition body_done ::
  "provider_runtime \<Rightarrow> call_world \<Rightarrow> circuit_permit \<times> int \<Rightarrow> bool \<Rightarrow> 'r gateway \<Rightarrow> 'r gateway" where
  "body_done p t call bodyErr g =
     (let (permit, status) = call; transportError = bodyErr \<and> \<not> cw_aborted t
      in end_call p permit t status transportError (transportError \<or> 500 \<le> status) g)"

definition body_finish ::
  "provider_runtime \<Rightarrow> call_world \<Rightarrow> bool \<Rightarrow> provider_body \<times> 'r gateway \<Rightarrow> provider_body \<times> 'r gateway" where
  "body_finish p t err st =
     (let (b, g) = st in
      case pb_call b of
        None \<Rightarrow> (b, g)
      | Some call \<Rightarrow> if pb_once b then (b, g) else (b\<lparr>pb_once := True\<rparr>, body_done p t call err g))"

text \<open>\<open>Read\<close> tells \<open>finish\<close> about every read that reports an error.\<close>

definition body_read ::
  "provider_runtime \<Rightarrow> call_world \<Rightarrow> provider_body \<times> 'r gateway \<Rightarrow>
   (string \<times> read_result) option \<times> provider_body \<times> 'r gateway" where
  "body_read p t st =
     (let (b, g) = st in
      case pb_reads b of
        [] \<Rightarrow> (None, b, g)
      | (chunk, status) # reads \<Rightarrow>
          (let st = (b\<lparr>pb_reads := reads\<rparr>, g);
               st = (case status of
                       ReadMore \<Rightarrow> st
                     | ReadEOF \<Rightarrow> body_finish p t False st
                     | ReadFailed \<Rightarrow> body_finish p t True st)
           in (Some (chunk, status), st)))"

definition body_close ::
  "provider_runtime \<Rightarrow> call_world \<Rightarrow> provider_body \<times> 'r gateway \<Rightarrow> provider_body \<times> 'r gateway" where
  "body_close p t st = body_finish p t (pb_close_fails (fst st)) st"

text \<open>\<open>n\<close> reads in a row, the way a copy loop makes them.\<close>

fun body_reads_n ::
  "nat \<Rightarrow> provider_runtime \<Rightarrow> call_world \<Rightarrow> provider_body \<times> 'r gateway \<Rightarrow> provider_body \<times> 'r gateway" where
  "body_reads_n 0 p t st = st"
| "body_reads_n (Suc n) p t st = body_reads_n n p t (snd (body_read p t st))"


subsection \<open>\<open>RoundTrip\<close>\<close>

record client_response =
  cr_status :: int
  cr_header :: header
  cr_body :: provider_body

definition retry_after_seconds :: "duration \<Rightarrow> int" where
  "retry_after_seconds retryAfter =
     (let seconds = wrap64 (wrap64 (retryAfter + nanos_second) - 1) sdiv nanos_second
      in if seconds < 1 then 1 else seconds)"

definition circuit_open_body :: string where
  "circuit_open_body = [CHR ''{'', CHR 0x22] @ ''error'' @ [CHR 0x22, CHR '':'', CHR 0x22] @
     ''provider circuit open'' @ [CHR 0x22, CHR ''}'']"

definition circuit_open_response :: "duration \<Rightarrow> client_response" where
  "circuit_open_response retryAfter =
     (let h = header_set [] ''Content-Type'' ''application/json'';
          h = header_set h ''Retry-After'' (itoa (retry_after_seconds retryAfter));
          h = header_set h ''X-GemGate-Circuit'' ''open''
      in \<lparr>cr_status = 503, cr_header = h,
          cr_body = \<lparr>pb_reads = [(circuit_open_body, ReadMore), ([], ReadEOF)], pb_close_fails = False,
                     pb_once = False, pb_call = None\<rparr>\<rparr>)"

definition no_body :: provider_body where
  "no_body = \<lparr>pb_reads = [([], ReadEOF)], pb_close_fails = False, pb_once = False, pb_call = None\<rparr>"

definition round_trip ::
  "(upstream_request \<Rightarrow> upstream_result) \<Rightarrow> (header \<Rightarrow> header) \<Rightarrow> provider_runtime \<Rightarrow> call_world \<Rightarrow>
   upstream_request \<Rightarrow> 'r gateway \<Rightarrow> (string + client_response) \<times> 'r gateway" where
  "round_trip base inject p t req g =
     (let ((permit, allowed, retryAfter), g) = begin_call p (cw_permit t) g in
      if \<not> allowed then (Inr (circuit_open_response retryAfter), g)
      else
        (let req = (if pr_propagate p then req\<lparr>ur_header := inject (ur_header req)\<rparr> else req) in
         case base req of
           UpFailed err \<Rightarrow>
             (let providerFailure = \<not> cw_aborted t
              in (Inl err, end_call p permit t 0 providerFailure providerFailure g))
         | UpReply resp \<Rightarrow>
             (case us_body resp of
                None \<Rightarrow>
                  (Inr \<lparr>cr_status = us_status resp, cr_header = us_header resp, cr_body = no_body\<rparr>,
                   end_call p permit t (us_status resp) False (500 \<le> us_status resp) g)
              | Some body \<Rightarrow>
                  (Inr \<lparr>cr_status = us_status resp, cr_header = us_header resp,
                        cr_body = \<lparr>pb_reads = body_reads body, pb_close_fails = ub_close_fails body,
                          pb_once = False, pb_call = Some (permit, us_status resp)\<rparr>\<rparr>, g))))"

text \<open>
  \<open>client.Do\<close>: redirects are never followed (\<open>ErrUseLastResponse\<close>), but net/http parses a
  \<open>Location\<close> before it asks, and a bad one closes the body and fails the call. It does so for
  301, 302 and 303, and for 307 and 308 unless there is a body it could not send again
  (\<open>replayable\<close>: a buffered body or none).
\<close>

definition bad_redirect :: "bool \<Rightarrow> client_response \<Rightarrow> bool" where
  "bad_redirect replayable resp \<longleftrightarrow>
     (cr_status resp \<in> {301, 302, 303} \<or> (cr_status resp \<in> {307, 308} \<and> replayable)) \<and>
     header_get (cr_header resp) ''Location'' \<noteq> '''' \<and>
     url_parse (header_get (cr_header resp) ''Location'') = None"

definition client_do ::
  "(upstream_request \<Rightarrow> upstream_result) \<Rightarrow> (header \<Rightarrow> header) \<Rightarrow> bool \<Rightarrow> provider_runtime \<Rightarrow>
   call_world \<Rightarrow> upstream_request \<Rightarrow> 'r gateway \<Rightarrow> (string + client_response) \<times> 'r gateway" where
  "client_do base inject replayable p t req g =
     (case round_trip base inject p t req g of
        (Inl err, g) \<Rightarrow> (Inl err, g)
      | (Inr resp, g) \<Rightarrow>
          (if bad_redirect replayable resp
           then (Inl ''failed to parse Location header'', snd (body_close p t (cr_body resp, g)))
           else (Inr resp, g)))"


subsection \<open>Frames\<close>

lemma begin_callE:
  assumes "begin_call p now g = ((permit, ok, d), g')"
  obtains b where "circuit_allow (gw_breakers g ! pr_breaker p) now = ((permit, ok, d), b)"
    "g' = g\<lparr>gw_breakers := (gw_breakers g)[pr_breaker p := b],
            gw_metrics := (if ok then providerBegin (pr_name p) (gw_metrics g) else gw_metrics g)\<rparr>"
proof -
  obtain permit1 ok1 d1 b where a:
    "circuit_allow (gw_breakers g ! pr_breaker p) now = ((permit1, ok1, d1), b)" by (metis prod.collapse)
  show thesis using assms that [of b] by (cases ok1) (auto simp: begin_call_def a)
qed

lemma begin_call_frame:
  assumes "begin_call p now g = (r, g')"
  shows "gw_runtime g' = gw_runtime g" "gw_rate_limits g' = gw_rate_limits g" "gw_logs g' = gw_logs g"
    "gw_server g' = gw_server g" "gw_started g' = gw_started g"
    "length (gw_breakers g') = length (gw_breakers g)"
    "a \<noteq> pr_breaker p \<Longrightarrow> gw_breakers g' ! a = gw_breakers g ! a"
    "n \<noteq> pr_name p \<Longrightarrow> provider_entry n (gw_metrics g') = provider_entry n (gw_metrics g)"
  using assms by (cases r, auto elim!: begin_callE simp: provider_entry_begin)+

lemma end_call_frame [simp]:
  "gw_runtime (end_call p permit t status te failed g) = gw_runtime g"
  "gw_rate_limits (end_call p permit t status te failed g) = gw_rate_limits g"
  "gw_logs (end_call p permit t status te failed g) = gw_logs g"
  "gw_server (end_call p permit t status te failed g) = gw_server g"
  "gw_started (end_call p permit t status te failed g) = gw_started g"
  "length (gw_breakers (end_call p permit t status te failed g)) = length (gw_breakers g)"
  "a \<noteq> pr_breaker p \<Longrightarrow> gw_breakers (end_call p permit t status te failed g) ! a = gw_breakers g ! a"
  "n \<noteq> pr_name p \<Longrightarrow>
     provider_entry n (gw_metrics (end_call p permit t status te failed g)) = provider_entry n (gw_metrics g)"
  by (simp_all add: end_call_def Let_def provider_entry_finish)

lemma body_finish_once [simp]:
  "pb_once b \<Longrightarrow> body_finish p t err (b, g) = (b, g)"
  by (simp add: body_finish_def split: option.split)

lemma body_finish_first:
  "pb_call b = Some call \<Longrightarrow> \<not> pb_once b \<Longrightarrow>
   body_finish p t err (b, g) = (b\<lparr>pb_once := True\<rparr>, body_done p t call err g)"
  by (simp add: body_finish_def)

lemma body_close_once [simp]: "pb_once b \<Longrightarrow> body_close p t (b, g) = (b, g)"
  by (simp add: body_close_def)

lemma body_close_first:
  "pb_call b = Some call \<Longrightarrow> \<not> pb_once b \<Longrightarrow>
   body_close p t (b, g) = (b\<lparr>pb_once := True\<rparr>, body_done p t call (pb_close_fails b) g)"
  by (simp add: body_close_def body_finish_first)

lemma body_close_more: "pb_once b \<Longrightarrow> (body_close p t ^^ m) (b, g) = (b, g)"
  by (induction m) simp_all

lemma body_reads_n_empty: "pb_reads b = [] \<Longrightarrow> body_reads_n n p t (b, g) = (b, g)"
  by (induction n) (simp_all add: body_read_def)

text \<open>Reading a stream that ends: before its end nothing is reported, at its end once.\<close>

lemma body_reads_n_stream:
  assumes "pb_call b = Some call" "\<not> pb_once b"
    "pb_reads b = map (\<lambda>c. (c, ReadMore)) cs @ [(c0, e)]" "e \<noteq> ReadMore"
  shows "\<exists>reads. body_reads_n n p t (b, g) =
    (if n \<le> length cs then (b\<lparr>pb_reads := reads\<rparr>, g)
     else (b\<lparr>pb_reads := reads, pb_once := True\<rparr>, body_done p t call (e = ReadFailed) g))"
  using assms
proof (induction cs arbitrary: b n)
  case Nil
  show ?case
  proof (cases n)
    case 0 then show ?thesis by (intro exI [of _ "pb_reads b"]) simp
  next
    case (Suc k)
    have "snd (body_read p t (b, g)) = (b\<lparr>pb_reads := [], pb_once := True\<rparr>, body_done p t call (e = ReadFailed) g)"
      using Nil by (cases e) (simp_all add: body_read_def body_finish_first)
    then show ?thesis using Suc by (intro exI [of _ "[]"]) (simp add: body_reads_n_empty)
  qed
next
  case (Cons c cs)
  show ?case
  proof (cases n)
    case 0 then show ?thesis by (intro exI [of _ "pb_reads b"]) simp
  next
    case (Suc k)
    let ?b = "b\<lparr>pb_reads := map (\<lambda>c. (c, ReadMore)) cs @ [(c0, e)]\<rparr>"
    have "snd (body_read p t (b, g)) = (?b, g)" using Cons.prems by (simp add: body_read_def)
    with Cons.IH [of ?b k] Cons.prems show ?thesis by (cases "k \<le> length cs") (simp_all add: Suc)
  qed
qed



subsection \<open>Concurrent calls of one provider\<close>

text \<open>
  The calls of a provider in flight, with the permit each holds. A call begins (or is
  refused) and a call in flight may end at any later time, in any order and with any
  outcome. The state bounds the calls in flight by \<open>2 ^ 62\<close>, far beyond what a process holds.
\<close>

inductive transport_step ::
  "provider_runtime \<Rightarrow> 'r gateway \<times> circuit_permit list \<Rightarrow> 'r gateway \<times> circuit_permit list \<Rightarrow> bool"
  for p where
  begins: "begin_call p now g = ((permit, True, d), g') \<Longrightarrow> length ps < 2 ^ 62 \<Longrightarrow>
    transport_step p (g, ps) (g', permit # ps)"
| refuses: "begin_call p now g = ((permit, False, d), g') \<Longrightarrow> transport_step p (g, ps) (g', ps)"
| ends: "permit \<in> set ps \<Longrightarrow>
    transport_step p (g, ps) (end_call p permit t status te failed g, remove1 permit ps)"

inductive transport_reachable ::
  "provider_runtime \<Rightarrow> 'r gateway \<Rightarrow> 'r gateway \<times> circuit_permit list \<Rightarrow> bool"
  for p g0 where
  initial: "transport_reachable p g0 (g0, [])"
| step: "transport_reachable p g0 s \<Longrightarrow> transport_step p s s' \<Longrightarrow> transport_reachable p g0 s'"

text \<open>What a call does to the breaker and to the entry of its provider.\<close>

lemma begin_call_breaker:
  assumes "begin_call p now g = ((permit, ok, d), g')" "pr_breaker p < length (gw_breakers g)"
  shows "circuit_allow (gw_breakers g ! pr_breaker p) now = ((permit, ok, d), gw_breakers g' ! pr_breaker p)"
  using assms(1) by (rule begin_callE) (use assms(2) in simp)

lemma begin_call_in_flight:
  assumes "begin_call p now g = ((permit, ok, d), g')" "trim_space (pr_name p) \<noteq> ''''"
  shows "pm_in_flight (provider_entry (pr_name p) (gw_metrics g')) =
    (if ok then wrap64 (pm_in_flight (provider_entry (pr_name p) (gw_metrics g)) + 1)
     else pm_in_flight (provider_entry (pr_name p) (gw_metrics g)))"
  using assms(1) by (rule begin_callE) (use assms(2) in \<open>simp add: provider_entry_begin\<close>)

lemma end_call_breaker:
  "pr_breaker p < length (gw_breakers g) \<Longrightarrow>
   gw_breakers (end_call p permit t status te failed g) ! pr_breaker p =
     circuit_finish (gw_breakers g ! pr_breaker p) permit failed (cw_finish t)"
  by (simp add: end_call_def Let_def)

lemma end_call_in_flight:
  "trim_space (pr_name p) \<noteq> '''' \<Longrightarrow>
   pm_in_flight (provider_entry (pr_name p) (gw_metrics g)) = int n \<Longrightarrow> 0 < n \<Longrightarrow> n \<le> 2 ^ 62 \<Longrightarrow>
   pm_in_flight (provider_entry (pr_name p) (gw_metrics (end_call p permit t status te failed g))) = int (n - 1)"
  by (simp add: end_call_def Let_def provider_entry_finish finish_provider_in_flight)

definition calls_match ::
  "circuit_policy \<Rightarrow> provider_runtime \<Rightarrow> 'r gateway \<times> circuit_permit list \<Rightarrow> bool" where
  "calls_match policy p s \<longleftrightarrow>
     (let (g, ps) = s in
      pr_breaker p < length (gw_breakers g) \<and>
      circuit_reachable policy (gw_breakers g ! pr_breaker p, ps) \<and> length ps \<le> 2 ^ 62 \<and>
      pm_in_flight (provider_entry (pr_name p) (gw_metrics g)) = int (length ps))"

lemma calls_match_step:
  assumes "transport_step p s s'" "calls_match policy p s" "trim_space (pr_name p) \<noteq> ''''"
  shows "calls_match policy p s'"
  using assms
proof (induction rule: transport_step.induct)
  case (begins now g permit d g' ps)
  then have "circuit_step (gw_breakers g ! pr_breaker p, ps) (gw_breakers g' ! pr_breaker p, permit # ps)"
    using begin_call_breaker [OF begins(1)] by (auto simp: calls_match_def intro: circuit_step.admitted)
  with begins begin_call_in_flight [OF begins(1)] begin_call_frame(6) [OF begins(1)] show ?case
    by (auto simp: calls_match_def wrap64_bounded intro: circuit_reachable.step)
next
  case (refuses now g permit d g' ps)
  then have "circuit_step (gw_breakers g ! pr_breaker p, ps) (gw_breakers g' ! pr_breaker p, ps)"
    using begin_call_breaker [OF refuses(1)] by (auto simp: calls_match_def intro: circuit_step.refused)
  with refuses begin_call_in_flight [OF refuses(1)] begin_call_frame(6) [OF refuses(1)] show ?case
    by (auto simp: calls_match_def intro: circuit_reachable.step)
next
  case (ends permit ps g t status te failed)
  let ?g = "end_call p permit t status te failed g"
  have "circuit_step (gw_breakers g ! pr_breaker p, ps) (gw_breakers ?g ! pr_breaker p, remove1 permit ps)"
    using ends by (auto simp: calls_match_def end_call_breaker intro: circuit_step.completed)
  moreover have "0 < length ps" using ends(1) by (cases ps) auto
  ultimately show ?case
    using ends by (auto simp: calls_match_def end_call_in_flight length_remove1
        intro: circuit_reachable.step)
qed


subsection \<open>Properties\<close>

lemma new_breaker_reachable: "circuit_reachable policy (newCircuitBreakerWithPolicy policy, [])"
  by (rule circuit_reachable.start)

text \<open>
  C5. The transport refines the breaker's protocol and keeps its counters true: whatever calls
  to a provider begin, are refused and end, in any order, the provider's breaker is in a state
  the protocol reaches with exactly the permits of the calls in flight, and the provider's
  in-flight gauge is their number. With \<open>circuit_single_probe\<close>: at most one of them is a probe.
\<close>

theorem transport_refines_protocol:
  assumes "transport_reachable p g0 (g, ps)" and "pr_breaker p < length (gw_breakers g0)"
    and "gw_breakers g0 ! pr_breaker p = newCircuitBreakerWithPolicy policy"
    and "pm_in_flight (provider_entry (pr_name p) (gw_metrics g0)) = 0" and "trim_space (pr_name p) \<noteq> ''''"
  shows "circuit_reachable policy (gw_breakers g ! pr_breaker p, ps) \<and>
    pm_in_flight (provider_entry (pr_name p) (gw_metrics g)) = int (length ps)"
proof -
  have "calls_match policy p s" if "transport_reachable p g0 s" for s
    using that
  proof (induction rule: transport_reachable.induct)
    case initial
    show ?case using assms(2-4) by (simp add: calls_match_def new_breaker_reachable)
  qed (use assms(5) calls_match_step in blast)
  from this [OF assms(1)] show ?thesis by (simp add: calls_match_def)
qed

lemma completes_once:
  "let b = \<lparr>pb_reads = body_reads body, pb_close_fails = ub_close_fails body, pb_once = False,
            pb_call = Some (permit, status)\<rparr>;
       err = (if n < length (body_reads body) then ub_close_fails body else ub_fails body);
       transportError = err \<and> \<not> cw_aborted t
   in snd ((body_close p t ^^ Suc m) (body_reads_n n p t (b, g))) =
      end_call p permit t status transportError (transportError \<or> 500 \<le> status) g"
proof -
  let ?b = "\<lparr>pb_reads = body_reads body, pb_close_fails = ub_close_fails body, pb_once = False,
            pb_call = Some (permit, status)\<rparr>"
  have ne: "(if ub_fails body then ReadFailed else ReadEOF) \<noteq> ReadMore" by simp
  obtain reads where r: "body_reads_n n p t (?b, g) =
    (if n \<le> length (ub_chunks body) then (?b\<lparr>pb_reads := reads\<rparr>, g)
     else (?b\<lparr>pb_reads := reads, pb_once := True\<rparr>, body_done p t (permit, status) (ub_fails body) g))"
    using body_reads_n_stream [of ?b "(permit, status)" "ub_chunks body" "ub_last body", OF _ _ _ ne, of n p t g]
    by (auto simp: body_reads_def)
  show ?thesis
    using r
    by (auto simp: funpow_Suc_right body_close_first body_close_more body_reads_def body_done_def Let_def
        simp del: funpow.simps)
qed

text \<open>
  The books of a call are closed exactly once and with the right outcome: however many
  reads the copy loop makes and however often the body is closed, the gateway ends as after one
  completion. It counts as a transport error when the stream failed (or an early close did) and
  the client did not abort, and as a failure of the circuit also when the status is 500 or more.
\<close>

theorem call_completes_once:
  "let b = \<lparr>pb_reads = body_reads body, pb_close_fails = ub_close_fails body, pb_once = False,
            pb_call = Some (permit, status)\<rparr>;
       err = (if n < length (body_reads body) then ub_close_fails body else ub_fails body);
       transportError = err \<and> \<not> cw_aborted t
   in snd ((body_close p t ^^ Suc m) (body_reads_n n p t (b, g))) =
      end_call p permit t status transportError (transportError \<or> 500 \<le> status) g"
  by (rule completes_once)

text \<open>
  C21. An open circuit answers for the provider: the call never reaches the network (the answer
  is the same for every base transport), the gateway is unchanged, and the client gets a 503
  whose Retry-After, in whole seconds, is the least that covers the remaining cooldown.
\<close>

theorem open_circuit_answers:
  assumes "circuit_inv (gw_breakers g ! pr_breaker p) probes_out"
    and "circuit_allow (gw_breakers g ! pr_breaker p) (cw_permit t) = ((permit, False, d), b')"
    and "d \<le> max_i64 - nanos_second"
  shows "\<exists>resp s. client_do base inject replayable p t req g = (Inr resp, g) \<and>
    cr_status resp = 503 \<and> header_get (cr_header resp) ''Retry-After'' = itoa s \<and>
    d \<le> s * nanos_second \<and> (s - 1) * nanos_second < d \<and> 1 \<le> s"
proof -
  note wait = cb.reject_wait [OF assms(1,2)]
  then have g: "begin_call p (cw_permit t) g = ((permit, False, d), g)"
    by (simp add: begin_call_def assms(2) wait)
  have range: "wrap64 (wrap64 (d + nanos_second) - 1) = d + nanos_second - 1"
    using wait assms(3) by (simp add: wrap64_bounded i64_bounds nanos_second_def)
  have pos: "0 < nanos_second" by (simp add: nanos_second_def)
  note up = ceiling_div [OF conjunct1 [OF wait] pos]
  have "(d + nanos_second - 1) sdiv nanos_second = (d + nanos_second - 1) div nanos_second"
    using wait pos by (intro sdiv_nonneg) simp_all
  with up have s: "retry_after_seconds d = (d + nanos_second - 1) div nanos_second"
    unfolding retry_after_seconds_def range Let_def by simp
  note bounds = up [folded s]
  have keys: "canonical_key ''Retry-After'' \<noteq> canonical_key ''X-GemGate-Circuit''"
    "canonical_key ''Retry-After'' \<noteq> canonical_key ''Content-Type''" by code_simp+
  then have "header_get (cr_header (circuit_open_response d)) ''Retry-After'' = itoa (retry_after_seconds d)"
    by (simp add: circuit_open_response_def)
  moreover have "client_do base inject replayable p t req g = (Inr (circuit_open_response d), g)"
    by (simp add: client_do_def round_trip_def g bad_redirect_def circuit_open_response_def)
  ultimately show ?thesis using bounds by (auto simp: circuit_open_response_def)
qed


text \<open>A provider, and gateways that hold only its breaker.\<close>

definition sample_provider :: provider_runtime where
  "sample_provider = runtime_of (zero_runtime sample_config) (hd (cf_providers sample_config)) 0"

definition sample_gw :: "circuit_breaker \<Rightarrow> unit gateway" where
  "sample_gw b =
     \<lparr>gw_runtime = snapshot_of (zero_runtime sample_config) 0,
      gw_rate_limits = \<lparr>mgr_backend = MemoryLimiter newMemoryRateLimitBackend, mgr_fail_open = False\<rparr>,
      gw_metrics = newMetrics 0, gw_logs = newLogRing 10, gw_breakers = [b],
      gw_server = \<lparr>hs_addr = '''', hs_read_timeout = 0, hs_read_header_timeout = 0,
        hs_write_timeout = 0, hs_idle_timeout = 0, hs_isolated = False\<rparr>,
      gw_started = 0\<rparr>"

lemma sample_provider_sel: "pr_name sample_provider = ''main''" "pr_breaker sample_provider = 0"
  by (simp_all add: sample_provider_def sample_config_def)

lemma sample_gw_metrics: "pm_in_flight (provider_entry n (gw_metrics (sample_gw b))) = 0"
  by (simp add: sample_gw_def provider_entry_def newMetrics_def zero_provider_metrics_def)

theorem transport_refines_protocol_witness:
  "\<exists>g. transport_reachable sample_provider (sample_gw (newCircuitBreakerWithPolicy trip_policy)) (g, [ordinary_permit]) \<and>
     circuit_reachable trip_policy (gw_breakers g ! 0, [ordinary_permit]) \<and>
     pm_in_flight (provider_entry ''main'' (gw_metrics g)) = 1"
proof -
  let ?g0 = "sample_gw (newCircuitBreakerWithPolicy trip_policy)"
  obtain g where "begin_call sample_provider 1 ?g0 = ((ordinary_permit, True, 0), g)"
    by (simp add: begin_call_def sample_provider_sel sample_gw_def circuit_allow_def ordinary_permit_def)
  then have r: "transport_reachable sample_provider ?g0 (g, [ordinary_permit])"
    using transport_reachable.step [OF transport_reachable.initial transport_step.begins] by simp
  have "trim_space ''main'' \<noteq> ''''" by code_simp
  with transport_refines_protocol [OF r, of trip_policy] sample_gw_metrics r show ?thesis
    by (auto simp: sample_provider_sel sample_gw_def)
qed

definition sample_call :: call_world where
  "sample_call = \<lparr>cw_permit = 12, cw_start = 12, cw_end = 13, cw_record = 13, cw_finish = 13, cw_aborted = False\<rparr>"

theorem open_circuit_answers_witness:
  "\<exists>resp s. client_do (\<lambda>_. UpFailed ''refused'') id True sample_provider sample_call
      \<lparr>ur_method = ''GET'', ur_url = empty_url, ur_header = [], ur_body = None, ur_length = 0\<rparr> (sample_gw tripped)
      = (Inr resp, sample_gw tripped) \<and>
     cr_status resp = 503 \<and> header_get (cr_header resp) ''Retry-After'' = itoa s \<and> 1 \<le> s"
proof -
  have b: "gw_breakers (sample_gw tripped) ! pr_breaker sample_provider = tripped"
    by (simp add: sample_gw_def sample_provider_sel)
  have i: "circuit_inv tripped 0"
    by (simp add: tripped_def circuit_inv_def circuit_wf_def i64_bounds)
  have "circuit_allow tripped (cw_permit sample_call) = ((ordinary_permit, False, 3), tripped)"
    by (simp add: circuit_allow_def tripped_def sample_call_def ordinary_permit_def time_before_def
        time_sub_def sat64_id i64_bounds)
  with open_circuit_answers [of "sample_gw tripped" sample_provider 0 sample_call ordinary_permit 3 tripped] b i
  show ?thesis by (fastforce simp: i64_bounds nanos_second_def)
qed

end
