(* ===== verification/Ops_Auth.thy ===== *)
theory Ops_Auth
  imports Gw_Runtime
begin

section \<open>Authentication (internal/gateway/operations_auth.go, authenticate in proxy.go)\<close>

text \<open>
  Two trust domains: application clients, known by their tokens, and operators, known by the
  operations token (or, without one, by any client token). \<open>strings.EqualFold\<close> against
  \<open>Bearer\<close> compares ASCII letters without case: no other rune folds to one of its letters.
\<close>

definition bearerToken :: "header \<Rightarrow> string" where
  "bearerToken h =
     (let auth = trim_space (header_get h ''Authorization'') in
      case split_first CHR '' '' auth of
        None \<Rightarrow> ''''
      | Some (scheme, rest) \<Rightarrow>
          (if \<not> equal_fold scheme ''Bearer'' then '''' else trim_space rest))"

definition no_auth :: client_auth where
  "no_auth = \<lparr>ca_name = '''', ca_rate_limit_rpm = 0\<rparr>"

definition authenticate :: "runtime_snapshot \<Rightarrow> header \<Rightarrow> client_auth \<times> string \<times> bool" where
  "authenticate state h =
     (let token = bearerToken h in
      if token = '''' then (no_auth, '''', False)
      else (case map_of (rs_tokens state) token of
              None \<Rightarrow> (no_auth, token, False)
            | Some info \<Rightarrow> (info, token, True)))"

text \<open>\<open>subtle.ConstantTimeCompare\<close> returns 1 exactly for equal strings.\<close>

definition operationsAuthorized :: "runtime_snapshot \<Rightarrow> header \<Rightarrow> bool" where
  "operationsAuthorized state h =
     (if rs_operations_token state = '''' then (let (_, _, ok) = authenticate state h in ok)
      else
        (let token = bearerToken h in
         if token = '''' \<or> length token \<noteq> length (rs_operations_token state) then False
         else token = rs_operations_token state))"

definition operationsAuthChallenge :: string where
  "operationsAuthChallenge = ''Bearer realm='' @ [CHR 0x22] @ ''gemgate-operations'' @ [CHR 0x22]"

definition isOperationalPath :: "string \<Rightarrow> bool" where
  "isOperationalPath path \<longleftrightarrow>
     path = ''/_healthz'' \<or> path = ''/_readyz'' \<or> path = ''/_metrics'' \<or> path = ''/_config''"


subsection \<open>Who is let in\<close>

lemma bearerToken_trimmed: "trim_space (bearerToken h) = bearerToken h"
  by (simp add: bearerToken_def Let_def split: option.split)

lemma authenticate_iff:
  "authenticate state h = (info, token, True) \<longleftrightarrow>
     token = bearerToken h \<and> token \<noteq> '''' \<and> map_of (rs_tokens state) token = Some info"
  by (auto simp: authenticate_def Let_def split: option.splits if_splits)

lemma operationsAuthorized_iff:
  "rs_operations_token state \<noteq> '''' \<Longrightarrow>
   operationsAuthorized state h \<longleftrightarrow> bearerToken h = rs_operations_token state"
  by (auto simp: operationsAuthorized_def Let_def)

lemma authenticate_ok:
  "snd (snd (authenticate state h)) \<longleftrightarrow> (\<exists>info. authenticate state h = (info, bearerToken h, True))"
  by (auto simp: authenticate_def Let_def split: option.split)

lemma client_tokens_lookup:
  assumes "distinct (enabled_tokens cs)"
  shows "map_of (client_tokens cs) token = Some info \<longleftrightarrow>
    (\<exists>c \<in> set cs. cl_enabled c \<and> cl_token c = token \<and> info = auth_of c)"
proof -
  have "distinct (map fst (client_tokens cs))"
    using assms by (simp add: client_tokens_distinct enabled_tokens_def comp_def)
  then show ?thesis
    unfolding map_of_eq_Some_iff [OF \<open>distinct (map fst (client_tokens cs))\<close>]
    using assms by (auto simp: client_tokens_distinct)
qed

lemma load_tokens_distinct:
  "load decode getenv fs path = Inr rt \<Longrightarrow> distinct (enabled_tokens (cf_clients (rt_config rt)))"
  using load_valid by (auto simp: validate_iff clients_ok_def Let_def)

lemma authenticated_enabled:
  assumes "load decode getenv fs path = Inr rt" "snd (snd (authenticate (snapshot_of rt a) h))"
  shows "bearerToken h \<in> set (enabled_tokens (cf_clients (rt_config rt)))"
proof -
  obtain info where "authenticate (snapshot_of rt a) h = (info, bearerToken h, True)"
    using assms(2) authenticate_ok by blast
  then show ?thesis
    unfolding authenticate_iff snapshot_of_sel client_tokens_lookup [OF load_tokens_distinct [OF assms(1)]]
    by (force simp: enabled_tokens_def)
qed

lemma operations_token_apart:
  assumes "load decode getenv fs path = Inr rt" "op_token (cf_operations (rt_config rt)) \<noteq> ''''"
  shows "op_token (cf_operations (rt_config rt)) \<notin> set (enabled_tokens (cf_clients (rt_config rt)))"
  using load_valid [OF assms(1)] assms(2) by (simp add: validate_iff clients_ok_def Let_def)



subsection \<open>Reading back a bearer token\<close>

lemma space_len_sep:
  assumes "r \<noteq> []" "space_len encs r = 0" "[] \<notin> set encs" "\<forall>e \<in> set encs. b \<notin> set (tl e)"
  shows "space_len encs (r @ b # t) = 0"
proof (rule ccontr)
  assume nz: "space_len encs (r @ b # t) \<noteq> 0"
  obtain c r' where r: "r = c # r'" using assms(1) by (cases r) auto
  from nz r obtain e where "find (\<lambda>e. prefix e (r @ b # t)) encs = Some e" "space_byte c"
    by (auto simp: space_len_def split: if_splits option.splits)
  then have e: "e \<in> set encs" "prefix e (r @ b # t)" "space_byte c" by (auto simp: find_Some_iff)
  have "prefix e r"
  proof (rule ccontr)
    assume "\<not> prefix e r"
    with e(2) obtain us where us: "e = r @ us" "prefix us (b # t)" by (auto simp: prefix_append)
    with \<open>\<not> prefix e r\<close> have "us \<noteq> []" by auto
    with us have "b \<in> set (tl e)" by (auto simp: r prefix_Cons)
    with assms(4) e(1) show False by blast
  qed
  then have "find (\<lambda>e. prefix e r) encs \<noteq> None" using e(1) by (auto simp: find_None_iff)
  then obtain e' where e': "find (\<lambda>e. prefix e r) encs = Some e'" by auto
  then have "e' \<in> set encs" by (auto simp: find_Some_iff)
  moreover have "space_len encs r = length e'" using e(3) e' by (simp add: space_len_def r)
  ultimately have "e' \<in> set encs" "space_len encs r = length e'" .
  with assms(2,3) show False by auto
qed

lemma blank_not_inside: "\<forall>e \<in> set (map rev space_encodings). CHR '' '' \<notin> set (tl e)"
  by code_simp

lemma bearerToken_of:
  assumes "equal_fold scheme ''Bearer''" "trim_space token = token" "token \<noteq> ''''"
    "header_get h ''Authorization'' = scheme @ CHR '' '' # token"
  shows "bearerToken h = token"
proof -
  have letters: "\<not> space_byte d" if "d \<in> set scheme" for d
  proof
    assume "space_byte d"
    then have "lower_char d = d" by (auto simp: lower_char_def space_byte_iff is_upper_def)
    moreover have "lower_char d \<in> set (to_lower ''Bearer'')"
      using that assms(1) by (metis equal_fold_def image_eqI list.set_map to_lower_def)
    ultimately have "d \<in> set (to_lower ''Bearer'')" by simp
    moreover have "list_all (\<lambda>d. \<not> space_byte d) (to_lower ''Bearer'')" by code_simp
    ultimately show False using \<open>space_byte d\<close> by (simp add: list_all_iff)
  qed
  moreover have "space_byte CHR '' ''" by (simp add: space_byte_iff)
  ultimately have nb: "CHR '' '' \<notin> set scheme" by blast
  have "length (to_lower scheme) = length (to_lower ''Bearer'')" using assms(1) by (simp add: equal_fold_def)
  then obtain c cs where s: "scheme = c # cs" by (cases scheme) auto
  with letters have "\<not> space_byte c" by simp
  then have front: "space_len space_encodings (scheme @ CHR '' '' # token) = 0"
    by (simp add: s space_len_nonspace)
  have "space_len (map rev space_encodings) (rev token) = 0"
    using trim_space_ends(2) [of token] by (simp add: assms(2))
  then have rear: "space_len (map rev space_encodings) (rev token @ CHR '' '' # rev scheme) = 0"
    using assms(3) Nil_notin_encodings blank_not_inside by (intro space_len_sep) auto
  have "trim_space (scheme @ CHR '' '' # token) = scheme @ CHR '' '' # token"
    using front rear by (intro trim_space_idI) simp_all
  then show ?thesis by (simp add: bearerToken_def assms nb)
qed



subsection \<open>Properties\<close>

text \<open>
  C8. Authentication lets in exactly the enabled clients: for a loaded configuration a request
  authenticates precisely when its bearer token is the token of an enabled client, and it then
  runs with that client's name and limit.
\<close>

theorem authenticate_exact:
  assumes "load decode getenv fs path = Inr rt"
  shows "authenticate (snapshot_of rt a) h = (info, token, True) \<longleftrightarrow>
    token = bearerToken h \<and>
    (\<exists>c \<in> set (cf_clients (rt_config rt)). cl_enabled c \<and> cl_token c = token \<and> info = auth_of c)"
proof -
  have "cl_token c \<noteq> ''''" if "c \<in> set (cf_clients (rt_config rt))" "cl_enabled c" for c
    using load_valid [OF assms] that by (auto simp: validate_iff clients_ok_def client_ok_def Let_def)
  then show ?thesis
    unfolding authenticate_iff snapshot_of_sel client_tokens_lookup [OF load_tokens_distinct [OF assms]]
    by blast
qed

text \<open>
  A client that sends \<open>Bearer <token>\<close>, the scheme in any case, is read back as exactly its
  token, provided the token has no white space at its ends.
\<close>

theorem bearer_roundtrip:
  assumes "equal_fold scheme ''Bearer''" and "trim_space token = token" and "token \<noteq> ''''"
  shows "bearerToken (header_set h ''Authorization'' (scheme @ '' '' @ token)) = token"
  using assms by (intro bearerToken_of) simp_all

theorem bearer_roundtrip_witness:
  "bearerToken (header_set [] ''Authorization'' (''bEARER'' @ '' '' @ ''sk-1'')) = ''sk-1''"
proof -
  have "equal_fold ''bEARER'' ''Bearer''" "trim_space ''sk-1'' = ''sk-1''" by code_simp+
  then show ?thesis using bearer_roundtrip [of "''bEARER''" "''sk-1''" "[]"] by simp
qed

text \<open>
  A client whose configured token has white space at an end passes validation but can never
  authenticate, whatever it sends.
\<close>

theorem padded_token_locked_out:
  assumes "trim_space (cl_token c) \<noteq> cl_token c"
  shows "fst (snd (authenticate state h)) \<noteq> cl_token c"
proof -
  have "trim_space (fst (snd (authenticate state h))) = fst (snd (authenticate state h))"
    by (simp add: authenticate_def Let_def bearerToken_trimmed split: option.split)
  then show ?thesis using assms by metis
qed

definition padded_client :: client_config where
  "padded_client = \<lparr>cl_name = ''x'', cl_token = ''k '', cl_token_file = '''', cl_enabled = True,
     cl_rate_limit_rpm = 1\<rparr>"

theorem padded_token_locked_out_witness:
  "validate_client padded_client ({}, 0) = Inr ({''k ''}, 1) \<and>
   fst (snd (authenticate (snapshot_of (zero_runtime sample_config) 0) [(''Authorization'', [''Bearer k ''])]))
     \<noteq> ''k ''"
proof -
  have t: "trim_space ''x'' \<noteq> ''''" "trim_space ''k '' \<noteq> ''''" by code_simp+
  have p: "trim_space (cl_token padded_client) \<noteq> cl_token padded_client" by code_simp
  have "validate_client padded_client ({}, 0) = Inr ({''k ''}, 1)"
    using t by (simp add: validate_client_Inr client_ok_def padded_client_def)
  with padded_token_locked_out [OF p] show ?thesis by (simp add: padded_client_def)
qed

text \<open>
  The two trust domains stay apart: when a loaded configuration has an operations token, no
  request is accepted both as an operator and as an application client, whatever its headers.
\<close>

theorem trust_domains_disjoint:
  assumes "load decode getenv fs path = Inr rt" and "op_token (cf_operations (rt_config rt)) \<noteq> ''''"
  shows "\<not> (operationsAuthorized (snapshot_of rt a) h \<and> snd (snd (authenticate (snapshot_of rt a) h)))"
proof
  assume both: "operationsAuthorized (snapshot_of rt a) h \<and> snd (snd (authenticate (snapshot_of rt a) h))"
  then have "bearerToken h = op_token (cf_operations (rt_config rt))"
    using operationsAuthorized_iff [of "snapshot_of rt a" h] assms(2) by simp
  with authenticated_enabled [OF assms(1)] both operations_token_apart [OF assms] show False by metis
qed


theorem authenticate_exact_witness:
  "\<exists>rt. load (\<lambda>_. Some sample_config) (\<lambda>_. '''') (\<lambda>_. Some ''x'') sample_path = Inr rt \<and>
     authenticate (snapshot_of rt 0) [(''Authorization'', [''Bearer t1''])] =
       (\<lparr>ca_name = ''app'', ca_rate_limit_rpm = 60\<rparr>, ''t1'', True)"
proof -
  obtain rt where rt: "load (\<lambda>_. Some sample_config) (\<lambda>_. '''') (\<lambda>_. Some ''x'') sample_path = Inr rt"
    "cf_clients (rt_config rt) = cf_clients sample_config"
    by (rule sample_reload)
  have "bearerToken [(''Authorization'', [''Bearer t1''])] = ''t1''" by code_simp
  then have "authenticate (snapshot_of rt 0) [(''Authorization'', [''Bearer t1''])] =
       (\<lparr>ca_name = ''app'', ca_rate_limit_rpm = 60\<rparr>, ''t1'', True)"
    unfolding authenticate_exact [OF rt(1)] by (simp add: rt(2) sample_config_def auth_of_def)
  with rt show ?thesis by blast
qed

theorem trust_domains_disjoint_witness:
  "\<exists>rt. load (\<lambda>_. Some sample_config2) (\<lambda>_. '''') (\<lambda>_. Some ''x'') sample_path = Inr rt \<and>
     operationsAuthorized (snapshot_of rt 0) [(''Authorization'', [''Bearer ops''])] \<and>
     \<not> snd (snd (authenticate (snapshot_of rt 0) [(''Authorization'', [''Bearer ops''])]))"
proof -
  obtain rt where rt: "load (\<lambda>_. Some sample_config2) (\<lambda>_. '''') (\<lambda>_. Some ''x'') sample_path = Inr rt"
    "op_token (cf_operations (rt_config rt)) = ''ops''" by (rule sample_reload)
  have "bearerToken [(''Authorization'', [''Bearer ops''])] = ''ops''" by code_simp
  with rt have "operationsAuthorized (snapshot_of rt 0) [(''Authorization'', [''Bearer ops''])]"
    by (simp add: operationsAuthorized_iff)
  with trust_domains_disjoint [OF rt(1)] rt show ?thesis by auto
qed

end
