(* ===== verification/Gw_Proxy.thy ===== *)
theory Gw_Proxy
  imports Provider_Transport Ops_Auth Trusted_Proxy
begin

section \<open>Proxying a request (internal/gateway/proxy.go)\<close>

text \<open>
  From an authenticated request to the upstream call and back: the route, the buffered body,
  the upstream request with its trusted headers, and the response streamed to the client.
\<close>


subsection \<open>Routes and bodies\<close>

datatype proxy_error =
  ErrRoute
| ErrUnknownProvider string
| ErrBodyTooLarge i64
| ErrReadBody
| ErrBuildRequest
| ErrApplyHeaders string apply_error
| ErrUpstream string string
| ErrContext
| ErrStream string copy_error
| ErrCanceled

record proxy_result =
  px_status :: int
  px_bytes_out :: i64
  px_started :: bool
  px_provider :: string

definition resolveProvider ::
  "runtime_snapshot \<Rightarrow> string \<Rightarrow> (int \<times> proxy_error) + (provider_runtime \<times> string)" where
  "resolveProvider state path =
     (if \<not> prefix ''/providers/'' path then Inr (rs_default state, path)
      else
        (let rest = trim_prefix path ''/providers/'' in
         case index_byte rest CHR ''/'' of
           None \<Rightarrow> Inl (400, ErrRoute)
         | Some 0 \<Rightarrow> Inl (400, ErrRoute)
         | Some idx \<Rightarrow>
             (let name = take idx rest in
              case map_of (rs_providers state) name of
                None \<Rightarrow> Inl (404, ErrUnknownProvider name)
              | Some p \<Rightarrow> Inr (p, ''/'' @ drop (Suc idx) rest))))"

text \<open>
  \<open>io.ReadAll(io.LimitReader(r.Body, limit+1))\<close>: at most \<open>limit + 1\<close> bytes (the sum wraps),
  and an error of the body only when it comes before them.
\<close>

definition read_limited :: "i64 \<Rightarrow> request_body \<Rightarrow> string option" where
  "read_limited n b =
     (if rb_fails b \<and> int (length (rb_bytes b)) < n then None else Some (take (nat n) (rb_bytes b)))"

definition prepareBody :: "runtime_snapshot \<Rightarrow> request \<Rightarrow> proxy_error + (request_body option \<times> i64)" where
  "prepareBody state r =
     (case rq_body r of
        None \<Rightarrow> Inr (None, 0)
      | Some body \<Rightarrow>
          (let limit = rt_body_limit (rs_cfg state) in
           if limit \<le> 0 then Inr (Some body, rq_length r)
           else if limit < rq_length r then Inl (ErrBodyTooLarge limit)
           else (case read_limited (wrap64 (limit + 1)) body of
               None \<Rightarrow> Inl ErrReadBody
             | Some b \<Rightarrow>
                 (if limit < int (length b) then Inl (ErrBodyTooLarge limit)
                  else Inr (Some \<lparr>rb_bytes = b, rb_fails = False\<rparr>, int (length b))))))"


subsection \<open>The upstream request\<close>

text \<open>
  \<open>http.NewRequestWithContext\<close>: the method must be a token (empty means GET), the URL is
  printed and parsed again, and an empty buffer is no body.
\<close>

definition new_request ::
  "string \<Rightarrow> url \<Rightarrow> request_body option \<Rightarrow> upstream_request option" where
  "new_request method u body =
     (let method = (if method = '''' then ''GET'' else method) in
      if \<not> list_all header_byte method then None
      else (case url_parse (url_string u) of
          None \<Rightarrow> None
        | Some u' \<Rightarrow> Some \<lparr>ur_method = method, ur_url = u', ur_header = [],
            ur_body = (case body of None \<Rightarrow> None | Some b \<Rightarrow>
                         if rb_bytes b = '''' \<and> \<not> rb_fails b then None else Some b),
            ur_length = 0\<rparr>))"

definition upstream_url :: "provider_runtime \<Rightarrow> string \<Rightarrow> string \<Rightarrow> url" where
  "upstream_url p targetPath query =
     (pr_base_url p)\<lparr>url_path := singleJoiningSlash (url_path (pr_base_url p)) (trim_prefix targetPath ''/''),
                     url_raw_query := query\<rparr>"

definition forwarded_headers ::
  "string \<Rightarrow> string \<Rightarrow> string \<Rightarrow> string \<Rightarrow> header \<Rightarrow> header" where
  "forwarded_headers clientIP reqID clientName provider h =
     (let h = (if clientIP \<noteq> ''''
               then header_set (header_set h ''X-Forwarded-For'' clientIP) ''X-Real-IP'' clientIP else h);
          h = header_set h ''X-Request-ID'' reqID;
          h = header_set h ''X-GemGate-Client'' clientName;
          h = header_set h ''X-GemGate-Provider'' provider
      in header_set h ''Via'' ''1.1 gemgate'')"

text \<open>Everything up to the call: the provider, the request and whether it can be replayed.\<close>

definition build_upstream ::
  "runtime_snapshot \<Rightarrow> request \<Rightarrow> provider_runtime \<Rightarrow> string \<Rightarrow> request_body option \<Rightarrow> i64 \<Rightarrow>
   string \<Rightarrow> string \<Rightarrow> proxy_error + upstream_request" where
  "build_upstream state r p targetPath body contentLength clientName reqID =
     (case new_request (rq_method r) (upstream_url p targetPath (rq_query r)) body of
        None \<Rightarrow> Inl ErrBuildRequest
      | Some req \<Rightarrow>
          (let req = req\<lparr>ur_length := contentLength\<rparr>;
               h = copyRequestHeaders (ur_header req) (rq_header r);
               clientIP = resolveClientIP (rt_trusted_proxies (rs_cfg state)) (rq_remote r) (rq_header r);
               h = forwarded_headers clientIP reqID clientName (pr_name p) h
           in case ApplyHeaders (pr_spec p) (url_path (ur_url req)) h (pr_api_key p) (pr_headers p) of
                Inl e \<Rightarrow> Inl (ErrApplyHeaders (pr_name p) e)
              | Inr h \<Rightarrow> Inr (req\<lparr>ur_header := h\<rparr>)))"


subsection \<open>The whole exchange\<close>

text \<open>
  What the request meets outside the gateway: the network, the injection of trace context, the
  clock of the provider call, and whether \<open>r.Context()\<close> was done after the copy, and at the end
  of the request (it stays done), and whether a failed copy was a cancellation.
\<close>

record proxy_world =
  pw_base :: "upstream_request \<Rightarrow> upstream_result"
  pw_inject :: "header \<Rightarrow> header"
  pw_call :: call_world
  pw_copy_done :: bool
  pw_done :: bool
  pw_copy_canceled :: bool

text \<open>
  The copy to the client with the wrapped body read along. Every body a call returns ends, so
  the loop does too and the count is never missing (\<open>relay_ends\<close>).
\<close>

definition relay ::
  "provider_runtime \<Rightarrow> call_world \<Rightarrow> response_writer \<Rightarrow> provider_body \<Rightarrow> 'r gateway \<Rightarrow>
   (i64 \<times> copy_error option) option \<times> response_writer \<times> provider_body \<times> 'r gateway" where
  "relay p t w b g =
     (let (res, w, rest) = copyAndFlush conn_write w (pb_reads b) 0;
          (b, g) = body_reads_n (length (pb_reads b) - length rest) p t (b, g)
      in (res, w, b, g))"

definition add_bytes_in :: "i64 \<Rightarrow> 'r gateway \<Rightarrow> 'r gateway" where
  "add_bytes_in n g =
     (if 0 < n then g\<lparr>gw_metrics := (gw_metrics g)\<lparr>mt_bytes_in := mt_bytes_in (gw_metrics g) + of_int n\<rparr>\<rparr> else g)"

definition add_bytes_out :: "i64 \<Rightarrow> 'r gateway \<Rightarrow> 'r gateway" where
  "add_bytes_out n g =
     (if 0 < n then g\<lparr>gw_metrics := (gw_metrics g)\<lparr>mt_bytes_out := mt_bytes_out (gw_metrics g) + of_int n\<rparr>\<rparr> else g)"

definition respond ::
  "proxy_world \<Rightarrow> provider_runtime \<Rightarrow> proxy_result \<Rightarrow> client_response \<Rightarrow> response_writer \<Rightarrow> 'r gateway \<Rightarrow>
   (proxy_result \<times> proxy_error option) \<times> response_writer \<times> 'r gateway" where
  "respond x p result resp w g =
     (let w = w\<lparr>rw_header := copyResponseHeaders (rw_header w) (cr_header resp)\<rparr>;
          w = write_header w (cr_status resp);
          result = result\<lparr>px_status := cr_status resp, px_started := True\<rparr>;
          (res, w, b, g) = relay p (pw_call x) w (cr_body resp) g;
          (n, err) = (case res of None \<Rightarrow> (0, None) | Some r \<Rightarrow> r);
          result = result\<lparr>px_bytes_out := n\<rparr>;
          g = add_bytes_out n g;
          e = (case err of
                 Some ce \<Rightarrow>
                   (if pw_copy_done x then Some ErrContext
                    else if \<not> pw_copy_canceled x then Some (ErrStream (pr_name p) ce)
                    else Some ErrCanceled)
               | None \<Rightarrow> if pw_copy_done x then Some ErrContext else None);
          (_, g) = body_close p (pw_call x) (b, g)
      in ((result, e), w, g))"

definition proxy ::
  "proxy_world \<Rightarrow> runtime_snapshot \<Rightarrow> response_writer \<Rightarrow> request \<Rightarrow> string \<Rightarrow> string \<Rightarrow> 'r gateway \<Rightarrow>
   (proxy_result \<times> proxy_error option) \<times> response_writer \<times> 'r gateway" where
  "proxy x state w r clientName reqID g =
     (let result = \<lparr>px_status = 0, px_bytes_out = 0, px_started = False, px_provider = ''''\<rparr> in
      case resolveProvider state (rq_path r) of
        Inl (status, e) \<Rightarrow> ((result\<lparr>px_status := status\<rparr>, Some e), w, g)
      | Inr (p, targetPath) \<Rightarrow>
          (let result = result\<lparr>px_provider := pr_name p\<rparr> in
           case prepareBody state r of
             Inl e \<Rightarrow>
               ((result\<lparr>px_status := (case e of ErrBodyTooLarge _ \<Rightarrow> 413 | _ \<Rightarrow> 400)\<rparr>, Some e), w, g)
           | Inr (body, contentLength) \<Rightarrow>
               (let g = add_bytes_in contentLength g in
                case build_upstream state r p targetPath body contentLength clientName reqID of
                  Inl e \<Rightarrow> ((result\<lparr>px_status := 500\<rparr>, Some e), w, g)
                | Inr req \<Rightarrow>
                    (let replayable = (0 < rt_body_limit (rs_cfg state) \<or> body = None) in
                     case client_do (pw_base x) (pw_inject x) replayable p (pw_call x) req g of
                       (Inl err, g) \<Rightarrow>
                         ((result\<lparr>px_status := 502\<rparr>, Some (ErrUpstream (pr_name p) err)), w, g)
                     | (Inr resp, g) \<Rightarrow> respond x p result resp w g))))"



subsection \<open>The headers that leave\<close>

lemma header_keys [simp]:
  "canonical_key ''X-Forwarded-For'' = ''X-Forwarded-For''" "canonical_key ''X-Real-IP'' = ''X-Real-Ip''"
  "canonical_key ''X-Request-ID'' = ''X-Request-Id''" "canonical_key ''X-GemGate-Client'' = ''X-Gemgate-Client''"
  "canonical_key ''X-GemGate-Provider'' = ''X-Gemgate-Provider''" "canonical_key ''Via'' = ''Via''"
  by code_simp+

lemma forwarded_headers_values:
  "header_values (forwarded_headers ip rid client provider h) k =
     (let ck = canonical_key k in
      if ck = ''Via'' then [''1.1 gemgate'']
      else if ck = ''X-Gemgate-Provider'' then [provider]
      else if ck = ''X-Gemgate-Client'' then [client]
      else if ck = ''X-Request-Id'' then [rid]
      else if ip \<noteq> '''' \<and> (ck = ''X-Real-Ip'' \<or> ck = ''X-Forwarded-For'') then [ip]
      else header_values h k)"
  by (simp add: forwarded_headers_def Let_def)

lemma new_request_header [simp]: "new_request m u b = Some req \<Longrightarrow> ur_header req = []"
  by (auto simp: new_request_def Let_def split: option.splits if_splits)

lemma upstream_values_cong:
  "header_values h k = header_values h' k \<Longrightarrow>
   upstream_values s path h key custom k = upstream_values s path h' key custom k"
proof -
  assume "header_values h k = header_values h' k"
  then have "configured_values s h custom k = configured_values s h' custom k"
    by (simp only: configured_values_def)
  then show ?thesis by (simp only: upstream_values_def)
qed

text \<open>Every header of an upstream request, from the request's own.\<close>

lemma build_upstream_values:
  assumes "build_upstream state r p target body len client rid = Inr req" "header_canonical (rq_header r)"
  shows "header_values (ur_header req) k =
    upstream_values (pr_spec p) (url_path (ur_url req))
      (forwarded_headers (resolveClientIP (rt_trusted_proxies (rs_cfg state)) (rq_remote r) (rq_header r))
        rid client (pr_name p) (copyRequestHeaders [] (rq_header r)))
      (pr_api_key p) (pr_headers p) k"
  using assms
  by (auto simp: build_upstream_def Let_def split: option.splits sum.splits dest: apply_headers_values)

lemma build_upstream_sel:
  assumes "build_upstream state r p target body len client rid = Inr req"
  shows "new_request (rq_method r) (upstream_url p target (rq_query r)) body =
      Some (req\<lparr>ur_header := [], ur_length := 0\<rparr>) \<and> ur_length req = len"
  using assms
  by (auto simp: build_upstream_def new_request_def Let_def split: option.splits sum.splits if_splits)

definition same_outside :: "string set \<Rightarrow> header \<Rightarrow> header \<Rightarrow> bool" where
  "same_outside lks h h' \<longleftrightarrow> (\<forall>k. to_lower k \<notin> lks \<longrightarrow> header_values h k = header_values h' k)"

lemma same_outsideD: "same_outside lks h h' \<Longrightarrow> to_lower k \<notin> lks \<Longrightarrow> header_values h k = header_values h' k"
  by (simp add: same_outside_def)

text \<open>The headers a client can identify itself to a provider with, by name, in lower case.\<close>

definition client_credentials :: "string set" where
  "client_credentials =
     {''authorization'', ''proxy-authorization'', ''x-api-key'', ''api-key'', ''x-goog-api-key'',
      ''x-goog-user-project'', ''anthropic-version''}"

lemma credentials_blocked: "lk \<in> client_credentials \<Longrightarrow> request_blocked src lk"
  by (auto simp: client_credentials_def request_blocked_def hopByHopHeaders_def upstreamCredentialHeaders_def)

lemma not_credential_names:
  "to_lower ''Connection'' \<notin> client_credentials"
  "to_lower ''X-Forwarded-For'' \<notin> client_credentials"
  "to_lower ''X-Real-IP'' \<notin> client_credentials"
  by code_simp+

lemma same_outside_connection:
  "same_outside client_credentials h h' \<Longrightarrow> connectionHeaderNames h = connectionHeaderNames h'"
  using same_outsideD [OF _ not_credential_names(1)] by (simp only: connectionHeaderNames_def)

lemma same_outside_client_ip:
  "same_outside client_credentials h h' \<Longrightarrow>
   resolveClientIP proxies remote h = resolveClientIP proxies remote h'"
  using same_outsideD [OF _ not_credential_names(2)] same_outsideD [OF _ not_credential_names(3)]
  by (simp only: resolveClientIP_def header_get_def)

lemma copyRequestHeaders_same:
  assumes "same_outside client_credentials h h'" "header_canonical h" "header_canonical h'"
  shows "header_values (copyRequestHeaders dst h) k = header_values (copyRequestHeaders dst h') k"
proof -
  have "request_blocked h = request_blocked h'"
    using same_outside_connection [OF assms(1)] by (simp add: request_blocked_def fun_eq_iff)
  with assms credentials_blocked [of "to_lower k" h] show ?thesis
    by (auto simp: copyRequestHeaders_values same_outside_def)
qed


subsection \<open>Calls and bodies\<close>

lemma add_bytes_frame [simp]:
  "gw_breakers (add_bytes_in n g) = gw_breakers g" "gw_breakers (add_bytes_out n g) = gw_breakers g"
  "gw_runtime (add_bytes_in n g) = gw_runtime g" "gw_runtime (add_bytes_out n g) = gw_runtime g"
  "gw_logs (add_bytes_in n g) = gw_logs g" "gw_logs (add_bytes_out n g) = gw_logs g"
  "gw_rate_limits (add_bytes_in n g) = gw_rate_limits g" "gw_rate_limits (add_bytes_out n g) = gw_rate_limits g"
  "gw_server (add_bytes_in n g) = gw_server g" "gw_server (add_bytes_out n g) = gw_server g"
  "gw_started (add_bytes_in n g) = gw_started g" "gw_started (add_bytes_out n g) = gw_started g"
  by (simp_all add: add_bytes_in_def add_bytes_out_def)

lemma provider_entry_bytes [simp]:
  "provider_entry k (gw_metrics (add_bytes_in n g)) = provider_entry k (gw_metrics g)"
  "provider_entry k (gw_metrics (add_bytes_out n g)) = provider_entry k (gw_metrics g)"
  by (simp_all add: add_bytes_in_def add_bytes_out_def provider_entry_def)

lemma providerFinish_bytes_out:
  "providerFinish n st d te clock (m\<lparr>mt_bytes_out := b\<rparr>) = (providerFinish n st d te clock m)\<lparr>mt_bytes_out := b\<rparr>"
  "mt_bytes_out (providerFinish n st d te clock m) = mt_bytes_out m"
  by (auto simp: providerFinish_def metrics_provider_def put_provider_def Let_def split: option.split)

lemma end_call_bytes_out:
  "end_call p permit t st te failed (add_bytes_out n g) = add_bytes_out n (end_call p permit t st te failed g)"
  by (simp add: end_call_def add_bytes_out_def Let_def providerFinish_bytes_out)


text \<open>The three ways a client call goes: refused, over when it returns, or open until its body is.\<close>

definition open_body :: "upstream_body \<Rightarrow> circuit_permit \<Rightarrow> int \<Rightarrow> provider_body" where
  "open_body body permit status =
     \<lparr>pb_reads = body_reads body, pb_close_fails = ub_close_fails body, pb_once = False,
      pb_call = Some (permit, status)\<rparr>"

lemma body_close_open:
  "body_close p t (open_body body permit status, g) =
     ((open_body body permit status)\<lparr>pb_once := True\<rparr>, body_done p t (permit, status) (ub_close_fails body) g)"
  by (simp add: body_close_def body_finish_def open_body_def)

lemma client_do_cases:
  assumes "client_do base inject replayable p t req g = (res, g')"
  obtains
    (refused) permit d where "begin_call p (cw_permit t) g = ((permit, False, d), g')"
      "res = Inr (circuit_open_response d)"
  | (over) permit d g1 status te failed where "begin_call p (cw_permit t) g = ((permit, True, d), g1)"
      "g' = end_call p permit t status te failed g1"
      "\<And>resp. res = Inr resp \<Longrightarrow> cr_body resp = no_body"
  | (open_call) permit d resp body where "begin_call p (cw_permit t) g = ((permit, True, d), g')"
      "res = Inr resp" "cr_body resp = open_body body permit (cr_status resp)"
proof -
  obtain permit ok d g1 where b: "begin_call p (cw_permit t) g = ((permit, ok, d), g1)"
    by (metis prod.collapse)
  let ?req = "if pr_propagate p then req\<lparr>ur_header := inject (ur_header req)\<rparr> else req"
  show thesis
  proof (cases ok)
    case False
    have "client_do base inject replayable p t req g = (Inr (circuit_open_response d), g1)"
      using b False by (simp add: client_do_def round_trip_def bad_redirect_def circuit_open_response_def)
    then show thesis using refused b False assms by auto
  next
    case True
    have begun: "begin_call p (cw_permit t) g = ((permit, True, d), g1)" using b True by simp
    show thesis
    proof (cases "base ?req")
      case (UpFailed err)
      then show thesis using assms begun over [OF begun]
        by (auto simp: client_do_def round_trip_def Let_def)
    next
      case (UpReply resp)
      show thesis
      proof (cases "us_body resp")
        case None
        then show thesis using assms begun UpReply over [OF begun]
          by (auto simp: client_do_def round_trip_def Let_def body_close_def body_finish_def no_body_def
              split: if_splits)
      next
        case (Some body)
        let ?resp = "\<lparr>cr_status = us_status resp, cr_header = us_header resp,
          cr_body = open_body body permit (us_status resp)\<rparr>"
        have rt: "round_trip base inject p t req g = (Inr ?resp, g1)"
          using begun UpReply Some by (simp add: round_trip_def Let_def open_body_def)
        show thesis
        proof (cases "bad_redirect replayable ?resp")
          case True
          with assms rt have "res = Inl ''failed to parse Location header''"
            "g' = body_done p t (permit, us_status resp) (ub_close_fails body) g1"
            by (auto simp: client_do_def body_close_open)
          then show thesis using over [OF begun] by (simp add: body_done_def Let_def)
        next
          case False
          with assms rt begun show thesis by (intro open_call [of permit d ?resp body]) (auto simp: client_do_def)
        qed
      qed
    qed
  qed
qed


lemma copy_ends:
  "\<exists>rd \<in> set reads. snd rd \<noteq> ReadMore \<Longrightarrow> copyAndFlush wr w reads n = (r, w', rest) \<Longrightarrow> r \<noteq> None"
proof (induction reads arbitrary: w n)
  case (Cons rd reads)
  then show ?case by (cases rd) (auto split: prod.splits if_splits read_result.splits simp: Let_def)
qed simp

lemma body_reads_end: "\<exists>rd \<in> set (body_reads b). snd rd \<noteq> ReadMore"
  by (simp add: body_reads_def)

text \<open>The body of every response a call returns ends, so the copy to the client does.\<close>

lemma client_do_body:
  assumes "client_do base inject replayable p t req g = (Inr resp, g')"
  shows "\<exists>rd \<in> set (pb_reads (cr_body resp)). snd rd \<noteq> ReadMore"
  using assms
  by (cases rule: client_do_cases)
     (simp_all add: circuit_open_response_def no_body_def open_body_def body_reads_end)

lemma relay_ends:
  assumes "client_do base inject replayable p t req g = (Inr resp, g')"
    "relay p t w (cr_body resp) g1 = (res, w', b, g2)"
  shows "res \<noteq> None"
  using assms(2) copy_ends [OF client_do_body [OF assms(1)]]
  by (auto simp: relay_def split: prod.splits)

lemma body_done_bytes_out:
  "body_done p t call e (add_bytes_out n g) = add_bytes_out n (body_done p t call e g)"
  by (simp add: body_done_def Let_def end_call_bytes_out split: prod.split)

lemma relayE:
  assumes "relay p t w b g = (res, w', b', g')"
  obtains rest k where "copyAndFlush conn_write w (pb_reads b) 0 = (res, w', rest)"
    "(b', g') = body_reads_n k p t (b, g)"
proof -
  obtain r1 w1 rest where c: "copyAndFlush conn_write w (pb_reads b) 0 = (r1, w1, rest)" by (metis prod_cases3)
  show thesis
    using assms that [of rest "length (pb_reads b) - length rest"]
    by (auto simp: relay_def c split: prod.splits)
qed

lemma relay_open:
  assumes "relay p t w (open_body body permit status) g = (res, w', b, g')"
  shows "\<exists>e. snd (body_close p t (b, add_bytes_out n g')) = add_bytes_out n (body_done p t (permit, status) e g)"
proof -
  let ?b = "open_body body permit status"
  have end_status: "(if ub_fails body then ReadFailed else ReadEOF) \<noteq> ReadMore" by simp
  obtain k where "(b, g') = body_reads_n k p t (?b, g)"
    using assms by (metis relayE)
  moreover obtain reads where "body_reads_n k p t (?b, g) =
    (if k \<le> length (ub_chunks body) then (?b\<lparr>pb_reads := reads\<rparr>, g)
     else (?b\<lparr>pb_reads := reads, pb_once := True\<rparr>, body_done p t (permit, status) (ub_fails body) g))"
    using body_reads_n_stream [of ?b "(permit, status)" "ub_chunks body" "ub_last body", OF _ _ _ end_status, of k p t g]
    by (auto simp: body_reads_def open_body_def)
  ultimately show ?thesis
    by (cases "k \<le> length (ub_chunks body)")
       (auto simp: body_close_first open_body_def body_done_bytes_out)
qed

lemma body_reads_n_none: "pb_call b = None \<Longrightarrow> snd (body_reads_n n p t (b, g)) = g \<and> pb_call (fst (body_reads_n n p t (b, g))) = None"
proof (induction n arbitrary: b)
  case (Suc n)
  then show ?case
    by (auto simp: body_read_def body_finish_def Let_def split: list.split prod.split read_result.split)
qed simp

lemma relay_none:
  assumes "relay p t w b g = (res, w', b', g')" "pb_call b = None"
  shows "g' = g \<and> snd (body_close p t (b', add_bytes_out n g')) = add_bytes_out n g"
proof -
  obtain k where "(b', g') = body_reads_n k p t (b, g)" using assms(1) by (metis relayE)
  with body_reads_n_none [OF assms(2), of k p t g] have "g' = g" "pb_call b' = None"
    by (metis fst_conv snd_conv)+
  then show ?thesis by (simp add: body_close_def body_finish_def)
qed

lemma respond_gateway:
  assumes "respond x p result resp w g = (r, w', g')"
  obtains res w1 b g1 n where
    "relay p (pw_call x) (write_header (w\<lparr>rw_header := copyResponseHeaders (rw_header w) (cr_header resp)\<rparr>) (cr_status resp))
       (cr_body resp) g = (res, w1, b, g1)"
    "w' = w1" "g' = snd (body_close p (pw_call x) (b, add_bytes_out n g1))"
  using assms by (auto simp: respond_def Let_def split: prod.splits) (metis snd_conv)



subsection \<open>What one request does to the gateway\<close>

lemma add_bytes_0 [simp]: "add_bytes_in 0 g = g" "add_bytes_out 0 g = g"
  by (simp_all add: add_bytes_in_def add_bytes_out_def)

text \<open>
  A call that began and, when it was admitted, ended: the only ways proxying changes metrics of
  providers and breakers.
\<close>

definition call_over :: "provider_runtime \<Rightarrow> call_world \<Rightarrow> 'r gateway \<Rightarrow> 'r gateway \<Rightarrow> bool" where
  "call_over p t g g' \<longleftrightarrow>
     (\<exists>permit d g1. (begin_call p (cw_permit t) g = ((permit, False, d), g1) \<and> g' = g1) \<or>
        (begin_call p (cw_permit t) g = ((permit, True, d), g1) \<and>
         (\<exists>status te failed. g' = end_call p permit t status te failed g1)))"

lemma respond_over:
  assumes "client_do base inject replayable p (pw_call x) req g = (Inr resp, g1)"
    and "respond x p result resp w g1 = (out, w', g2)"
  shows "\<exists>m g3. call_over p (pw_call x) g g3 \<and> g2 = add_bytes_out m g3"
proof (rule respond_gateway [OF assms(2)])
  fix res w1 b n gr
  assume r: "relay p (pw_call x)
        (write_header (w\<lparr>rw_header := copyResponseHeaders (rw_header w) (cr_header resp)\<rparr>) (cr_status resp))
        (cr_body resp) g1 = (res, w1, b, gr)"
    and g2: "g2 = snd (body_close p (pw_call x) (b, add_bytes_out n gr))"
  show ?thesis
    using assms(1)
  proof (cases rule: client_do_cases)
    case (refused permit d)
    then have "pb_call (cr_body resp) = None" by (auto simp: circuit_open_response_def)
    with relay_none [OF r, of n] g2 have "g2 = add_bytes_out n g1" by metis
    moreover have "call_over p (pw_call x) g g1" using refused by (auto simp: call_over_def)
    ultimately show ?thesis by blast
  next
    case (over permit d g0 status te failed)
    then have "pb_call (cr_body resp) = None" by (auto simp: no_body_def)
    with relay_none [OF r, of n] g2 have "g2 = add_bytes_out n g1" by metis
    moreover have "call_over p (pw_call x) g g1" using over by (auto simp: call_over_def)
    ultimately show ?thesis by blast
  next
    case (open_call permit d resp' body)
    then have resp: "cr_body resp = open_body body permit (cr_status resp)" by simp
    from relay_open [OF r [unfolded resp], of n] g2
    obtain e where "g2 = add_bytes_out n (body_done p (pw_call x) (permit, cr_status resp) e g1)" by auto
    moreover have "call_over p (pw_call x) g (body_done p (pw_call x) (permit, cr_status resp) e g1)"
      using open_call by (auto simp: call_over_def body_done_def Let_def)
    ultimately show ?thesis by blast
  qed
qed

lemma proxy_gateway:
  assumes "proxy x state w r client rid g = (out, w', g')"
  shows "\<exists>n m g1. g' = add_bytes_out m g1 \<and>
    (g1 = add_bytes_in n g \<or>
     (\<exists>p target. resolveProvider state (rq_path r) = Inr (p, target) \<and>
        call_over p (pw_call x) (add_bytes_in n g) g1))"
proof (cases "\<exists>p target body len req. resolveProvider state (rq_path r) = Inr (p, target) \<and>
    prepareBody state r = Inr (body, len) \<and> build_upstream state r p target body len client rid = Inr req")
  case False
  then have "g' = g \<or> (\<exists>n. g' = add_bytes_in n g)"
    using assms by (auto simp: proxy_def Let_def split: sum.splits prod.splits)
  then show ?thesis
  proof
    assume "g' = g"
    then show ?thesis by (intro exI [of _ 0] exI [of _ 0] exI [of _ g]) simp
  next
    assume "\<exists>n. g' = add_bytes_in n g"
    then obtain n where "g' = add_bytes_in n g" by blast
    then show ?thesis by (intro exI [of _ n] exI [of _ 0] exI [of _ g']) simp
  qed
next
  case True
  then obtain p target body len req where ok: "resolveProvider state (rq_path r) = Inr (p, target)"
    "prepareBody state r = Inr (body, len)" "build_upstream state r p target body len client rid = Inr req"
    by blast
  let ?rep = "0 < rt_body_limit (rs_cfg state) \<or> body = None"
  obtain res g1 where c: "client_do (pw_base x) (pw_inject x) ?rep p (pw_call x) req (add_bytes_in len g) = (res, g1)"
    by (metis prod.collapse)
  have "\<exists>m g3. call_over p (pw_call x) (add_bytes_in len g) g3 \<and> g' = add_bytes_out m g3"
  proof (cases res)
    case (Inl err)
    then have "g' = g1" using assms ok c by (auto simp: proxy_def Let_def)
    moreover have "call_over p (pw_call x) (add_bytes_in len g) g1"
      using c by (cases rule: client_do_cases) (auto simp: call_over_def Inl)
    ultimately show ?thesis by (intro exI [of _ 0] exI [of _ g1]) simp
  next
    case (Inr resp)
    then have "respond x p \<lparr>px_status = 0, px_bytes_out = 0, px_started = False, px_provider = pr_name p\<rparr>
        resp w g1 = (out, w', g')"
      using assms ok c by (auto simp: proxy_def Let_def)
    from respond_over [OF c [unfolded Inr] this] show ?thesis .
  qed
  with ok show ?thesis by blast
qed


lemma call_over_frame:
  assumes "call_over p t g g'"
  shows "gw_runtime g' = gw_runtime g" "gw_rate_limits g' = gw_rate_limits g" "gw_logs g' = gw_logs g"
    "gw_server g' = gw_server g" "gw_started g' = gw_started g"
    "length (gw_breakers g') = length (gw_breakers g)"
  using assms by (auto simp: call_over_def dest: begin_call_frame)

text \<open>A call leaves the in-flight gauges of all providers as they were.\<close>

lemma call_over_in_flight:
  assumes "call_over p t g g'" "0 \<le> pm_in_flight (provider_entry n (gw_metrics g))"
    "pm_in_flight (provider_entry n (gw_metrics g)) < 2 ^ 62"
  shows "pm_in_flight (provider_entry n (gw_metrics g')) = pm_in_flight (provider_entry n (gw_metrics g))"
proof (cases "n = pr_name p \<and> trim_space n \<noteq> ''''")
  case False
  then have "provider_entry n (gw_metrics (end_call p permit t st te failed g1)) = provider_entry n (gw_metrics g1)"
    for permit st te failed and g1 :: "'a gateway"
    by (auto simp: end_call_def Let_def provider_entry_finish)
  moreover have "provider_entry n (gw_metrics g1) = provider_entry n (gw_metrics g)"
    if "begin_call p now g = ((permit, ok, d), g1)" for permit ok d g1 now
    using that False by (auto elim!: begin_callE simp: provider_entry_begin)
  ultimately show ?thesis using assms(1) by (auto simp: call_over_def)
next
  case True
  define k where "k = nat (pm_in_flight (provider_entry n (gw_metrics g)))"
  have k: "pm_in_flight (provider_entry n (gw_metrics g)) = int k" "k < 2 ^ 62"
    using assms(2,3) by (simp_all add: k_def)
  have begun: "pm_in_flight (provider_entry n (gw_metrics g1)) = (if ok then int (Suc k) else int k)"
    if "begin_call p now g = ((permit, ok, d), g1)" for permit ok d g1 now
    using begin_call_in_flight [OF that] True k by (auto simp: wrap64_bounded)
  moreover have "pm_in_flight (provider_entry n (gw_metrics (end_call p permit t st te failed g1))) = int k"
    if "pm_in_flight (provider_entry n (gw_metrics g1)) = int (Suc k)"
    for permit st te failed and g1 :: "'a gateway"
    using end_call_in_flight [of p g1 "Suc k" permit t st te failed] conjunct1 [OF True] conjunct2 [OF True] that k
    by simp
  ultimately show ?thesis using assms(1) k(1) by (fastforce simp: call_over_def)
qed

text \<open>And it hands the breaker's permit back: the breaker's invariant holds with the same probes out.\<close>

lemma call_over_breaker:
  assumes "call_over p t g g'" "circuit_inv (gw_breakers g ! a) k" "a < length (gw_breakers g)"
  shows "circuit_inv (gw_breakers g' ! a) k"
proof (cases "a = pr_breaker p")
  case False
  then show ?thesis using assms by (auto simp: call_over_def dest: begin_call_frame(7))
next
  case True
  consider permit d where "begin_call p (cw_permit t) g = ((permit, False, d), g')"
    | permit d g1 st te failed where "begin_call p (cw_permit t) g = ((permit, True, d), g1)"
      "g' = end_call p permit t st te failed g1"
    using assms(1) by (auto simp: call_over_def)
  then show ?thesis
  proof cases
    case 1
    from begin_call_breaker [OF this] True assms(3)
    have "circuit_allow (gw_breakers g ! a) (cw_permit t) = ((permit, False, d), gw_breakers g' ! a)" by simp
    from cb.reject_wait [OF assms(2) this] assms(2) show ?thesis by simp
  next
    case 2
    from begin_call_breaker [OF 2(1)] True assms(3)
    have "circuit_allow (gw_breakers g ! a) (cw_permit t) = ((permit, True, d), gw_breakers g1 ! a)" by simp
    from cb.inv_request [OF assms(2) this] begin_call_frame(6) [OF 2(1)] True assms(3) 2(2)
    show ?thesis by (simp add: end_call_breaker)
  qed
qed



subsection \<open>Properties\<close>

text \<open>
  C6. What a client sends in a credential header never reaches a provider: two requests that
  differ only in \<open>Authorization\<close>, \<open>Proxy-Authorization\<close>, \<open>X-Api-Key\<close>, \<open>Api-Key\<close>, the two Google
  headers and \<open>Anthropic-Version\<close> (in any values and any number of them) give the same upstream
  request, header by header. Cookies and the query are the client's data, not the gateway's
  credentials: they are forwarded.
\<close>

theorem client_credentials_withheld:
  assumes "header_canonical (rq_header r)" and "header_canonical h'"
    and "same_outside client_credentials (rq_header r) h'"
    and "build_upstream state r p target body len client rid = Inr req"
  shows "\<exists>req'. build_upstream state (r\<lparr>rq_header := h'\<rparr>) p target body len client rid = Inr req' \<and>
    ur_method req' = ur_method req \<and> ur_url req' = ur_url req \<and> ur_body req' = ur_body req \<and>
    ur_length req' = ur_length req \<and>
    (\<forall>k. header_values (ur_header req') k = header_values (ur_header req) k)"
proof -
  let ?r = "r\<lparr>rq_header := h'\<rparr>"
  obtain req0 where r0: "new_request (rq_method r) (upstream_url p target (rq_query r)) body = Some req0"
    using assms(4) by (auto simp: build_upstream_def split: option.splits)
  have "\<exists>h. ApplyHeaders (pr_spec p) (url_path (ur_url req0)) hh (pr_api_key p) (pr_headers p) = Inr h" for hh
  proof -
    obtain hx where "ApplyHeaders (pr_spec p) (url_path (ur_url req0)) hx (pr_api_key p) (pr_headers p) = Inr (ur_header req)"
      using assms(4) r0 by (auto simp: build_upstream_def Let_def split: sum.splits)
    then have "\<not> (\<exists>e. ApplyHeaders (pr_spec p) (url_path (ur_url req0)) hh (pr_api_key p) (pr_headers p) = Inl e)"
      by (metis apply_headers_error_iff Inl_Inr_False)
    then show ?thesis by (metis sum.exhaust)
  qed
  from this [of "forwarded_headers (resolveClientIP (rt_trusted_proxies (rs_cfg state)) (rq_remote r) h')
      rid client (pr_name p) (copyRequestHeaders (ur_header req0) h')"]
  obtain req' where req': "build_upstream state ?r p target body len client rid = Inr req'"
    using r0 by (auto simp: build_upstream_def Let_def)
  have eq: "req'\<lparr>ur_header := [], ur_length := 0\<rparr> = req\<lparr>ur_header := [], ur_length := 0\<rparr>"
    "ur_length req' = ur_length req"
    using build_upstream_sel [OF assms(4)] build_upstream_sel [OF req'] by simp_all
  have line: "ur_method req' = ur_method req" "ur_url req' = ur_url req" "ur_body req' = ur_body req"
    using arg_cong [OF eq(1), of ur_method] arg_cong [OF eq(1), of ur_url] arg_cong [OF eq(1), of ur_body]
    by simp_all
  have "header_values (ur_header req') k = header_values (ur_header req) k" for k
  proof -
    let ?ip = "resolveClientIP (rt_trusted_proxies (rs_cfg state)) (rq_remote r) h'"
    have "header_values (forwarded_headers ?ip rid client (pr_name p) (copyRequestHeaders [] h')) k =
      header_values (forwarded_headers ?ip rid client (pr_name p) (copyRequestHeaders [] (rq_header r))) k"
      using copyRequestHeaders_same [OF assms(3,1,2), of "[]" k]
      by (simp add: forwarded_headers_values Let_def)
    from upstream_values_cong [OF this] show ?thesis
      using build_upstream_values [OF assms(4,1), of k] build_upstream_values [OF req', of k] assms(2) line(2)
        same_outside_client_ip [OF assms(3)] by simp
  qed
  with req' line eq(2) show ?thesis by blast
qed

text \<open>
  C16. A client cannot speak for another: unless the provider's configuration sets one of these
  headers itself, the upstream request carries exactly one client name, provider name and
  request id, the gateway's own, and as forwarded address exactly the resolved one (none when
  there is none), whatever the client sent under these names.
\<close>

definition identity_headers :: "string set" where
  "identity_headers = {''X-Gemgate-Client'', ''X-Gemgate-Provider'', ''X-Request-Id'', ''X-Forwarded-For'', ''X-Real-Ip''}"

theorem upstream_identity_trusted:
  assumes "build_upstream state r p target body len client rid = Inr req" and "header_canonical (rq_header r)"
    and "\<forall>(k, v) \<in> set (sp_default_headers (pr_spec p) @ pr_headers p). canonical_key k \<notin> identity_headers"
  shows "header_values (ur_header req) ''X-GemGate-Client'' = [client] \<and>
    header_values (ur_header req) ''X-GemGate-Provider'' = [pr_name p] \<and>
    header_values (ur_header req) ''X-Request-ID'' = [rid] \<and>
    (let ip = resolveClientIP (rt_trusted_proxies (rs_cfg state)) (rq_remote r) (rq_header r);
         ips = (if ip = '''' then [] else [ip])
     in header_values (ur_header req) ''X-Forwarded-For'' = ips \<and>
        header_values (ur_header req) ''X-Real-IP'' = ips)"
proof -
  let ?ip = "resolveClientIP (rt_trusted_proxies (rs_cfg state)) (rq_remote r) (rq_header r)"
  let ?h = "forwarded_headers ?ip rid client (pr_name p) (copyRequestHeaders [] (rq_header r))"
  have own: "header_values (ur_header req) k = header_values ?h k" if "canonical_key k \<in> identity_headers" for k
  proof -
    have "find (\<lambda>(k', v). canonical_key k' = canonical_key k) (rev (sp_default_headers (pr_spec p) @ pr_headers p)) = None"
      using assms(3) that unfolding find_None_iff by (auto simp: case_prod_unfold) force+
    then have "configured_values (pr_spec p) ?h (pr_headers p) k = header_values ?h k"
      by (simp add: configured_values_def)
    then show ?thesis
      unfolding build_upstream_values [OF assms(1,2)] using that
      by (auto simp: upstream_values_def identity_headers_def Let_def)
  qed
  have "to_lower ''X-Forwarded-For'' \<in> set forwardingHeaders" "to_lower ''X-Real-IP'' \<in> set forwardingHeaders"
    by code_simp+
  then have "header_values (copyRequestHeaders [] (rq_header r)) ''X-Forwarded-For'' = []"
    "header_values (copyRequestHeaders [] (rq_header r)) ''X-Real-IP'' = []"
    by (simp_all add: copyRequestHeaders_values [OF assms(2)] request_blocked_def)
  with own show ?thesis by (simp add: identity_headers_def forwarded_headers_values Let_def)
qed


lemma valid_name_no_slash: "valid_provider_name n \<Longrightarrow> CHR ''/'' \<notin> set n"
proof -
  have "\<not> is_alnum CHR ''/''" by code_simp
  then show "valid_provider_name n \<Longrightarrow> CHR ''/'' \<notin> set n"
    by (cases n) (auto simp: valid_provider_name_def list_all_iff)
qed

lemma resolve_named:
  assumes "CHR ''/'' \<notin> set name" "name \<noteq> ''''"
  shows "resolveProvider state (''/providers/'' @ name @ ''/'' @ rest) =
    (case map_of (rs_providers state) name of
       None \<Rightarrow> Inl (404, ErrUnknownProvider name) | Some p \<Rightarrow> Inr (p, ''/'' @ rest))"
proof -
  have "trim_prefix (''/providers/'' @ name @ ''/'' @ rest) ''/providers/'' = name @ CHR ''/'' # rest"
    using trim_prefix_append [of "''/providers/''" "name @ CHR ''/'' # rest"] by simp
  moreover have "index_byte (name @ CHR ''/'' # rest) CHR ''/'' = Some (length name)"
    using assms(1) by (simp add: index_byte_def)
  moreover obtain k where "length name = Suc k" using assms(2) by (cases name) auto
  moreover have "prefix ''/providers/'' (''/providers/'' @ name @ ''/'' @ rest)" by (rule prefixI) (rule refl)
  ultimately show ?thesis
    unfolding resolveProvider_def Let_def by (simp split: option.split)
qed

text \<open>
  C25. Provider routes read back: for a loaded configuration, \<open>/providers/<name>/<rest>\<close> reaches
  exactly the configured provider of that name, at the path \<open>/<rest>\<close>, whatever the rest is.
\<close>

theorem route_roundtrip:
  assumes "load decode getenv fs path = Inr rt" and "i < length (cf_providers (rt_config rt))"
  shows "resolveProvider (snapshot_of rt a)
      (''/providers/'' @ pc_name (cf_providers (rt_config rt) ! i) @ ''/'' @ rest) =
    Inr (runtime_of rt (cf_providers (rt_config rt) ! i) (a + i), ''/'' @ rest)"
proof -
  let ?p = "cf_providers (rt_config rt) ! i"
  have "provider_ok rt ?p"
    using load_valid [OF assms(1)] assms(2) by (auto simp: validate_iff providers_ok_def Let_def)
  then have "valid_provider_name (pc_name ?p)" by (simp add: provider_ok_def)
  then have "CHR ''/'' \<notin> set (pc_name ?p)" "pc_name ?p \<noteq> ''''"
    using valid_name_no_slash valid_provider_name_nonempty by auto
  from resolve_named [OF this] show ?thesis
    using built_providers_lookup [OF load_runtime_ready [OF assms(1)] assms(2), of a]
    by (simp only: snapshot_of_sel option.case)
qed

text \<open>
  C26. The body limit is exact: with a limit in force a body is forwarded precisely when neither
  its declared nor its real length exceeds the limit and it was read without error, and then it
  is forwarded whole; and the 413 answer is given only to a body that is too long.
\<close>

theorem body_limit_exact:
  assumes "0 < rt_body_limit (rs_cfg state)" and "rt_body_limit (rs_cfg state) < max_i64"
    and "rq_body r = Some b"
  shows "(prepareBody state r = Inr (body, n) \<longleftrightarrow>
      rq_length r \<le> rt_body_limit (rs_cfg state) \<and> int (length (rb_bytes b)) \<le> rt_body_limit (rs_cfg state) \<and>
      \<not> rb_fails b \<and> body = Some b \<and> n = int (length (rb_bytes b))) \<and>
    (prepareBody state r = Inl (ErrBodyTooLarge (rt_body_limit (rs_cfg state))) \<longleftrightarrow>
      rt_body_limit (rs_cfg state) < rq_length r \<or> rt_body_limit (rs_cfg state) < int (length (rb_bytes b)))"
proof -
  have w: "wrap64 (rt_body_limit (rs_cfg state) + 1) = rt_body_limit (rs_cfg state) + 1"
    using assms(1,2) by (simp add: wrap64_bounded max_i64_def)
  have eq: "b = \<lparr>rb_bytes = rb_bytes b, rb_fails = False\<rparr> \<longleftrightarrow> \<not> rb_fails b" by (cases b) simp
  have "nat (rt_body_limit (rs_cfg state) + 1) \<ge> length (rb_bytes b)"
    if "int (length (rb_bytes b)) \<le> rt_body_limit (rs_cfg state)" using that by linarith
  then show ?thesis
    using assms w eq by (auto simp: prepareBody_def read_limited_def Let_def)
qed


text \<open>
  C13. Proxying leaks nothing: whatever the request, the network and the client do, when
  \<open>proxy\<close> returns every provider's in-flight gauge is what it was, every breaker satisfies its
  invariant with the same probes out, and runtime, rate limits and log are untouched.
\<close>

theorem proxy_leaves_no_call:
  assumes "proxy x state w r client rid g = (out, w', g')"
    and "0 \<le> pm_in_flight (provider_entry n (gw_metrics g))"
    and "pm_in_flight (provider_entry n (gw_metrics g)) < 2 ^ 62"
    and "a < length (gw_breakers g)" and "circuit_inv (gw_breakers g ! a) probes_out"
  shows "pm_in_flight (provider_entry n (gw_metrics g')) = pm_in_flight (provider_entry n (gw_metrics g)) \<and>
    circuit_inv (gw_breakers g' ! a) probes_out \<and> length (gw_breakers g') = length (gw_breakers g) \<and>
    gw_runtime g' = gw_runtime g \<and> gw_rate_limits g' = gw_rate_limits g \<and> gw_logs g' = gw_logs g"
proof -
  obtain k m g1 where g: "g' = add_bytes_out m g1"
    "g1 = add_bytes_in k g \<or> (\<exists>p target. call_over p (pw_call x) (add_bytes_in k g) g1)"
    using proxy_gateway [OF assms(1)] by blast
  from g(2) show ?thesis
  proof
    assume "g1 = add_bytes_in k g"
    with g(1) assms(5) show ?thesis by simp
  next
    assume "\<exists>p target. call_over p (pw_call x) (add_bytes_in k g) g1"
    then obtain p where over: "call_over p (pw_call x) (add_bytes_in k g) g1" by blast
    from call_over_frame [OF over] call_over_in_flight [OF over, of n] call_over_breaker [OF over, of a probes_out]
      assms(2-5) g(1)
    show ?thesis by simp
  qed
qed

lemma conn_write_sent: "rw_sent w = Some s \<Longrightarrow> rw_sent (snd (conn_write w b)) = Some s"
  by (simp add: conn_write_def Let_def)

lemma copy_sent: "rw_sent w = Some s \<Longrightarrow> copyAndFlush conn_write w reads n = (r, w', rest) \<Longrightarrow> rw_sent w' = Some s"
proof (induction reads arbitrary: w n)
  case (Cons rd reads)
  obtain chunk st where rd: "rd = (chunk, st)" by (cases rd)
  obtain wn e w1 where wr: "conn_write w chunk = ((wn, e), w1)" by (metis prod.collapse)
  with conn_write_sent [OF Cons.prems(1), of chunk] have "rw_sent w1 = Some s" by simp
  with Cons wr show ?case
    by (cases st) (auto simp: rd Let_def split: if_splits)
qed simp

lemma body_reads_eof:
  assumes "body_reads body = pre @ (chunk, ReadEOF) # post"
  shows "\<not> ub_fails body \<and> concat (map fst pre) @ chunk = concat (ub_chunks body) @ ub_last body"
proof -
  have "post = []"
  proof (rule ccontr)
    assume "post \<noteq> []"
    then have "butlast (body_reads body) = pre @ (chunk, ReadEOF) # butlast post"
      using assms by (simp add: butlast_append)
    then have "(chunk, ReadEOF) \<in> set (map (\<lambda>c. (c, ReadMore)) (ub_chunks body))"
      by (simp add: body_reads_def)
    then show False by auto
  qed
  then show ?thesis using assms by (auto simp: body_reads_def comp_def split: if_splits)
qed

text \<open>
  C14. The client gets the provider's answer: its status, its headers without the hop-by-hop
  ones, and a prefix of its body; the reported byte count is the length of what was delivered;
  and an exchange without error delivered the whole body, which ended without error.
\<close>

theorem response_relayed:
  assumes "respond x p result resp w g = ((result', e), w', g')"
    and "pb_reads (cr_body resp) = body_reads body"
    and "rw_sent w = None" and "200 \<le> cr_status resp"
  shows "\<exists>sent. rw_sent w' = Some (cr_status resp, copyResponseHeaders (rw_header w) (cr_header resp)) \<and>
    rw_body w' = rw_body w @ sent \<and> prefix sent (concat (ub_chunks body) @ ub_last body) \<and>
    px_status result' = cr_status resp \<and> px_started result' \<and> px_bytes_out result' = wrap64 (int (length sent)) \<and>
    (e = None \<longrightarrow> sent = concat (ub_chunks body) @ ub_last body \<and> \<not> ub_fails body)"
proof -
  let ?w = "write_header (w\<lparr>rw_header := copyResponseHeaders (rw_header w) (cr_header resp)\<rparr>) (cr_status resp)"
  obtain res w1 b g1 where r: "relay p (pw_call x) ?w (cr_body resp) g = (res, w1, b, g1)"
    by (metis prod_cases4)
  obtain rest where c: "copyAndFlush conn_write ?w (body_reads body) 0 = (res, w1, rest)"
    using relayE [OF r] assms(2) by metis
  have "wrap64 (int 0) = 0" by (simp add: wrap64_def)
  then obtain sent where d: "rw_body w1 = rw_body ?w @ sent" "delivered (body_reads body) 0 res sent"
    using conn.copy_and_flush [of ?w "body_reads body" 0 res w1 rest] c by auto
  have sent: "rw_sent ?w = Some (cr_status resp, copyResponseHeaders (rw_header w) (cr_header resp))"
    "rw_body ?w = rw_body w"
    using assms(3,4) by (simp_all add: write_header_def)
  obtain n err where res: "res = Some (n, err)"
    using copy_ends [OF body_reads_end c] by (cases res) auto
  have out: "w' = w1" "px_status result' = cr_status resp" "px_started result'" "px_bytes_out result' = n"
    "e = None \<longrightarrow> err = None"
    using assms(1) by (auto simp: respond_def Let_def r res split: prod.splits option.splits if_splits)
  have "sent = concat (ub_chunks body) @ ub_last body \<and> \<not> ub_fails body" if "err = None"
    using d(2) res that body_reads_eof unfolding delivered_def by blast
  moreover have "concat (map fst (body_reads body)) = concat (ub_chunks body) @ ub_last body"
    by (simp add: body_reads_def comp_def)
  ultimately show ?thesis
    using d res out sent copy_sent [OF sent(1) c] by (auto simp: delivered_def)
qed


text \<open>
  The largest configurable limit disables bodies: with \<open>request_body_limit\<close> set to the
  largest 64-bit number of bytes, which the configuration accepts, \<open>limit + 1\<close> overflows, nothing
  is read and every request is forwarded with an empty body and no error.
\<close>

theorem huge_limit_drops_body:
  assumes "rt_body_limit (rs_cfg state) = max_i64" and "rq_body r = Some b" and "in_i64 (rq_length r)"
  shows "parseBytes (itoa max_i64 @ ''B'') = Inr (rt_body_limit (rs_cfg state)) \<and>
    prepareBody state r = Inr (Some \<lparr>rb_bytes = '''', rb_fails = False\<rparr>, 0)"
proof -
  have p: "parseBytes (itoa max_i64 @ ''B'') = Inr max_i64"
    using parseBytes_unit [of max_i64 "''B''" 1] by (simp add: i64_bounds size_units_def)
  have w: "wrap64 (max_i64 + 1) = min_i64" by (simp add: wrap64_def i64_bounds)
  have "rq_length r \<le> max_i64" "\<not> max_i64 \<le> 0" "\<not> int (length (rb_bytes b)) < min_i64" "nat min_i64 = 0"
    "\<not> max_i64 < 0"
    using assms(3) by (simp_all add: i64_bounds)
  then show ?thesis
    using assms p w by (simp add: prepareBody_def read_limited_def Let_def)
qed


subsubsection \<open>Inputs that meet the hypotheses\<close>

definition sample_state :: "i64 \<Rightarrow> runtime_snapshot" where
  "sample_state limit = snapshot_of ((zero_runtime sample_config)\<lparr>rt_body_limit := limit\<rparr>) 0"

lemma sample_state_limit [simp]: "rt_body_limit (rs_cfg (sample_state limit)) = limit"
  by (simp add: sample_state_def)

definition sample_request :: "header \<Rightarrow> request_body option \<Rightarrow> request" where
  "sample_request h body =
     \<lparr>rq_method = ''POST'', rq_path = ''/v1/chat/completions'', rq_query = '''', rq_uri = ''/v1/chat/completions'',
      rq_header = h, rq_remote = ''203.0.113.9:4711'', rq_body = body,
      rq_length = (case body of None \<Rightarrow> 0 | Some b \<Rightarrow> int (length (rb_bytes b)))\<rparr>"

theorem huge_limit_drops_body_witness:
  "prepareBody (sample_state max_i64) (sample_request [] (Some \<lparr>rb_bytes = ''{}'', rb_fails = False\<rparr>)) =
     Inr (Some \<lparr>rb_bytes = '''', rb_fails = False\<rparr>, 0)"
proof -
  let ?r = "sample_request [] (Some \<lparr>rb_bytes = ''{}'', rb_fails = False\<rparr>)"
  have "rq_body ?r = Some \<lparr>rb_bytes = ''{}'', rb_fails = False\<rparr>" "in_i64 (rq_length ?r)"
    by (simp_all add: sample_request_def i64_bounds)
  from huge_limit_drops_body [OF sample_state_limit this] show ?thesis by blast
qed

theorem body_limit_exact_witness:
  "prepareBody (sample_state 2) (sample_request [] (Some \<lparr>rb_bytes = ''{}'', rb_fails = False\<rparr>)) =
     Inr (Some \<lparr>rb_bytes = ''{}'', rb_fails = False\<rparr>, 2) \<and>
   prepareBody (sample_state 1) (sample_request [] (Some \<lparr>rb_bytes = ''{}'', rb_fails = False\<rparr>)) =
     Inl (ErrBodyTooLarge 1)"
proof -
  let ?r = "sample_request [] (Some \<lparr>rb_bytes = ''{}'', rb_fails = False\<rparr>)"
  have r: "rq_body ?r = Some \<lparr>rb_bytes = ''{}'', rb_fails = False\<rparr>" "rq_length ?r = 2"
    by (simp_all add: sample_request_def)
  from body_limit_exact [of "sample_state 2" ?r, OF _ _ r(1)] body_limit_exact [of "sample_state 1" ?r, OF _ _ r(1)]
  show ?thesis by (simp add: r i64_bounds)
qed

theorem route_roundtrip_witness:
  "\<exists>rt p. load (\<lambda>_. Some sample_config) (\<lambda>_. '''') (\<lambda>_. Some ''x'') sample_path = Inr rt \<and>
     resolveProvider (snapshot_of rt 0) (''/providers/'' @ pc_name p @ ''/'' @ ''v1/models'') =
       Inr (runtime_of rt p 0, ''/'' @ ''v1/models'')"
proof -
  obtain rt where rt: "load (\<lambda>_. Some sample_config) (\<lambda>_. '''') (\<lambda>_. Some ''x'') sample_path = Inr rt"
    by (rule sample_reload)
  have "0 < length (cf_providers (rt_config rt))"
    using load_runtime_ready [OF rt] by (auto simp: runtime_ready_def)
  from route_roundtrip [OF rt this, of 0 "''v1/models''"] rt show ?thesis by (simp only: add_0) blast
qed

theorem response_relayed_witness:
  "\<exists>x out w' g'. respond x sample_provider \<lparr>px_status = 0, px_bytes_out = 0, px_started = False, px_provider = ''''\<rparr>
      \<lparr>cr_status = 200, cr_header = [], cr_body = open_body \<lparr>ub_chunks = [''ab''], ub_last = ''c'', ub_fails = False, ub_close_fails = False\<rparr>
         ordinary_permit 200\<rparr> (new_writer 2) (sample_gw tripped) = (out, w', g') \<and>
    rw_status w' = Some 200 \<and> prefix (rw_body w') ''abc''"
proof -
  let ?body = "\<lparr>ub_chunks = [''ab''], ub_last = ''c'', ub_fails = False, ub_close_fails = False\<rparr>"
  let ?resp = "\<lparr>cr_status = 200, cr_header = [], cr_body = open_body ?body ordinary_permit 200\<rparr>"
  obtain x :: proxy_world and result' e w' g' where r:
    "respond x sample_provider \<lparr>px_status = 0, px_bytes_out = 0, px_started = False, px_provider = ''''\<rparr>
       ?resp (new_writer 2) (sample_gw tripped) = ((result', e), w', g')"
    by (metis prod.collapse)
  have "pb_reads (cr_body ?resp) = body_reads ?body" "rw_sent (new_writer 2) = None" "200 \<le> cr_status ?resp"
    by (simp_all add: open_body_def new_writer_def)
  from response_relayed [OF r this] r show ?thesis
    by (fastforce simp: rw_status_def new_writer_def)
qed

theorem proxy_leaves_no_call_witness:
  "\<exists>x out w' g'. proxy x (sample_state 0) (new_writer 9) (sample_request [] None) ''app'' ''req-1'' (sample_gw tripped)
      = (out, w', g') \<and>
    pm_in_flight (provider_entry ''main'' (gw_metrics g')) = 0 \<and> circuit_inv (gw_breakers g' ! 0) 0"
proof -
  obtain x :: proxy_world and out w' g' where
    r: "proxy x (sample_state 0) (new_writer 9) (sample_request [] None) ''app'' ''req-1'' (sample_gw tripped)
      = (out, w', g')"
    by (metis prod.collapse)
  have "circuit_inv tripped 0"
    by (simp add: tripped_def circuit_inv_def circuit_wf_def i64_bounds)
  then have "circuit_inv (gw_breakers (sample_gw tripped) ! 0) 0" "0 < length (gw_breakers (sample_gw tripped))"
    by (simp_all add: sample_gw_def)
  with proxy_leaves_no_call [OF r, of "''main''" 0 0]
  have "pm_in_flight (provider_entry ''main'' (gw_metrics g')) = 0 \<and> circuit_inv (gw_breakers g' ! 0) 0"
    by (simp add: sample_gw_metrics)
  with r show ?thesis by blast
qed


definition sample_upstream :: provider_runtime where
  "sample_upstream =
     \<lparr>pr_name = ''main'', pr_spec = fst (Lookup ''openai''),
      pr_base_url = (case url_parse ''https://api.openai.com/v1'' of None \<Rightarrow> empty_url | Some u \<Rightarrow> u),
      pr_api_key = ''sk-1'', pr_headers = [], pr_timeout = 0, pr_breaker = 0, pr_propagate = False\<rparr>"

definition sample_client_headers :: header where
  "sample_client_headers = [(''Authorization'', [''Bearer t1'']), (''X-Gemgate-Client'', [''root'']), (''Accept'', [''*/*''])]"

lemma sample_client_canonical: "header_canonical sample_client_headers"
  unfolding header_canonical_def header_wf_def by code_simp

lemma sample_built:
  "\<not> isl (build_upstream (sample_state 0) (sample_request sample_client_headers None) sample_upstream
     ''/v1/models'' None 0 ''app'' ''req-1'')"
  by code_simp

lemma sample_build:
  obtains req where "build_upstream (sample_state 0) (sample_request sample_client_headers None) sample_upstream
     ''/v1/models'' None 0 ''app'' ''req-1'' = Inr req"
  using sample_built by (metis isl_def sum.exhaust)

theorem upstream_identity_trusted_witness:
  "\<exists>req. build_upstream (sample_state 0) (sample_request sample_client_headers None) sample_upstream
      ''/v1/models'' None 0 ''app'' ''req-1'' = Inr req \<and>
    header_values (ur_header req) ''X-GemGate-Client'' = [''app'']"
proof -
  obtain req where req: "build_upstream (sample_state 0) (sample_request sample_client_headers None) sample_upstream
      ''/v1/models'' None 0 ''app'' ''req-1'' = Inr req" by (rule sample_build)
  have h: "header_canonical (rq_header (sample_request sample_client_headers None))"
    by (simp add: sample_request_def sample_client_canonical)
  have "sp_default_headers (pr_spec sample_upstream) @ pr_headers sample_upstream = []" by code_simp
  then have "\<forall>(k, v) \<in> set (sp_default_headers (pr_spec sample_upstream) @ pr_headers sample_upstream).
      canonical_key k \<notin> identity_headers" by simp
  from upstream_identity_trusted [OF req h this] req show ?thesis by blast
qed

theorem client_credentials_withheld_witness:
  "\<exists>req req'. build_upstream (sample_state 0) (sample_request sample_client_headers None) sample_upstream
      ''/v1/models'' None 0 ''app'' ''req-1'' = Inr req \<and>
    build_upstream (sample_state 0) (sample_request (header_set sample_client_headers ''Authorization'' ''x'') None)
      sample_upstream ''/v1/models'' None 0 ''app'' ''req-1'' = Inr req' \<and>
    header_values (ur_header req') ''Authorization'' = header_values (ur_header req) ''Authorization''"
proof -
  let ?r = "sample_request sample_client_headers None"
  let ?h = "header_set sample_client_headers ''Authorization'' ''x''"
  obtain req where req: "build_upstream (sample_state 0) ?r sample_upstream ''/v1/models'' None 0 ''app'' ''req-1'' = Inr req"
    by (rule sample_build)
  have h: "header_canonical (rq_header ?r)" "header_canonical ?h"
    by (simp add: sample_request_def sample_client_canonical) (unfold header_canonical_def header_wf_def, code_simp)
  have "to_lower ''Authorization'' \<in> client_credentials" by code_simp
  then have "same_outside client_credentials (rq_header ?r) ?h"
    by (auto simp: same_outside_def sample_request_def) (metis auth_keys(1) to_lower_canonical_key)
  from client_credentials_withheld [OF h this req] req show ?thesis
    by (auto simp: sample_request_def)
qed

text \<open>The body of a response a call returned ends (its type has it so), so copying it does.\<close>

lemma relay_terminates:
  assumes "client_do base inject replayable p t req g = (Inr resp, g')"
  shows "\<exists>n e w' b g2 sent. relay p t w (cr_body resp) g1 = (Some (n, e), w', b, g2) \<and>
    rw_body w' = rw_body w @ sent \<and> length sent \<le> rw_room w \<and> n = wrap64 (int (length sent))"
proof -
  obtain res w' b g2 where r: "relay p t w (cr_body resp) g1 = (res, w', b, g2)" by (metis prod_cases4)
  obtain rest where c: "copyAndFlush conn_write w (pb_reads (cr_body resp)) 0 = (res, w', rest)"
    using r by (metis relayE)
  obtain n e where res: "res = Some (n, e)" using relay_ends [OF assms r] by auto
  have "wrap64 (int 0) = 0" by (simp add: wrap64_def)
  then obtain out where out: "rw_body w' = rw_body w @ out" "delivered (pb_reads (cr_body resp)) 0 res out"
    using conn.copy_and_flush [of w "pb_reads (cr_body resp)" 0 res w' rest] c by auto
  then have "n = wrap64 (int (length out))" unfolding delivered_def res by (auto split: option.splits)
  with r out(1) copy_room [OF c] show ?thesis by (auto simp: res)
qed

end
