(* ===== verification/Gw_Views.thy ===== *)
theory Gw_Views
  imports Provider_Transport Ops_Auth
begin

section \<open>Operator views (health.go, readiness.go, gateway.go, safeConfig in proxy.go)\<close>

text \<open>
  What the gateway shows of itself: metrics, health, readiness and the redacted configuration.
  Texts of durations, times and floating-point numbers are the standard library's and are
  passed in (\<open>rendering\<close>).
\<close>

record rendering =
  rn_duration :: "duration \<Rightarrow> string"
  rn_seconds :: "nat \<Rightarrow> duration \<Rightarrow> string"
  rn_time :: "gotime \<Rightarrow> string"
  rn_ratio :: "rat \<Rightarrow> string"


subsection \<open>Metrics and health\<close>

definition provider_breakers :: "runtime_snapshot \<Rightarrow> 'r gateway \<Rightarrow> (string \<times> circuit_breaker) list" where
  "provider_breakers state g = map (\<lambda>(n, pr). (n, gw_breakers g ! pr_breaker pr)) (rs_providers state)"

text \<open>\<open>Gateway.Metrics\<close>: the counters at \<open>now\<close>, the circuits of the current snapshot at \<open>later\<close>.\<close>

definition gateway_metrics :: "gotime \<Rightarrow> gotime \<Rightarrow> 'r gateway \<Rightarrow> metrics_snapshot" where
  "gateway_metrics now later g =
     (metrics_snapshot now (gw_metrics g))\<lparr>ms_circuits :=
        circuitSnapshots (provider_breakers (gw_runtime g) g) later\<rparr>"

definition activeProviderMetrics ::
  "provider_metrics_snapshot list \<Rightarrow> (string \<times> provider_runtime) list \<Rightarrow> provider_metrics_snapshot list" where
  "activeProviderMetrics all providers = filter (\<lambda>s. map_of providers (ps_name s) \<noteq> None) all"

definition providerHealthSnapshot :: "provider_metrics_snapshot list \<Rightarrow> (string \<times> string) list" where
  "providerHealthSnapshot providers =
     fold (\<lambda>p out. AList.update (ps_name p) (ps_health p) out) providers []"

definition writeHealth ::
  "rendering \<Rightarrow> gotime \<Rightarrow> runtime_snapshot \<Rightarrow> 'r gateway \<Rightarrow> response_writer \<Rightarrow> response_writer" where
  "writeHealth rn now state g w =
     writeJSON w 200 (JObject
       [(''ok'', JBool True), (''service'', JString ''gemgate''),
        (''uptime'', JString (rn_duration rn (time_sub now (gw_started g)))),
        (''providers'', JObject (map (apsnd JString) (providerHealthSnapshot
           (activeProviderMetrics (ms_providers (gateway_metrics now now g)) (rs_providers state)))))])"


subsection \<open>Readiness\<close>

record readiness_provider =
  rp_health :: string
  rp_circuit :: string
  rp_retry_after_ms :: i64

definition readiness_entry ::
  "(string \<times> string) list \<Rightarrow> (string \<times> circuit_snapshot) list \<Rightarrow> string \<Rightarrow> readiness_provider" where
  "readiness_entry healthByProvider circuitByProvider name =
     (let (circuit_text, retry) = (case map_of circuitByProvider name of
            None \<Rightarrow> ('''', 0) | Some c \<Rightarrow> (cs_state c, cs_retry_after c));
          circuit_text = (if circuit_text = '''' then circuit_state_string CircuitClosed else circuit_text);
          health = (case map_of healthByProvider name of None \<Rightarrow> '''' | Some h \<Rightarrow> h);
          health = (if health = '''' then ''unknown'' else health)
      in \<lparr>rp_health = health, rp_circuit = circuit_text,
          rp_retry_after_ms = (if 0 < retry then duration_round retry nanos_ms sdiv nanos_ms else 0)\<rparr>)"

definition readiness_json :: "readiness_provider \<Rightarrow> json" where
  "readiness_json e =
     JStruct ([(''health'', JString (rp_health e)), (''circuit'', JString (rp_circuit e))] @
       (if rp_retry_after_ms e = 0 then [] else [(''retry_after_ms'', json_int (rp_retry_after_ms e))]))"

definition readiness_of ::
  "gotime \<Rightarrow> runtime_snapshot \<Rightarrow> 'r gateway \<Rightarrow> bool \<times> (string \<times> readiness_provider) list" where
  "readiness_of now state g =
     (let healthByProvider = providerHealthSnapshot
            (activeProviderMetrics (providerSnapshots (gw_metrics g)) (rs_providers state));
          circuitByProvider = map (\<lambda>c. (cs_provider c, c)) (circuitSnapshots (provider_breakers state g) now);
          providers = map (\<lambda>(name, _). (name, readiness_entry healthByProvider circuitByProvider name))
            (rs_providers state);
          ready = (\<not> (\<exists>(name, e) \<in> set providers. name = cf_default_provider (rt_config (rs_cfg state)) \<and>
             (rp_circuit e = circuit_state_string CircuitOpen \<or>
              rp_circuit e = circuit_state_string CircuitHalfOpen)))
      in (ready, providers))"

definition writeReadiness ::
  "rendering \<Rightarrow> gotime \<Rightarrow> gotime \<Rightarrow> runtime_snapshot \<Rightarrow> 'r gateway \<Rightarrow> response_writer \<Rightarrow> response_writer" where
  "writeReadiness rn now checked state g w =
     (let (ready, providers) = readiness_of now state g;
          status = (if ready then 200 else 503);
          w = set_header w ''X-GemGate-Readiness'' ''passive''
      in writeJSON w status (JObject
           [(''ready'', JBool ready), (''service'', JString ''gemgate''), (''mode'', JString ''passive''),
            (''default_provider'', JString (cf_default_provider (rt_config (rs_cfg state)))),
            (''providers'', JObject (map (apsnd readiness_json) providers)),
            (''checked_at'', JString (rn_time rn checked))]))"


subsection \<open>The redacted configuration\<close>

text \<open>A nil slice is \<open>null\<close>: \<open>append([]string(nil), xs...)\<close> of no elements.\<close>

definition json_strings :: "string list \<Rightarrow> json" where
  "json_strings xs = (if xs = [] then JNull else JArray (map JString xs))"

definition client_view :: "client_config \<Rightarrow> json" where
  "client_view c =
     JObject [(''name'', JString (cl_name c)), (''enabled'', JBool (cl_enabled c)),
              (''token'', JString (redact (cl_token c))), (''rate_limit_rpm'', json_int (cl_rate_limit_rpm c))]"

definition provider_view :: "rendering \<Rightarrow> config_runtime \<Rightarrow> provider_config \<Rightarrow> json" where
  "provider_view rn rt p =
     (let policy = circuitPolicyFor rt (pc_name p) in
      JObject [(''name'', JString (pc_name p)), (''type'', JString (pc_type p)),
               (''base_url'', JString (pc_base_url p)), (''api_key'', JString (redact (pc_api_key p))),
               (''timeout'', JString (pc_timeout p)),
               (''circuit_breaker'', JObject
                  [(''enabled'', JBool (cp_enabled policy)),
                   (''failure_threshold'', json_int (cp_threshold policy)),
                   (''open_for'', JString (rn_duration rn (cp_open_for policy)))])])"

definition server_view :: "server_config \<Rightarrow> json" where
  "server_view s =
     JObject [(''listen'', JString (sv_listen s)), (''public_health'', JBool (sv_public_health s)),
              (''request_body_limit'', JString (sv_body_limit s)),
              (''trusted_proxies'', json_strings (sv_trusted_proxies s)),
              (''cors'', JObject
                 [(''enabled'', JBool (cors_is_enabled (sv_cors s))),
                  (''allowed_origins'', json_strings (co_origins (sv_cors s))),
                  (''allowed_methods'', json_strings (co_methods (sv_cors s))),
                  (''allowed_headers'', json_strings (co_headers (sv_cors s))),
                  (''allow_credentials'', JBool (co_credentials (sv_cors s))),
                  (''max_age'', JString (co_max_age (sv_cors s)))])]"

definition rate_limit_view :: "rate_limit_config \<Rightarrow> json" where
  "rate_limit_view l =
     (let redisConfigured = (trim_space (rc_url (rl_redis l)) \<noteq> '''');
          redisMode = (if rl_backend l = ''redis'' \<and> redisConfigured
                       then redisRateLimitMode (rc_url (rl_redis l)) else '''')
      in JObject [(''backend'', JString (rl_backend l)), (''fail_open'', JBool (rc_fail_open (rl_redis l))),
           (''redis'', JObject
              [(''configured'', JBool redisConfigured), (''mode'', JString redisMode),
               (''key_prefix'', JString (rc_key_prefix (rl_redis l))),
               (''timeout'', JString (rc_timeout (rl_redis l)))])])"

text \<open>
  The whole view; \<open>None\<close> when the sampling ratio is NaN, which \<open>encoding/json\<close> refuses to
  print: the response then has no body.
\<close>

definition safeConfig :: "rendering \<Rightarrow> runtime_snapshot \<Rightarrow> json option" where
  "safeConfig rn state =
     (let cfg = rt_config (rs_cfg state); telemetry = cf_telemetry cfg in
      case te_sample_ratio telemetry of
        None \<Rightarrow> None
      | Some ratio \<Rightarrow> Some (JObject
          [(''server'', server_view (cf_server cfg)),
           (''operations'', JObject [(''dedicated_auth'', JBool (rs_operations_token state \<noteq> ''''))]),
           (''rate_limit'', rate_limit_view (cf_rate_limit cfg)),
           (''telemetry'', JObject
              [(''enabled'', JBool (te_enabled telemetry)), (''service_name'', JString (te_service_name telemetry)),
               (''sample_ratio'', JNumber (rn_ratio rn ratio)), (''environment'', JString (te_environment telemetry)),
               (''propagate_upstream'', JBool (te_propagate telemetry)),
               (''endpoint_configured'', JBool (trim_space (te_endpoint telemetry) \<noteq> ''''))]),
           (''default_provider'', JString (cf_default_provider cfg)),
           (''providers'', JArray (map (provider_view rn (rs_cfg state)) (cf_providers cfg))),
           (''clients'', JArray (map client_view (cf_clients cfg)))]))"

definition write_config :: "rendering \<Rightarrow> runtime_snapshot \<Rightarrow> response_writer \<Rightarrow> response_writer" where
  "write_config rn state w =
     (case safeConfig rn state of
        None \<Rightarrow> write_header (set_header w ''Content-Type'' ''application/json'') 200
      | Some v \<Rightarrow> writeJSON w 200 v)"



subsection \<open>\<open>ConfigSnapshot\<close>, the view of the terminal UI\<close>

record client_snapshot =
  sn_name :: string
  sn_enabled :: bool
  sn_token :: string
  sn_rate_limit_rpm :: i64

record provider_snap =
  pn_name :: string
  pn_kind :: string
  pn_url :: string
  pn_api_key :: string
  pn_timeout :: string
  pn_openai :: bool
  pn_circuit_enabled :: bool
  pn_circuit_threshold :: i64
  pn_circuit_open_for :: string

record config_snapshot =
  cn_listen :: string
  cn_public_health :: bool
  cn_body_limit :: string
  cn_trusted_proxies :: "string list"
  cn_dedicated_auth :: bool
  cn_backend :: string
  cn_mode :: string
  cn_fail_open :: bool
  cn_telemetry_enabled :: bool
  cn_telemetry_service :: string
  cn_telemetry_ratio :: ratio
  cn_telemetry_environment :: string
  cn_telemetry_propagate :: bool
  cn_telemetry_endpoint :: bool
  cn_upstream_url :: string
  cn_upstream_key :: string
  cn_default_provider :: string
  cn_providers :: "provider_snap list"
  cn_log_recent :: i64
  cn_clients :: "client_snapshot list"
  cn_cors_enabled :: bool
  cn_cors_origins :: "string list"

definition client_snap :: "client_config \<Rightarrow> client_snapshot" where
  "client_snap c =
     \<lparr>sn_name = cl_name c, sn_enabled = cl_enabled c, sn_token = redact (cl_token c),
      sn_rate_limit_rpm = cl_rate_limit_rpm c\<rparr>"

definition provider_snap_of :: "rendering \<Rightarrow> config_runtime \<Rightarrow> provider_config \<Rightarrow> provider_snap" where
  "provider_snap_of rn rt p =
     (let spec = fst (Lookup (pc_type p)); policy = circuitPolicyFor rt (pc_name p) in
      \<lparr>pn_name = pc_name p, pn_kind = pc_type p, pn_url = pc_base_url p, pn_api_key = redact (pc_api_key p),
       pn_timeout = pc_timeout p, pn_openai = sp_openai_compatible spec,
       pn_circuit_enabled = cp_enabled policy, pn_circuit_threshold = cp_threshold policy,
       pn_circuit_open_for = rn_duration rn (cp_open_for policy)\<rparr>)"

definition configSnapshot :: "rendering \<Rightarrow> 'r gateway \<Rightarrow> config_snapshot" where
  "configSnapshot rn g =
     (let state = gw_runtime g; cfg = rt_config (rs_cfg state); telemetry = cf_telemetry cfg in
      \<lparr>cn_listen = sv_listen (cf_server cfg), cn_public_health = sv_public_health (cf_server cfg),
       cn_body_limit = sv_body_limit (cf_server cfg),
       cn_trusted_proxies = sv_trusted_proxies (cf_server cfg),
       cn_dedicated_auth = (rs_operations_token state \<noteq> ''''),
       cn_backend = limiter_name (mgr_backend (gw_rate_limits g)),
       cn_mode = limiter_mode (mgr_backend (gw_rate_limits g)),
       cn_fail_open = mgr_fail_open (gw_rate_limits g),
       cn_telemetry_enabled = te_enabled telemetry, cn_telemetry_service = te_service_name telemetry,
       cn_telemetry_ratio = te_sample_ratio telemetry, cn_telemetry_environment = te_environment telemetry,
       cn_telemetry_propagate = te_propagate telemetry,
       cn_telemetry_endpoint = (trim_space (te_endpoint telemetry) \<noteq> ''''),
       cn_upstream_url = url_string (pr_base_url (rs_default state)),
       cn_upstream_key = redact (pr_api_key (rs_default state)),
       cn_default_provider = cf_default_provider cfg,
       cn_providers = map (provider_snap_of rn (rs_cfg state)) (cf_providers cfg),
       cn_log_recent = lg_recent (cf_logging cfg),
       cn_clients = map client_snap (cf_clients cfg),
       cn_cors_enabled = cors_is_enabled (sv_cors (cf_server cfg)),
       cn_cors_origins = co_origins (sv_cors (cf_server cfg))\<rparr>)"


subsection \<open>Properties\<close>

lemma redact_blank: "redact s = '''' \<longleftrightarrow> trim_space s = ''''"
  by (simp add: redact_def ellipsis_def)

text \<open>The same configuration with every secret replaced.\<close>

definition with_secrets :: "(string \<Rightarrow> string) \<Rightarrow> config_runtime \<Rightarrow> config_runtime" where
  "with_secrets f rt =
     (let cfg = rt_config rt in
      rt\<lparr>rt_config := cfg\<lparr>
           cf_providers := map (\<lambda>p. p\<lparr>pc_api_key := f (pc_api_key p)\<rparr>) (cf_providers cfg),
           cf_clients := map (\<lambda>c. c\<lparr>cl_token := f (cl_token c)\<rparr>) (cf_clients cfg),
           cf_operations := (cf_operations cfg)\<lparr>op_token := f (op_token (cf_operations cfg))\<rparr>\<rparr>\<rparr>)"

lemma circuitPolicyFor_secrets [simp]: "circuitPolicyFor (with_secrets f rt) n = circuitPolicyFor rt n"
  by (simp add: circuitPolicyFor_def with_secrets_def Let_def)

text \<open>
  The configuration view tells no more of a secret than its redaction: when every key and
  token is replaced by one that redacts to the same text (and the operations token stays set or
  unset), the view is the same.
\<close>

theorem safe_config_hides:
  assumes "\<forall>s. redact (f s) = redact s" and "\<forall>s. f s = '''' \<longleftrightarrow> s = ''''"
  shows "safeConfig rn (state\<lparr>rs_cfg := with_secrets f (rs_cfg state),
      rs_operations_token := f (rs_operations_token state)\<rparr>) = safeConfig rn state"
proof -
  let ?rt = "rs_cfg state"
  have sel: "cf_server (rt_config (with_secrets f ?rt)) = cf_server (rt_config ?rt)"
    "cf_rate_limit (rt_config (with_secrets f ?rt)) = cf_rate_limit (rt_config ?rt)"
    "cf_telemetry (rt_config (with_secrets f ?rt)) = cf_telemetry (rt_config ?rt)"
    "cf_default_provider (rt_config (with_secrets f ?rt)) = cf_default_provider (rt_config ?rt)"
    "cf_providers (rt_config (with_secrets f ?rt)) =
       map (\<lambda>p. p\<lparr>pc_api_key := f (pc_api_key p)\<rparr>) (cf_providers (rt_config ?rt))"
    "cf_clients (rt_config (with_secrets f ?rt)) =
       map (\<lambda>c. c\<lparr>cl_token := f (cl_token c)\<rparr>) (cf_clients (rt_config ?rt))"
    by (simp_all add: with_secrets_def Let_def)
  have "provider_view rn (with_secrets f ?rt) (p\<lparr>pc_api_key := f (pc_api_key p)\<rparr>) = provider_view rn ?rt p" for p
    using assms(1) by (simp add: provider_view_def)
  moreover have "client_view (c\<lparr>cl_token := f (cl_token c)\<rparr>) = client_view c" for c
    using assms(1) by (simp add: client_view_def)
  ultimately show ?thesis
    using assms(2)
    by (cases "te_sample_ratio (cf_telemetry (rt_config ?rt))") (simp_all add: safeConfig_def sel Let_def comp_def)
qed

definition mask_secret :: "string \<Rightarrow> string" where
  "mask_secret s = (if s = ''sk-secret-1'' then ''sk-sXXXet-1'' else if s = ''sk-sXXXet-1'' then ''sk-secret-1'' else s)"

definition sample_rendering :: rendering where
  "sample_rendering = \<lparr>rn_duration = (\<lambda>d. itoa d @ ''ns''), rn_seconds = (\<lambda>_ d. itoa d), rn_time = itoa,
     rn_ratio = (\<lambda>_. ''0.1'')\<rparr>"

theorem safe_config_hides_witness:
  "let state = snapshot_of (zero_runtime sample_config2) 0
   in mask_secret ''sk-secret-1'' \<noteq> ''sk-secret-1'' \<and>
      safeConfig sample_rendering (state\<lparr>rs_cfg := with_secrets mask_secret (rs_cfg state),
        rs_operations_token := mask_secret (rs_operations_token state)\<rparr>) = safeConfig sample_rendering state"
proof -
  have "redact ''sk-secret-1'' = redact ''sk-sXXXet-1''" by code_simp
  then have "\<forall>s. redact (mask_secret s) = redact s" by (simp add: mask_secret_def)
  moreover have "\<forall>s. mask_secret s = '''' \<longleftrightarrow> s = ''''" by (simp add: mask_secret_def)
  ultimately have "safeConfig sample_rendering (state\<lparr>rs_cfg := with_secrets mask_secret (rs_cfg state),
        rs_operations_token := mask_secret (rs_operations_token state)\<rparr>) = safeConfig sample_rendering state"
    for state
    using safe_config_hides [of mask_secret sample_rendering state] by blast
  moreover have "mask_secret ''sk-secret-1'' \<noteq> ''sk-secret-1''" by (simp add: mask_secret_def)
  ultimately show ?thesis by (simp add: Let_def)
qed

lemma map_of_keyed: "map_of (map (\<lambda>(n, b). (n, f n b)) xs) n = map_option (f n) (map_of xs n)"
  by (induction xs) auto

lemma circuit_by_provider:
  "map_of (map (\<lambda>c. (cs_provider c, c)) (circuitSnapshots xs now)) n =
     map_option (\<lambda>b. (circuit_snapshot b now)\<lparr>cs_provider := n\<rparr>) (map_of xs n)"
  by (induction xs) (auto simp: circuitSnapshots_def)

lemma circuit_text_blocked:
  "(cs_state (circuit_snapshot b now) = ''open'' \<or> cs_state (circuit_snapshot b now) = ''half_open'') \<longleftrightarrow>
     cb_enabled b \<and> cb_state b \<noteq> CircuitClosed"
  "cs_state (circuit_snapshot b now) \<noteq> ''''"
  by (cases "cb_state b"; simp add: circuit_snapshot_def)+

text \<open>The health map by provider, and what readiness says of one provider and of the gateway.\<close>

lemma fold_update_keyed:
  assumes "\<forall>p \<in> set ps. val p = f (key p)"
  shows "map_of (fold (\<lambda>p out. AList.update (key p) (val p) out) ps acc) k =
    (if k \<in> key ` set ps then Some (f k) else map_of acc k)"
  using assms by (induction ps arbitrary: acc) (auto simp: update_conv')

lemma health_by_provider:
  "map_of (providerHealthSnapshot (activeProviderMetrics (providerSnapshots m) providers)) n =
     (if n \<in> fst ` set (mt_providers m) \<and> map_of providers n \<noteq> None
      then Some (ps_health (provider_snapshot n (provider_entry n m))) else None)"
proof -
  let ?ps = "activeProviderMetrics (providerSnapshots m) providers"
  have "\<forall>p \<in> set ?ps. ps_health p = ps_health (provider_snapshot (ps_name p) (provider_entry (ps_name p) m))"
    by (force simp: activeProviderMetrics_def providerSnapshots_def provider_entry_def Let_def
        dest: weak_map_of_SomeI)
  moreover have "n \<in> ps_name ` set ?ps \<longleftrightarrow> n \<in> fst ` set (mt_providers m) \<and> map_of providers n \<noteq> None"
    by (force simp: activeProviderMetrics_def providerSnapshots_def Let_def)
  ultimately show ?thesis
    unfolding providerHealthSnapshot_def by (subst fold_update_keyed) auto
qed

definition circuit_passes :: "circuit_breaker \<Rightarrow> bool" where
  "circuit_passes b \<longleftrightarrow> \<not> cb_enabled b \<or> cb_state b = CircuitClosed"

definition health_report :: "provider_metrics \<Rightarrow> string" where
  "health_report p =
     (if pm_requests p = 0 then ''unknown'' else if 3 \<le> pm_consecutive_failures p then ''degraded''
      else if 0 < pm_consecutive_failures p then ''warning'' else ''healthy'')"

definition circuit_report :: "circuit_breaker \<Rightarrow> gotime \<Rightarrow> string" where
  "circuit_report b now =
     (if \<not> cb_enabled b then ''disabled'' else if cb_state b = CircuitClosed then ''closed''
      else if cb_state b = CircuitOpen \<and> now < cb_open_until b then ''open'' else ''half_open'')"

definition cooldown_report :: "circuit_breaker \<Rightarrow> gotime \<Rightarrow> i64" where
  "cooldown_report b now =
     (if cb_enabled b \<and> cb_state b = CircuitOpen \<and> now < cb_open_until b
      then duration_round (time_sub (cb_open_until b) now) nanos_ms sdiv nanos_ms else 0)"

definition provider_report :: "'r gateway \<Rightarrow> gotime \<Rightarrow> string \<times> provider_runtime \<Rightarrow> string \<times> json" where
  "provider_report g now entry =
     (let (name, pr) = entry; b = gw_breakers g ! pr_breaker pr; retry = cooldown_report b now
      in (name, JStruct ([(''health'', JString (health_report (provider_entry name (gw_metrics g)))),
            (''circuit'', JString (circuit_report b now))] @
            (if retry = 0 then [] else [(''retry_after_ms'', json_int retry)]))))"

lemma snapshot_report:
  "ps_health (provider_snapshot n p) = health_report p"
  "cs_state (circuit_snapshot b now) = circuit_report b now"
  "0 < cs_retry_after (circuit_snapshot b now) \<longleftrightarrow>
     cb_enabled b \<and> cb_state b = CircuitOpen \<and> now < cb_open_until b"
  "(if 0 < cs_retry_after (circuit_snapshot b now)
    then duration_round (cs_retry_after (circuit_snapshot b now)) nanos_ms sdiv nanos_ms else 0) = cooldown_report b now"
proof -
  have pos: "0 < time_sub (cb_open_until b) now \<longleftrightarrow> now < cb_open_until b"
    by (auto simp: time_sub_def sat64_def min_i64_def max_i64_def)
  show "ps_health (provider_snapshot n p) = health_report p"
    by (simp add: provider_snapshot_def providerHealth_def health_report_def Let_def)
  show "cs_state (circuit_snapshot b now) = circuit_report b now"
    by (cases "cb_state b") (auto simp: circuit_snapshot_def circuit_report_def time_before_def)
  show "0 < cs_retry_after (circuit_snapshot b now) \<longleftrightarrow>
     cb_enabled b \<and> cb_state b = CircuitOpen \<and> now < cb_open_until b"
    using pos by (auto simp: circuit_snapshot_def time_before_def)
  show "(if 0 < cs_retry_after (circuit_snapshot b now)
    then duration_round (cs_retry_after (circuit_snapshot b now)) nanos_ms sdiv nanos_ms else 0) = cooldown_report b now"
    using pos by (auto simp: circuit_snapshot_def cooldown_report_def time_before_def)
qed

lemma readiness_reports:
  assumes "distinct (map fst (rs_providers state))"
  shows "map (apsnd readiness_json) (snd (readiness_of now state g)) = map (provider_report g now) (rs_providers state)"
proof -
  let ?health = "providerHealthSnapshot (activeProviderMetrics (providerSnapshots (gw_metrics g)) (rs_providers state))"
  let ?circuit = "map (\<lambda>c. (cs_provider c, c)) (circuitSnapshots (provider_breakers state g) now)"
  have "(name, readiness_json (readiness_entry ?health ?circuit name)) = provider_report g now (name, pr)"
    if "(name, pr) \<in> set (rs_providers state)" for name pr
  proof -
    have pr: "map_of (rs_providers state) name = Some pr" using assms that by (rule map_of_is_SomeI)
    then have b: "map_of (provider_breakers state g) name = Some (gw_breakers g ! pr_breaker pr)"
      by (simp add: provider_breakers_def map_of_keyed)
    have "health_report (provider_entry name (gw_metrics g)) = ''unknown''" if "name \<notin> fst ` set (mt_providers (gw_metrics g))"
      using that by (simp add: provider_entry_def health_report_def zero_provider_metrics_def map_of_eq_None_iff [symmetric])
    moreover have "health_report p \<noteq> ''''" for p by (simp add: health_report_def)
    moreover have "circuit_report c now \<noteq> ''''" for c by (simp add: circuit_report_def)
    ultimately show ?thesis
      using snapshot_report(4) [of "gw_breakers g ! pr_breaker pr" now]
      by (simp add: readiness_entry_def health_by_provider circuit_by_provider pr b snapshot_report(1,2)
          provider_report_def readiness_json_def Let_def)
  qed
  then show ?thesis by (auto simp: readiness_of_def Let_def)
qed

lemma readiness_flag:
  assumes "gateway_wf g"
  shows "distinct (map fst (rs_providers (gw_runtime g)))"
    and "fst (readiness_of now (gw_runtime g) g) \<longleftrightarrow>
      circuit_passes (gw_breakers g ! pr_breaker (rs_default (gw_runtime g)))"
proof -
  let ?s = "gw_runtime g"
  let ?d = "cf_default_provider (rt_config (rs_cfg ?s))"
  obtain a where a: "runtime_ready (rs_cfg ?s)" "?s = snapshot_of (rs_cfg ?s) a"
    using assms by (auto simp: gateway_wf_def Let_def)
  have provs: "rs_providers ?s = built_providers (rs_cfg ?s) a" using a(2) by (metis snapshot_of_sel(2))
  show dist: "distinct (map fst (rs_providers ?s))" using a(1) provs by (simp add: runtime_ready_def)
  have "?d \<in> fst ` set (rs_providers ?s)"
    using a(1) provs by (metis built_providers_names list.set_map runtime_ready_def)
  then obtain pr where pr: "map_of (rs_providers ?s) ?d = Some pr"
    by (metis map_of_eq_None_iff not_Some_eq)
  have "rs_default ?s = the (map_of (built_providers (rs_cfg ?s) a) ?d)"
    using a(2) by (metis snapshot_of_def runtime_snapshot.select_convs(3))
  then have d: "rs_default ?s = pr" using pr provs by simp
  have lookup: "map_of (provider_breakers ?s g) ?d = Some (gw_breakers g ! pr_breaker pr)"
    using pr by (simp add: provider_breakers_def map_of_keyed)
  have mem: "(?d, pr) \<in> set (rs_providers ?s)" using pr by (rule map_of_SomeD)
  show "fst (readiness_of now ?s g) \<longleftrightarrow> circuit_passes (gw_breakers g ! pr_breaker (rs_default ?s))"
    using mem lookup circuit_text_blocked [of "gw_breakers g ! pr_breaker pr" now]
    by (auto simp: readiness_of_def readiness_entry_def circuit_by_provider circuit_passes_def d Let_def
        split: option.splits)
qed

lemma writeJSON_answer:
  assumes "rw_sent w = None" "200 \<le> status"
  shows "rw_status (writeJSON w status v) = Some status"
    and "rw_body (writeJSON w status v) = rw_body w @ take (rw_room w) (json_encode v @ [CHR 0x0A])"
proof -
  have "take (min n (length b)) b = take n b" for n and b :: string by (simp add: min_def)
  with assms show "rw_status (writeJSON w status v) = Some status"
    "rw_body (writeJSON w status v) = rw_body w @ take (rw_room w) (json_encode v @ [CHR 0x0A])"
    by (simp_all only: writeJSON_def write_body_def conn_write_def write_header_def set_header_def Let_def rw_status_def)
       simp_all
qed

text \<open>
  C40. What readiness answers: for a well-formed gateway, 200 when the default provider's circuit
  is closed or disabled, and 503 while it is open or half open, also after its cooldown has
  passed; and the body reports every provider of the snapshot, each with the health its
  counters show, the state of its own circuit and what is left of its cooldown.
\<close>

theorem readiness_exact:
  assumes "gateway_wf g" and "rw_sent w = None"
    and "writeReadiness rn now checked (gw_runtime g) g w = w'"
  shows "let state = gw_runtime g; ready = circuit_passes (gw_breakers g ! pr_breaker (rs_default state)) in
    rw_status w' = Some (if ready then 200 else 503) \<and>
    rw_body w' = rw_body w @ take (rw_room w)
      (json_encode (JObject
         [(''ready'', JBool ready), (''service'', JString ''gemgate''), (''mode'', JString ''passive''),
          (''default_provider'', JString (cf_default_provider (rt_config (rs_cfg state)))),
          (''providers'', JObject (map (provider_report g now) (rs_providers state))),
          (''checked_at'', JString (rn_time rn checked))]) @ [CHR 0x0A])"
proof -
  obtain ready providers where r: "readiness_of now (gw_runtime g) g = (ready, providers)" by fastforce
  have eq: "ready = circuit_passes (gw_breakers g ! pr_breaker (rs_default (gw_runtime g)))"
    "map (apsnd readiness_json) providers = map (provider_report g now) (rs_providers (gw_runtime g))"
    using readiness_flag [OF assms(1)] readiness_reports [of "gw_runtime g" now g] r by (metis fst_conv, metis snd_conv)
  let ?w = "set_header w ''X-GemGate-Readiness'' ''passive''"
  have w: "rw_sent ?w = None" "rw_body ?w = rw_body w" "rw_room ?w = rw_room w"
    using assms(2) by (simp_all add: set_header_def)
  have "200 \<le> (if ready then 200 else 503 :: int)" by simp
  from writeJSON_answer [OF w(1) this] w(2,3) assms(3) show ?thesis
    unfolding writeReadiness_def r eq(1) [symmetric] eq(2) [symmetric] Let_def prod.case by metis
qed

theorem readiness_exact_witness:
  "\<exists>rt (g :: unit gateway) w'. new_gateway no_connect '''' (\<lambda>s. s) 0 rt = Inr g \<and>
     writeReadiness sample_rendering 7 8 (gw_runtime g) g (new_writer 9) = w' \<and>
     rw_status w' = Some (if circuit_passes (gw_breakers g ! pr_breaker (rs_default (gw_runtime g))) then 200 else 503)"
proof -
  obtain rt and g :: "unit gateway" where g: "new_gateway no_connect '''' (\<lambda>s. s) 0 rt = Inr g" "gateway_wf g"
    by (rule sample_gateway)
  have "rw_sent (new_writer 9) = None" by (simp add: new_writer_def)
  from readiness_exact [OF g(2) this refl, of sample_rendering 7 8] g(1) show ?thesis
    unfolding Let_def by blast
qed

end
