(* ===== verification/Gw_Serve.thy ===== *)
theory Gw_Serve
  imports Gw_Proxy Gw_Views Cors_Policy
begin

section \<open>Serving requests (gateway.go, operations_listener.go)\<close>

text \<open>
  The application handler and the handler of the operations listener, from the first check to
  the log line, on a gateway state, a response writer and what one request meets outside
  (\<open>serve_world\<close>). Spans are in \<open>Gw_Tracing\<close>. Requests that run at the same time interleave
  at the atomic operations of the parts; one request here runs alone.
\<close>

record 'r serve_world =
  sw_start :: gotime
  sw_random :: "string option"
  sw_nano :: i64
  sw_limit :: gotime
  sw_end :: gotime
  sw_proxy :: proxy_world
  sw_cmds :: "'r redis_cmds"
  sw_sha256 :: "string \<Rightarrow> string"
  sw_rendering :: rendering
  sw_proxy_text :: "proxy_error \<Rightarrow> string"
  sw_limit_text :: "limit_error \<Rightarrow> string"


subsection \<open>Bookkeeping\<close>

definition bump_auth_failures :: "'r gateway \<Rightarrow> 'r gateway" where
  "bump_auth_failures g =
     g\<lparr>gw_metrics := (gw_metrics g)\<lparr>mt_auth_failures := mt_auth_failures (gw_metrics g) + 1\<rparr>\<rparr>"

definition bump_rate_limited :: "'r gateway \<Rightarrow> 'r gateway" where
  "bump_rate_limited g =
     g\<lparr>gw_metrics := (gw_metrics g)\<lparr>mt_rate_limited := mt_rate_limited (gw_metrics g) + 1\<rparr>\<rparr>"

definition bump_limit_errors :: "'r gateway \<Rightarrow> 'r gateway" where
  "bump_limit_errors g =
     g\<lparr>gw_metrics := (gw_metrics g)\<lparr>mt_rate_limit_backend_errors := mt_rate_limit_backend_errors (gw_metrics g) + 1\<rparr>\<rparr>"

definition bump_upstream_errors :: "'r gateway \<Rightarrow> 'r gateway" where
  "bump_upstream_errors g =
     g\<lparr>gw_metrics := (gw_metrics g)\<lparr>mt_upstream_errors := mt_upstream_errors (gw_metrics g) + 1\<rparr>\<rparr>"

definition add_in_flight :: "i64 \<Rightarrow> 'r gateway \<Rightarrow> 'r gateway" where
  "add_in_flight d g =
     g\<lparr>gw_metrics := (gw_metrics g)\<lparr>mt_in_flight := wrap64 (mt_in_flight (gw_metrics g) + d)\<rparr>\<rparr>"

definition record_status :: "int \<Rightarrow> 'r gateway \<Rightarrow> 'r gateway" where
  "record_status status g = g\<lparr>gw_metrics := recordStatus status (gw_metrics g)\<rparr>"

definition log_entry_of ::
  "'r serve_world \<Rightarrow> request \<Rightarrow> string \<Rightarrow> string \<Rightarrow> string \<Rightarrow> string \<Rightarrow> int \<Rightarrow> string \<Rightarrow> log_entry" where
  "log_entry_of sw r level client clientIP reqID status msg =
     \<lparr>le_time = sw_start sw, le_level = level, le_client = client, le_client_ip = clientIP,
      le_provider = '''', le_method = rq_method r, le_path = rq_path r, le_status = status, le_bytes = 0,
      le_duration = time_sub (sw_end sw) (sw_start sw), le_request_id = reqID, le_message = msg\<rparr>"

definition add_log :: "'r serve_world \<Rightarrow> log_entry \<Rightarrow> 'r gateway \<Rightarrow> 'r gateway" where
  "add_log sw e g = g\<lparr>gw_logs := logring_add (sw_end sw) e (gw_logs g)\<rparr>"


subsection \<open>Operational endpoints\<close>

definition operations_endpoint ::
  "'r serve_world \<Rightarrow> runtime_snapshot \<Rightarrow> string \<Rightarrow> response_writer \<Rightarrow> 'r gateway \<Rightarrow> response_writer" where
  "operations_endpoint sw state path w g =
     (let rn = sw_rendering sw; now = sw_end sw in
      if path = ''/_healthz'' then writeHealth rn now state g w
      else if path = ''/_readyz'' then writeReadiness rn now now state g w
      else if path = ''/_metrics'' then
        write_body (set_header w ''Content-Type'' ''text/plain; version=0.0.4'')
          (prometheus (rn_seconds rn) (gateway_metrics now now g))
      else if path = ''/_config'' then write_config rn state w
      else w)"

definition operations_refused ::
  "'r serve_world \<Rightarrow> request \<Rightarrow> string \<Rightarrow> string \<Rightarrow> response_writer \<Rightarrow> 'r gateway \<Rightarrow>
   response_writer \<times> 'r gateway" where
  "operations_refused sw r clientIP reqID w g =
     (let g = record_status 401 (bump_auth_failures g);
          g = add_log sw (log_entry_of sw r ''warn'' ''operations'' clientIP reqID 401 ''operations auth failed'') g;
          w = set_header w ''WWW-Authenticate'' operationsAuthChallenge
      in (http_error w ''invalid operations token'' 401, g))"


subsection \<open>The application handler\<close>

text \<open>The \<open>Retry-After\<close> of a rate-limited request: the wait rounded to whole seconds, at least 1.\<close>

definition limit_retry_seconds :: "duration \<Rightarrow> int" where
  "limit_retry_seconds d = max 1 (duration_round d nanos_second sdiv nanos_second)"

text \<open>After admission: the proxied exchange and its accounting.\<close>

definition serve_proxied ::
  "'r serve_world \<Rightarrow> runtime_snapshot \<Rightarrow> response_writer \<Rightarrow> request \<Rightarrow> client_auth \<Rightarrow> string \<Rightarrow> string \<Rightarrow>
   'r gateway \<Rightarrow> response_writer \<times> 'r gateway" where
  "serve_proxied sw state w r auth clientIP reqID g =
     (let g = add_in_flight 1 g;
          ((result, err), w, g) = proxy (sw_proxy sw) state w r (ca_name auth) reqID g;
          clientAborted = (err \<noteq> None \<and> pw_done (sw_proxy sw));
          (result, w, g) =
            (if err \<noteq> None \<and> \<not> clientAborted
             then (let g = bump_upstream_errors g;
                       result = (if px_status result = 0 then result\<lparr>px_status := 502\<rparr> else result);
                       w = (if \<not> px_started result
                            then http_error w (publicProxyError (px_status result)) (px_status result) else w)
                   in (result, w, g))
             else (result, w, g));
          g = (if \<not> clientAborted then record_status (px_status result) g else g);
          msg = (if clientAborted then ''client canceled request''
                 else (case err of None \<Rightarrow> '''' | Some e \<Rightarrow> sw_proxy_text sw e));
          level = (if clientAborted then ''info'' else levelForStatus (px_status result));
          result = (if clientAborted then result\<lparr>px_status := 0\<rparr> else result);
          e = (log_entry_of sw r level (ca_name auth) clientIP reqID (px_status result) msg)
                \<lparr>le_provider := px_provider result, le_path := rq_uri r, le_bytes := px_bytes_out result\<rparr>;
          g = add_log sw e g
      in (w, add_in_flight (- 1) g))"

definition serve_client ::
  "'r serve_world \<Rightarrow> runtime_snapshot \<Rightarrow> response_writer \<Rightarrow> request \<Rightarrow> string \<Rightarrow> string \<Rightarrow> 'r gateway \<Rightarrow>
   response_writer \<times> 'r gateway" where
  "serve_client sw state w r clientIP reqID g =
     (let (auth, token, ok) = authenticate state (rq_header r) in
      if \<not> ok then
        (let g = record_status 401 (bump_auth_failures g);
             g = add_log sw (log_entry_of sw r ''warn'' ''anonymous'' clientIP reqID 401 ''auth failed'') g
         in (http_error w ''invalid proxy token'' 401, g))
      else
        (let ((decision, limitErr), limits) = manager_allow (limiter_allow (sw_cmds sw)) (sw_sha256 sw)
               (gw_rate_limits g) token (ca_rate_limit_rpm auth) (sw_limit sw);
             g = g\<lparr>gw_rate_limits := limits\<rparr>;
             g = (if limitErr \<noteq> None then bump_limit_errors g else g)
         in if limitErr \<noteq> None \<and> \<not> rd_allowed decision then
              (let g = record_status 503 g;
                   g = add_log sw (log_entry_of sw r ''error'' (ca_name auth) clientIP reqID 503
                         (''rate limit backend unavailable: '' @ sw_limit_text sw (the limitErr))) g
               in (http_error w ''rate limit backend unavailable'' 503, g))
            else
              (let g = (if limitErr \<noteq> None
                        then add_log sw (log_entry_of sw r ''warn'' (ca_name auth) clientIP reqID 0
                          (''rate limit backend unavailable; fail-open allowed request: '' @
                           sw_limit_text sw (the limitErr))) g
                        else g)
               in if \<not> rd_allowed decision then
                    (let g = record_status 429 (bump_rate_limited g);
                         w = (if 0 < rd_retry_after decision
                              then set_header w ''Retry-After'' (itoa (limit_retry_seconds (rd_retry_after decision)))
                              else w);
                         g = add_log sw (log_entry_of sw r ''warn'' (ca_name auth) clientIP reqID 429
                               ''rate limit exceeded'') g
                     in (http_error w ''client rate limit exceeded'' 429, g))
                  else serve_proxied sw state w r auth clientIP reqID g)))"

definition serveHTTP ::
  "'r serve_world \<Rightarrow> runtime_snapshot \<Rightarrow> response_writer \<Rightarrow> request \<Rightarrow> 'r gateway \<Rightarrow>
   response_writer \<times> 'r gateway" where
  "serveHTTP sw state w r g =
     (let reqID = requestID (rq_header r) (sw_random sw) (sw_nano sw);
          clientIP = resolveClientIP (rt_trusted_proxies (rs_cfg state)) (rq_remote r) (rq_header r);
          w = set_header w ''X-Request-ID'' reqID;
          public = sv_public_health (cf_server (rt_config (rs_cfg state)))
      in if rq_path r = ''/_healthz'' \<and> public then (operations_endpoint sw state (rq_path r) w g, g)
         else if rq_path r = ''/_readyz'' \<and> public then (operations_endpoint sw state (rq_path r) w g, g)
         else if rq_method r = ''OPTIONS'' then (write_header w 204, g)
         else if isOperationalPath (rq_path r) then
           (if \<not> operationsAuthorized state (rq_header r) then operations_refused sw r clientIP reqID w g
            else (operations_endpoint sw state (rq_path r) w g, g))
         else serve_client sw state w r clientIP reqID g)"

text \<open>
  \<open>ServeHTTP\<close>: CORS first, on the snapshot current at arrival. The pointer to the CORS handler
  is never nil here; a disabled handler answers nothing.
\<close>

definition ServeHTTP ::
  "'r serve_world \<Rightarrow> response_writer \<Rightarrow> request \<Rightarrow> 'r gateway \<Rightarrow> response_writer \<times> 'r gateway" where
  "ServeHTTP sw w r g =
     (let state = gw_runtime g; (handled, w) = cors_handle (rs_cors state) w r in
      if handled then (w, g) else serveHTTP sw state w r g)"


subsection \<open>The two listeners\<close>

text \<open>The handler \<open>IsolateOperationsEndpoints\<close> installs in front of the application.\<close>

definition isolateOperationsEndpoints :: "'r gateway \<Rightarrow> 'r gateway" where
  "isolateOperationsEndpoints g = g\<lparr>gw_server := (gw_server g)\<lparr>hs_isolated := True\<rparr>\<rparr>"

definition application_handler ::
  "'r serve_world \<Rightarrow> response_writer \<Rightarrow> request \<Rightarrow> 'r gateway \<Rightarrow> response_writer \<times> 'r gateway" where
  "application_handler sw w r g =
     (if hs_isolated (gw_server g) \<and> isOperationalPath (rq_path r) then (http_not_found w, g)
      else ServeHTTP sw w r g)"

definition serveOperationsListenerHTTP ::
  "'r serve_world \<Rightarrow> response_writer \<Rightarrow> request \<Rightarrow> 'r gateway \<Rightarrow> response_writer \<times> 'r gateway" where
  "serveOperationsListenerHTTP sw w r g =
     (let state = gw_runtime g;
          reqID = requestID (rq_header r) (sw_random sw) (sw_nano sw);
          clientIP = resolveClientIP (rt_trusted_proxies (rs_cfg state)) (rq_remote r) (rq_header r);
          w = set_header w ''X-Request-ID'' reqID;
          public = sv_public_health (cf_server (rt_config (rs_cfg state)))
      in if \<not> isOperationalPath (rq_path r) then (http_not_found w, g)
         else if rq_path r = ''/_healthz'' \<and> public then (operations_endpoint sw state (rq_path r) w g, g)
         else if rq_path r = ''/_readyz'' \<and> public then (operations_endpoint sw state (rq_path r) w g, g)
         else if rq_method r = ''OPTIONS'' then (write_header w 204, g)
         else if \<not> operationsAuthorized state (rq_header r) then operations_refused sw r clientIP reqID w g
         else (operations_endpoint sw state (rq_path r) w g, g))"

text \<open>
  \<open>ListenAndServe\<close> and \<open>Serve\<close> write one line and run the server; \<open>Shutdown\<close> writes one, stops
  the server and closes the backend, and reports the first error (the outcomes of the server
  and the backend are arguments).
\<close>

definition gateway_listening :: "gotime \<Rightarrow> string \<Rightarrow> 'r gateway \<Rightarrow> 'r gateway" where
  "gateway_listening clock addr g =
     g\<lparr>gw_logs := logring_add clock (system_entry zero_time ''info'' (''listening on '' @ addr)) (gw_logs g)\<rparr>"

definition serve_result :: "bool \<Rightarrow> string option \<Rightarrow> string option" where
  "serve_result server_closed err = (if err \<noteq> None \<and> \<not> server_closed then err else None)"

definition gateway_shutdown ::
  "gotime \<Rightarrow> string option \<Rightarrow> string option \<Rightarrow> 'r gateway \<Rightarrow> string option \<times> 'r gateway" where
  "gateway_shutdown clock serverErr limitErr g =
     (let g = g\<lparr>gw_logs := logring_add clock (system_entry zero_time ''info'' ''server shutdown requested'') (gw_logs g)\<rparr>
      in (if serverErr \<noteq> None then serverErr else limitErr, g))"

subsection \<open>What the bookkeeping leaves alone\<close>

text \<open>Two gateways that differ in counters and log only.\<close>

definition same_parts :: "'r gateway \<Rightarrow> 'r gateway \<Rightarrow> bool" where
  "same_parts g g' \<longleftrightarrow>
     gw_breakers g' = gw_breakers g \<and> gw_runtime g' = gw_runtime g \<and> gw_server g' = gw_server g \<and>
     gw_started g' = gw_started g \<and> mt_providers (gw_metrics g') = mt_providers (gw_metrics g)"

lemma recordStatus_sel [simp]:
  "mt_requests (recordStatus st m) = mt_requests m + 1" "mt_in_flight (recordStatus st m) = mt_in_flight m"
  "mt_providers (recordStatus st m) = mt_providers m" "mt_auth_failures (recordStatus st m) = mt_auth_failures m"
  "mt_started_at (recordStatus st m) = mt_started_at m"
  by (simp_all add: recordStatus_def Let_def)

lemma record_status_sel [simp]:
  "gw_metrics (record_status st g) = recordStatus st (gw_metrics g)" "gw_breakers (record_status st g) = gw_breakers g"
  "gw_runtime (record_status st g) = gw_runtime g" "gw_rate_limits (record_status st g) = gw_rate_limits g"
  "gw_logs (record_status st g) = gw_logs g" "gw_server (record_status st g) = gw_server g"
  "gw_started (record_status st g) = gw_started g"
  by (simp_all add: record_status_def)

lemma add_log_sel [simp]:
  "gw_metrics (add_log sw e g) = gw_metrics g" "gw_breakers (add_log sw e g) = gw_breakers g"
  "gw_runtime (add_log sw e g) = gw_runtime g" "gw_rate_limits (add_log sw e g) = gw_rate_limits g"
  "gw_logs (add_log sw e g) = logring_add (sw_end sw) e (gw_logs g)" "gw_server (add_log sw e g) = gw_server g"
  "gw_started (add_log sw e g) = gw_started g"
  by (simp_all add: add_log_def)

lemmas bump_defs = bump_auth_failures_def bump_rate_limited_def bump_limit_errors_def bump_upstream_errors_def

lemma same_parts_ops [simp]:
  "same_parts g g" "same_parts g (record_status st g') = same_parts g g'"
  "same_parts g (add_log sw e g') = same_parts g g'"
  "same_parts g (bump_auth_failures g') = same_parts g g'" "same_parts g (bump_rate_limited g') = same_parts g g'"
  "same_parts g (bump_limit_errors g') = same_parts g g'" "same_parts g (bump_upstream_errors g') = same_parts g g'"
  "same_parts g (add_in_flight n g') = same_parts g g'"
  "same_parts g (g'\<lparr>gw_rate_limits := l\<rparr>) = same_parts g g'"
  by (simp_all add: same_parts_def bump_defs add_in_flight_def)

lemma bump_logs [simp]:
  "gw_logs (bump_auth_failures g) = gw_logs g" "gw_logs (bump_rate_limited g) = gw_logs g"
  "gw_logs (bump_limit_errors g) = gw_logs g" "gw_logs (bump_upstream_errors g) = gw_logs g"
  "gw_logs (add_in_flight n g) = gw_logs g"
  by (simp_all add: bump_defs add_in_flight_def)

lemma bump_limits [simp]:
  "gw_rate_limits (bump_auth_failures g) = gw_rate_limits g" "gw_rate_limits (bump_rate_limited g) = gw_rate_limits g"
  "gw_rate_limits (bump_limit_errors g) = gw_rate_limits g" "gw_rate_limits (bump_upstream_errors g) = gw_rate_limits g"
  "gw_rate_limits (add_in_flight n g) = gw_rate_limits g"
  by (simp_all add: bump_defs add_in_flight_def)

lemma bump_counters [simp]:
  "mt_requests (gw_metrics (bump_auth_failures g)) = mt_requests (gw_metrics g)"
  "mt_requests (gw_metrics (bump_rate_limited g)) = mt_requests (gw_metrics g)"
  "mt_requests (gw_metrics (bump_limit_errors g)) = mt_requests (gw_metrics g)"
  "mt_requests (gw_metrics (bump_upstream_errors g)) = mt_requests (gw_metrics g)"
  "mt_requests (gw_metrics (add_in_flight n g)) = mt_requests (gw_metrics g)"
  "mt_in_flight (gw_metrics (bump_auth_failures g)) = mt_in_flight (gw_metrics g)"
  "mt_in_flight (gw_metrics (bump_rate_limited g)) = mt_in_flight (gw_metrics g)"
  "mt_in_flight (gw_metrics (bump_limit_errors g)) = mt_in_flight (gw_metrics g)"
  "mt_in_flight (gw_metrics (bump_upstream_errors g)) = mt_in_flight (gw_metrics g)"
  "mt_in_flight (gw_metrics (add_in_flight n g)) = wrap64 (mt_in_flight (gw_metrics g) + n)"
  "mt_auth_failures (gw_metrics (bump_auth_failures g)) = mt_auth_failures (gw_metrics g) + 1"
  by (simp_all add: bump_defs add_in_flight_def)

lemma operations_refused_sel:
  assumes "operations_refused sw r ip rid w g = (w', g')"
  shows "same_parts g g' \<and> gw_rate_limits g' = gw_rate_limits g \<and>
    mt_in_flight (gw_metrics g') = mt_in_flight (gw_metrics g) \<and>
    mt_requests (gw_metrics g') = mt_requests (gw_metrics g) + 1 \<and>
    (rw_sent w = None \<longrightarrow> rw_status w' = Some 401)"
  using assms by (auto simp: operations_refused_def Let_def rw_sent_http_error)


subsection \<open>Admission\<close>

text \<open>What the gateway decides about an application request before any provider is involved.\<close>

datatype admission = Unauthenticated | BackendDown | Limited | Admitted client_auth

definition admission ::
  "'r serve_world \<Rightarrow> runtime_snapshot \<Rightarrow> header \<Rightarrow> 'r limiter rate_limit_manager \<Rightarrow> admission" where
  "admission sw state h limits =
     (let (auth, token, ok) = authenticate state h;
          ((d, e), _) = manager_allow (limiter_allow (sw_cmds sw)) (sw_sha256 sw) limits token
                          (ca_rate_limit_rpm auth) (sw_limit sw)
      in if \<not> ok then Unauthenticated
         else if rd_allowed d then Admitted auth
         else if e \<noteq> None then BackendDown
         else Limited)"

fun refusal_status :: "admission \<Rightarrow> int" where
  "refusal_status Unauthenticated = 401"
| "refusal_status BackendDown = 503"
| "refusal_status Limited = 429"
| "refusal_status (Admitted _) = 0"

text \<open>The gateway handed to the proxied exchange of an admitted request.\<close>

definition admitted_gateway ::
  "'r serve_world \<Rightarrow> runtime_snapshot \<Rightarrow> request \<Rightarrow> string \<Rightarrow> string \<Rightarrow> 'r gateway \<Rightarrow> 'r gateway" where
  "admitted_gateway sw state r ip rid g =
     (let (auth, token, _) = authenticate state (rq_header r);
          ((_, e), l) = manager_allow (limiter_allow (sw_cmds sw)) (sw_sha256 sw) (gw_rate_limits g) token
                          (ca_rate_limit_rpm auth) (sw_limit sw);
          g = g\<lparr>gw_rate_limits := l\<rparr>
      in if e = None then g
         else add_log sw (log_entry_of sw r ''warn'' (ca_name auth) ip rid 0
                (''rate limit backend unavailable; fail-open allowed request: '' @ sw_limit_text sw (the e)))
                (bump_limit_errors g))"

lemma admitted_gateway_sel [simp]:
  "same_parts g (admitted_gateway sw state r ip rid g)"
  "mt_in_flight (gw_metrics (admitted_gateway sw state r ip rid g)) = mt_in_flight (gw_metrics g)"
  "mt_requests (gw_metrics (admitted_gateway sw state r ip rid g)) = mt_requests (gw_metrics g)"
  by (simp_all add: admitted_gateway_def Let_def split: prod.split)

text \<open>The log of a gateway, or that log with one more line, of status 0.\<close>

definition log_or_warned :: "gotime \<Rightarrow> log_ring \<Rightarrow> log_ring \<Rightarrow> bool" where
  "log_or_warned clock l l' \<longleftrightarrow> l' = l \<or> (\<exists>e. le_status e = 0 \<and> l' = logring_add clock e l)"

lemma admitted_gateway_logs: "log_or_warned (sw_end sw) (gw_logs g) (gw_logs (admitted_gateway sw state r ip rid g))"
  by (auto simp: admitted_gateway_def log_or_warned_def log_entry_of_def Let_def split: prod.split
      intro!: exI)

lemma serve_client_admitted:
  assumes "admission sw state (rq_header r) (gw_rate_limits g) = Admitted auth"
  shows "serve_client sw state w r ip rid g =
    serve_proxied sw state w r auth ip rid (admitted_gateway sw state r ip rid g)"
  using assms
  by (auto simp: admission_def serve_client_def admitted_gateway_def Let_def split: prod.splits if_splits)

lemma serve_client_refused:
  assumes "admission sw state (rq_header r) (gw_rate_limits g) = v" "\<And>auth. v \<noteq> Admitted auth"
    "serve_client sw state w r ip rid g = (w', g')"
  shows "same_parts g g' \<and> mt_in_flight (gw_metrics g') = mt_in_flight (gw_metrics g) \<and>
    mt_requests (gw_metrics g') = mt_requests (gw_metrics g) + 1 \<and>
    (rw_sent w = None \<longrightarrow> rw_status w' = Some (refusal_status v)) \<and>
    (v = Unauthenticated \<longrightarrow> gw_rate_limits g' = gw_rate_limits g)"
  using assms
  by (auto simp: admission_def serve_client_def Let_def rw_sent_http_error split: prod.splits if_splits)

subsection \<open>The proxied exchange\<close>

lemma providerBegin_sel [simp]:
  "mt_requests (providerBegin n m) = mt_requests m" "mt_in_flight (providerBegin n m) = mt_in_flight m"
  by (simp_all add: providerBegin_def metrics_provider_def put_provider_def Let_def split: option.split)

lemma providerFinish_sel [simp]:
  "mt_requests (providerFinish n st d te clock m) = mt_requests m"
  "mt_in_flight (providerFinish n st d te clock m) = mt_in_flight m"
  by (simp_all add: providerFinish_def metrics_provider_def put_provider_def Let_def split: option.split)

lemma call_over_counters:
  assumes "call_over p t g g'"
  shows "mt_requests (gw_metrics g') = mt_requests (gw_metrics g)"
    "mt_in_flight (gw_metrics g') = mt_in_flight (gw_metrics g)"
  using assms by (auto simp: call_over_def end_call_def Let_def elim!: begin_callE)

lemma add_bytes_counters [simp]:
  "mt_requests (gw_metrics (add_bytes_in n g)) = mt_requests (gw_metrics g)"
  "mt_requests (gw_metrics (add_bytes_out n g)) = mt_requests (gw_metrics g)"
  "mt_in_flight (gw_metrics (add_bytes_in n g)) = mt_in_flight (gw_metrics g)"
  "mt_in_flight (gw_metrics (add_bytes_out n g)) = mt_in_flight (gw_metrics g)"
  by (simp_all add: add_bytes_in_def add_bytes_out_def)

lemma proxy_frame:
  assumes "proxy x state w r client rid g = (out, w', g')"
  shows "mt_requests (gw_metrics g') = mt_requests (gw_metrics g)"
    "mt_in_flight (gw_metrics g') = mt_in_flight (gw_metrics g)"
    "gw_runtime g' = gw_runtime g" "gw_rate_limits g' = gw_rate_limits g" "gw_logs g' = gw_logs g"
    "gw_server g' = gw_server g" "gw_started g' = gw_started g" "length (gw_breakers g') = length (gw_breakers g)"
  using proxy_gateway [OF assms] by (auto simp: call_over_counters call_over_frame)

text \<open>Status codes the HTTP client can return: a final status.\<close>

definition final_replies :: "(upstream_request \<Rightarrow> upstream_result) \<Rightarrow> bool" where
  "final_replies base \<longleftrightarrow> (\<forall>req resp. base req = UpReply resp \<longrightarrow> 200 \<le> us_status resp)"

lemma client_do_status:
  assumes "client_do base inject replayable p t req g = (Inr resp, g')" "final_replies base"
  shows "200 \<le> cr_status resp"
  using assms
  by (auto simp: client_do_def round_trip_def Let_def circuit_open_response_def final_replies_def
      split: prod.splits sum.splits upstream_result.splits option.splits if_splits)

lemma respond_status:
  assumes "respond x p result resp w g = ((result', e), w', g')" "rw_sent w = None" "200 \<le> cr_status resp"
  shows "px_started result' \<and> rw_status w' = Some (px_status result') \<and> px_status result' = cr_status resp"
proof -
  let ?h = "copyResponseHeaders (rw_header w) (cr_header resp)"
  let ?w = "write_header (w\<lparr>rw_header := ?h\<rparr>) (cr_status resp)"
  obtain res w1 b g1 where r: "relay p (pw_call x) ?w (cr_body resp) g = (res, w1, b, g1)" by (metis prod_cases4)
  obtain rest where c: "copyAndFlush conn_write ?w (pb_reads (cr_body resp)) 0 = (res, w1, rest)"
    using r by (metis relayE)
  have "rw_sent ?w = Some (cr_status resp, ?h)"
    using rw_sent_write_header [of "cr_status resp" "w\<lparr>rw_header := ?h\<rparr>"] assms(2,3) by simp
  from copy_sent [OF this c] have "rw_sent w1 = Some (cr_status resp, ?h)" .
  moreover have "w' = w1 \<and> px_started result' \<and> px_status result' = cr_status resp"
    using assms(1) r by (auto simp: respond_def Let_def split: prod.splits)
  ultimately show ?thesis by (simp add: rw_status_def)
qed

text \<open>Either the response has started with the status of the result, or nothing was sent.\<close>

lemma proxy_status:
  assumes "proxy x state w r client rid g = ((result, err), w', g')" "rw_sent w = None"
    "final_replies (pw_base x)"
  shows "200 \<le> px_status result \<and>
    (if px_started result then rw_status w' = Some (px_status result) else err \<noteq> None \<and> w' = w)"
proof -
  have r: "200 \<le> px_status result \<and> px_started result \<and> rw_status w' = Some (px_status result)"
    if "client_do (pw_base x) inj rep p (pw_call x) req g1 = (Inr resp, g2)"
      "respond x p res0 resp w g2 = ((result, err), w', g')" for inj rep p req g1 g2 res0 resp
    using respond_status [OF that(2) assms(2) client_do_status [OF that(1) assms(3)]]
      client_do_status [OF that(1) assms(3)] by simp
  have route: "resolveProvider state path = Inl (st, e) \<Longrightarrow> 200 \<le> st" for st e path
    by (auto simp: resolveProvider_def Let_def split: if_splits option.splits nat.splits)
  show ?thesis
    using assms(1)
    by (auto simp: proxy_def Let_def split: sum.splits prod.splits proxy_error.splits dest: r route)
qed

text \<open>The three ends of a proxied exchange: the client gave up, the provider failed, or neither.\<close>

lemma serve_proxied_cases:
  assumes "serve_proxied sw state w r auth ip rid g = (w', g')"
  obtains result err w1 g1 e where
    "proxy (sw_proxy sw) state w r (ca_name auth) rid (add_in_flight 1 g) = ((result, err), w1, g1)"
    "le_client e = ca_name auth" "le_request_id e = rid" "le_provider e = px_provider result"
    "le_bytes e = px_bytes_out result"
    "(err \<noteq> None \<and> pw_done (sw_proxy sw) \<and> le_status e = 0 \<and> w' = w1 \<and>
        g' = add_in_flight (- 1) (add_log sw e g1)) \<or>
     (err \<noteq> None \<and> \<not> pw_done (sw_proxy sw) \<and> le_status e = (if px_status result = 0 then 502 else px_status result) \<and>
        w' = (if px_started result then w1 else http_error w1 (publicProxyError (le_status e)) (le_status e)) \<and>
        g' = add_in_flight (- 1) (add_log sw e (record_status (le_status e) (bump_upstream_errors g1)))) \<or>
     (err = None \<and> le_status e = px_status result \<and> w' = w1 \<and>
        g' = add_in_flight (- 1) (add_log sw e (record_status (le_status e) g1)))"
proof -
  obtain result err w1 g1 where p:
    "proxy (sw_proxy sw) state w r (ca_name auth) rid (add_in_flight 1 g) = ((result, err), w1, g1)"
    by (metis prod.collapse)
  define entry where "entry level st msg =
    (log_entry_of sw r level (ca_name auth) ip rid st msg)
      \<lparr>le_provider := px_provider result, le_path := rq_uri r, le_bytes := px_bytes_out result\<rparr>" for level st msg
  have entry: "le_client (entry l st m) = ca_name auth" "le_request_id (entry l st m) = rid"
    "le_provider (entry l st m) = px_provider result" "le_bytes (entry l st m) = px_bytes_out result"
    "le_status (entry l st m) = st" for l st m
    by (simp_all add: entry_def log_entry_of_def)
  note eqs = serve_proxied_def p Let_def entry_def [symmetric]
  consider "err \<noteq> None" "pw_done (sw_proxy sw)" | "err \<noteq> None" "\<not> pw_done (sw_proxy sw)" | "err = None" by blast
  then show thesis
  proof cases
    case 1
    with assms show thesis
      by (intro that [OF p entry(1-4), of "''info''" 0 "''client canceled request''"])
         (simp add: eqs entry)
  next
    case 2
    let ?st = "if px_status result = 0 then 502 else px_status result"
    from 2 assms show thesis
      by (intro that [OF p entry(1-4), of "levelForStatus ?st" ?st "sw_proxy_text sw (the err)"])
         (auto simp: eqs entry)
  next
    case 3
    with assms show thesis
      by (intro that [OF p entry(1-4), of "levelForStatus (px_status result)" "px_status result" "''''"])
         (simp add: eqs entry)
  qed
qed

end
