(* ===== verification/Serve_Props.thy ===== *)
theory Serve_Props
  imports Gw_Serve
begin

section \<open>What a served request does\<close>

text \<open>
  Properties of the two handlers: who reaches a provider, how requests are accounted for, how
  the listeners and the trust domains are kept apart, and the wait a limited client is told.
\<close>


subsection \<open>Application requests\<close>

lemma logged_refusal:
  assumes "admission sw state (rq_header r) (gw_rate_limits g) = v" "\<And>auth. v \<noteq> Admitted auth"
    "serve_client sw state w r ip rid g = (w', g')"
  shows "\<exists>e. gw_logs g' = logring_add (sw_end sw) e (gw_logs g) \<and> le_status e = refusal_status v \<and> le_request_id e = rid"
proof -
  have "le_status (log_entry_of sw r level client ip rid st msg) = st \<and>
      le_request_id (log_entry_of sw r level client ip rid st msg) = rid" for level client st msg
    by (simp add: log_entry_of_def)
  with assms show ?thesis
    by (auto simp: admission_def serve_client_def Let_def split: prod.splits if_splits)
       (metis+)
qed

text \<open>An application request: not for the operators, and no bare \<open>OPTIONS\<close>.\<close>

definition application_request :: "request \<Rightarrow> bool" where
  "application_request r \<longleftrightarrow> \<not> isOperationalPath (rq_path r) \<and> rq_method r \<noteq> ''OPTIONS''"

lemma serveHTTP_application:
  assumes "application_request r"
  shows "serveHTTP sw state w r g =
    serve_client sw state
      (set_header w ''X-Request-ID'' (requestID (rq_header r) (sw_random sw) (sw_nano sw))) r
      (resolveClientIP (rt_trusted_proxies (rs_cfg state)) (rq_remote r) (rq_header r))
      (requestID (rq_header r) (sw_random sw) (sw_nano sw)) g"
  using assms by (auto simp: application_request_def isOperationalPath_def serveHTTP_def Let_def)

lemma admission_proxy [simp]: "admission (sw\<lparr>sw_proxy := x\<rparr>) state h l = admission sw state h l"
  by (simp add: admission_def)

lemma serve_client_refused_proxy:
  assumes "admission sw state (rq_header r) (gw_rate_limits g) = v" "\<And>auth. v \<noteq> Admitted auth"
  shows "serve_client (sw\<lparr>sw_proxy := x\<rparr>) state w r ip rid g = serve_client sw state w r ip rid g"
proof -
  have "log_entry_of (sw\<lparr>sw_proxy := x\<rparr>) = log_entry_of sw" "add_log (sw\<lparr>sw_proxy := x\<rparr>) = add_log sw"
    by (auto simp: log_entry_of_def add_log_def fun_eq_iff)
  with assms show ?thesis
    by (auto simp: admission_def serve_client_def Let_def split: prod.splits if_splits)
qed

text \<open>
  C4. Only admitted requests reach a provider. An application request is answered 401, 429 or
  503 when its token is unknown, its quota is used up or the rate-limit backend fails closed;
  it is then counted once, no breaker, no provider counter and no gauge changes, and the
  outcome is the same whatever the network would do. Any other one is handed to the proxy,
  under its client's name.
\<close>

theorem only_admitted_reach_providers:
  assumes "application_request r" and "rw_sent w = None" and "serveHTTP sw state w r g = (w', g')"
  shows "case admission sw state (rq_header r) (gw_rate_limits g) of
      Admitted auth \<Rightarrow> (\<exists>w1 ip rid g1. same_parts g g1 \<and> (w', g') = serve_proxied sw state w1 r auth ip rid g1)
    | v \<Rightarrow> rw_status w' = Some (refusal_status v) \<and> same_parts g g' \<and>
        mt_requests (gw_metrics g') = mt_requests (gw_metrics g) + 1 \<and>
        mt_in_flight (gw_metrics g') = mt_in_flight (gw_metrics g) \<and>
        serveHTTP (sw\<lparr>sw_proxy := x\<rparr>) state w r g = (w', g')"
proof -
  let ?v = "admission sw state (rq_header r) (gw_rate_limits g)"
  let ?rid = "requestID (rq_header r) (sw_random sw) (sw_nano sw)"
  let ?ip = "resolveClientIP (rt_trusted_proxies (rs_cfg state)) (rq_remote r) (rq_header r)"
  let ?w = "set_header w ''X-Request-ID'' ?rid"
  have s: "serve_client sw state ?w r ?ip ?rid g = (w', g')"
    using assms(3) serveHTTP_application [OF assms(1)] by metis
  have x: "serveHTTP (sw\<lparr>sw_proxy := x\<rparr>) state w r g = serve_client (sw\<lparr>sw_proxy := x\<rparr>) state ?w r ?ip ?rid g"
    by (simp add: serveHTTP_application [OF assms(1)])
  show ?thesis
  proof (cases "\<exists>auth. ?v = Admitted auth")
    case True
    then obtain auth where v: "?v = Admitted auth" by blast
    from serve_client_admitted [OF v] s
    have "(w', g') = serve_proxied sw state ?w r auth ?ip ?rid (admitted_gateway sw state r ?ip ?rid g)" by simp
    with v show ?thesis by (auto intro!: exI admitted_gateway_sel(1))
  next
    case False
    with serve_client_refused [OF refl _ s] serve_client_refused_proxy [OF refl, of sw state r g x ?w ?ip ?rid] x s assms(2)
    show ?thesis by (auto split: admission.splits)
  qed
qed

lemma in_flight_balance: "in_i64 n \<Longrightarrow> wrap64 (wrap64 (n + 1) - 1) = n"
  using wrap64_add [of "n + 1" "- 1"] by simp

text \<open>The request counters: all, and the three classes of status.\<close>

definition request_counts :: "'r gateway \<Rightarrow> 64 word \<times> 64 word \<times> 64 word \<times> 64 word" where
  "request_counts g =
     (mt_requests (gw_metrics g), mt_requests2xx (gw_metrics g), mt_requests4xx (gw_metrics g),
      mt_requests5xx (gw_metrics g))"

text \<open>One more request of a status: it counts once in all, and once in its class if it has one.\<close>

definition counted_as :: "int \<Rightarrow> 64 word \<times> 64 word \<times> 64 word \<times> 64 word \<Rightarrow> 64 word \<times> 64 word \<times> 64 word \<times> 64 word" where
  "counted_as status n =
     (let (total, ok, client, server) = n in
      (total + 1, ok + (if status div 100 = 2 then 1 else 0), client + (if status div 100 = 4 then 1 else 0),
       server + (if 5 \<le> status div 100 then 1 else 0)))"

lemma status_class: "(status :: int) div 100 = c \<longleftrightarrow> 100 * c \<le> status \<and> status < 100 * c + 100"
  "5 \<le> status div 100 \<longleftrightarrow> 500 \<le> status"
  by linarith+

lemma request_counts_record [simp]:
  "request_counts (record_status st g) = counted_as st (request_counts g)"
  by (auto simp: request_counts_def counted_as_def record_status_def recordStatus_def status_class Let_def)

lemma request_counts_frame [simp]:
  "request_counts (bump_auth_failures g) = request_counts g" "request_counts (bump_rate_limited g) = request_counts g"
  "request_counts (bump_limit_errors g) = request_counts g" "request_counts (bump_upstream_errors g) = request_counts g"
  "request_counts (add_in_flight n g) = request_counts g" "request_counts (add_log sw e g) = request_counts g"
  "request_counts (add_bytes_in n g) = request_counts g" "request_counts (add_bytes_out n g) = request_counts g"
  "request_counts (g\<lparr>gw_rate_limits := l\<rparr>) = request_counts g"
  by (simp_all add: request_counts_def bump_auth_failures_def bump_rate_limited_def bump_limit_errors_def
      bump_upstream_errors_def add_in_flight_def add_log_def add_bytes_in_def add_bytes_out_def)

lemma request_counts_admitted [simp]: "request_counts (admitted_gateway sw state r ip rid g) = request_counts g"
  by (simp add: admitted_gateway_def Let_def split: prod.split)

lemma provider_counts:
  "request_counts (g\<lparr>gw_metrics := providerBegin n (gw_metrics g)\<rparr>) = request_counts g"
  "request_counts (g\<lparr>gw_metrics := providerFinish n st d te clock (gw_metrics g)\<rparr>) = request_counts g"
  by (simp_all add: request_counts_def providerBegin_def providerFinish_def metrics_provider_def put_provider_def
      Let_def split: option.split)

lemma request_counts_breakers [simp]: "request_counts (g\<lparr>gw_breakers := breakers\<rparr>) = request_counts g"
  by (simp add: request_counts_def)

lemma call_over_counts: "call_over p t g g' \<Longrightarrow> request_counts g' = request_counts g"
proof -
  have b: "begin_call p now g = (r, g1) \<Longrightarrow> request_counts g1 = request_counts g" for now r and g1 :: "'a gateway"
    by (cases r, auto elim!: begin_callE
        simp: request_counts_def providerBegin_def metrics_provider_def put_provider_def Let_def split: option.split)
  have e: "request_counts (end_call p permit t st te failed g1) = request_counts g1" for permit st te failed and g1 :: "'a gateway"
    by (simp add: end_call_def Let_def request_counts_def providerFinish_def metrics_provider_def put_provider_def
        split: option.split)
  show "call_over p t g g' \<Longrightarrow> request_counts g' = request_counts g"
    by (auto simp: call_over_def e dest: b)
qed

lemma proxy_counts: "proxy x state w r client rid g = (out, w', g') \<Longrightarrow> request_counts g' = request_counts g"
  using proxy_gateway [of x state w r client rid g out w' g'] by (auto simp: call_over_counts)

lemma refused_counts:
  assumes "admission sw state (rq_header r) (gw_rate_limits g) = v" "\<And>auth. v \<noteq> Admitted auth"
    "serve_client sw state w r ip rid g = (w', g')"
  shows "request_counts g' = counted_as (refusal_status v) (request_counts g)"
  using assms by (auto simp: admission_def serve_client_def Let_def split: prod.splits if_splits)


lemma limit_retry_exact:
  assumes "0 < d" "d + nanos_second \<le> max_i64"
  shows "limit_retry_seconds d =
    max 1 (d div nanos_second + (if 2 * (d mod nanos_second) < nanos_second then 0 else 1))"
proof -
  have m: "0 < nanos_second" by (simp add: nanos_second_def)
  define q r where "q = d div nanos_second" and "r = d mod nanos_second"
  have d: "d = q * nanos_second + r" "0 \<le> q" "0 \<le> r"
    using assms(1) m by (simp_all add: q_def r_def pos_imp_zdiv_nonneg_iff)
  have "duration_round d nanos_second =
      (if 2 * r < nanos_second then d - r else d + nanos_second - r)"
    using duration_round_exact [of d nanos_second] assms m by (simp add: r_def [symmetric])
  with d(1) have round: "duration_round d nanos_second =
      (q + (if 2 * r < nanos_second then 0 else 1)) * nanos_second"
    by (simp add: algebra_simps)
  have "x * nanos_second sdiv nanos_second = x" if "0 \<le> x" for x
    using that m by (simp add: sdiv_nonneg)
  with d(2) show ?thesis
    unfolding limit_retry_seconds_def round by (simp add: q_def r_def)
qed

lemma operations_refused_proxy [simp]:
  "operations_refused (sw\<lparr>sw_proxy := x\<rparr>) r ip rid w g = operations_refused sw r ip rid w g"
proof -
  have "log_entry_of (sw\<lparr>sw_proxy := x\<rparr>) = log_entry_of sw" "add_log (sw\<lparr>sw_proxy := x\<rparr>) = add_log sw"
    by (auto simp: log_entry_of_def add_log_def fun_eq_iff)
  then show ?thesis by (simp add: operations_refused_def)
qed

lemma admission_unauthenticated:
  "admission sw state h l = Unauthenticated \<longleftrightarrow> \<not> snd (snd (authenticate state h))"
  by (auto simp: admission_def split: prod.splits)

lemma operations_endpoint_proxy [simp]:
  "operations_endpoint (sw\<lparr>sw_proxy := x\<rparr>) state path w g = operations_endpoint sw state path w g"
  by (simp add: operations_endpoint_def Let_def)

text \<open>
  C11. Split listeners keep the two kinds of traffic apart. Whatever is sent to the operations
  listener, no breaker, provider counter, gauge or quota changes and the network is never
  consulted, and a path that is not operational is 404; and once isolation is installed, the
  application handler answers every operational path with 404 and changes nothing.
\<close>

theorem listeners_isolated:
  assumes "rw_sent w = None" and "serveOperationsListenerHTTP sw w r g = (w', g')"
    and "application_handler sw w r (isolateOperationsEndpoints g) = (w2, g2)"
  shows "same_parts g g' \<and> gw_rate_limits g' = gw_rate_limits g \<and>
    mt_in_flight (gw_metrics g') = mt_in_flight (gw_metrics g) \<and>
    serveOperationsListenerHTTP (sw\<lparr>sw_proxy := x\<rparr>) w r g = (w', g') \<and>
    (if isOperationalPath (rq_path r)
     then rw_status w2 = Some 404 \<and> g2 = isolateOperationsEndpoints g
     else rw_status w' = Some 404 \<and> g' = g \<and> (w2, g2) = ServeHTTP sw w r (isolateOperationsEndpoints g))"
proof -
  have "same_parts g g' \<and> gw_rate_limits g' = gw_rate_limits g \<and>
      mt_in_flight (gw_metrics g') = mt_in_flight (gw_metrics g)"
    using assms(2) by (auto simp: serveOperationsListenerHTTP_def Let_def split: if_splits dest: operations_refused_sel)
  moreover have "serveOperationsListenerHTTP (sw\<lparr>sw_proxy := x\<rparr>) w r g = serveOperationsListenerHTTP sw w r g"
    by (simp add: serveOperationsListenerHTTP_def Let_def)
  moreover have "\<not> isOperationalPath (rq_path r) \<Longrightarrow> rw_status w' = Some 404 \<and> g' = g"
    using assms(1,2)
    by (auto simp: serveOperationsListenerHTTP_def Let_def http_not_found_def rw_sent_http_error)
  moreover have "isOperationalPath (rq_path r) \<Longrightarrow> rw_status w2 = Some 404 \<and> g2 = isolateOperationsEndpoints g"
    "\<not> isOperationalPath (rq_path r) \<Longrightarrow> (w2, g2) = ServeHTTP sw w r (isolateOperationsEndpoints g)"
    using assms(1,3)
    by (auto simp: application_handler_def isolateOperationsEndpoints_def http_not_found_def rw_sent_http_error)
  ultimately show ?thesis using assms(2) by simp
qed

text \<open>The operational endpoints that need a token: all four, less the health ones made public.\<close>

definition protected_endpoint :: "config_runtime \<Rightarrow> string \<Rightarrow> bool" where
  "protected_endpoint rt path \<longleftrightarrow>
     path = ''/_metrics'' \<or> path = ''/_config'' \<or>
     ((path = ''/_healthz'' \<or> path = ''/_readyz'') \<and> \<not> sv_public_health (cf_server (rt_config rt)))"

text \<open>
  C9. A token of one trust domain opens nothing in the other. With a dedicated operations token
  configured, a request that carries a client's token gets 401 from every operational endpoint
  that is not public, on the application's listener and on the operations listener, and one
  that carries the operations token gets 401 from the application, without its quota being
  touched.
\<close>

theorem wrong_domain_refused:
  assumes "load decode getenv fs path = Inr rt" and "op_token (cf_operations (rt_config rt)) \<noteq> ''''"
    and "rq_method r \<noteq> ''OPTIONS''" and "rw_sent w = None" and "gw_runtime g = snapshot_of rt a"
    and "serveHTTP sw (gw_runtime g) w r g = (w', g')" and "serveOperationsListenerHTTP sw w r g = (w2, g2)"
    and "if protected_endpoint rt (rq_path r) then snd (snd (authenticate (gw_runtime g) (rq_header r)))
         else \<not> isOperationalPath (rq_path r) \<and> operationsAuthorized (gw_runtime g) (rq_header r)"
  shows "rw_status w' = Some 401 \<and> same_parts g g' \<and> gw_rate_limits g' = gw_rate_limits g \<and>
    (protected_endpoint rt (rq_path r) \<longrightarrow>
       rw_status w2 = Some 401 \<and> same_parts g g2 \<and> gw_rate_limits g2 = gw_rate_limits g)"
proof -
  let ?s = "snapshot_of rt a"
  have apart: "\<not> (operationsAuthorized ?s (rq_header r) \<and> snd (snd (authenticate ?s (rq_header r))))"
  proof
    assume both: "operationsAuthorized ?s (rq_header r) \<and> snd (snd (authenticate ?s (rq_header r)))"
    then have "bearerToken (rq_header r) = op_token (cf_operations (rt_config rt))"
      using operationsAuthorized_iff [of ?s] assms(2) by simp
    with authenticated_enabled [OF assms(1)] both operations_token_apart [OF assms(1,2)] show False by metis
  qed
  show ?thesis
  proof (cases "protected_endpoint rt (rq_path r)")
    case True
    then have p: "isOperationalPath (rq_path r)" "\<not> operationsAuthorized ?s (rq_header r)"
      using assms(5,8) apart by (auto simp: isOperationalPath_def protected_endpoint_def)
    have open_paths: "\<not> (rq_path r = ''/_healthz'' \<and> sv_public_health (cf_server (rt_config rt)))"
      "\<not> (rq_path r = ''/_readyz'' \<and> sv_public_health (cf_server (rt_config rt)))"
      using True by (auto simp: protected_endpoint_def)
    have "\<exists>ip rid. operations_refused sw r ip rid (set_header w ''X-Request-ID'' rid) g = (w', g')"
      using assms(3,6) p open_paths by (auto simp: assms(5) serveHTTP_def Let_def)
    moreover have "\<exists>ip rid. operations_refused sw r ip rid (set_header w ''X-Request-ID'' rid) g = (w2, g2)"
      using assms(3,7) p open_paths by (auto simp: assms(5) serveOperationsListenerHTTP_def Let_def)
    ultimately show ?thesis using operations_refused_sel assms(4) rw_sent_set_header by metis
  next
    case False
    then have "application_request r" "\<not> snd (snd (authenticate ?s (rq_header r)))"
      using assms(3,5,8) apart by (auto simp: application_request_def)
    moreover from this(2) have "admission sw ?s (rq_header r) (gw_rate_limits g) = Unauthenticated"
      by (simp add: admission_unauthenticated)
    ultimately show ?thesis
      using False assms(4,6) serve_client_refused [of sw ?s r g Unauthenticated]
      by (auto simp: serveHTTP_application assms(5))
  qed
qed


text \<open>The seconds of the hint against the wait: nearest, but never below one.\<close>

lemma limit_retry_bounds:
  assumes "0 < d" and "d + nanos_second \<le> max_i64"
  shows "1 \<le> limit_retry_seconds d \<and>
    2 * d \<le> 2 * (limit_retry_seconds d * nanos_second) + nanos_second \<and>
    (if 2 * d < nanos_second then limit_retry_seconds d = 1
     else 2 * (limit_retry_seconds d * nanos_second) \<le> 2 * d + nanos_second) \<and>
    (limit_retry_seconds d * nanos_second < d \<longleftrightarrow>
       nanos_second < d \<and> 0 < d mod nanos_second \<and> 2 * (d mod nanos_second) < nanos_second)"
proof -
  have m: "0 < nanos_second" by (simp add: nanos_second_def)
  define q r where "q = d div nanos_second" and "r = d mod nanos_second"
  have d: "d = q * nanos_second + r" "0 \<le> q" "0 \<le> r" "r < nanos_second"
    using assms(1) m by (simp_all add: q_def r_def pos_imp_zdiv_nonneg_iff)
  have s: "limit_retry_seconds d = max 1 (q + (if 2 * r < nanos_second then 0 else 1))"
    using limit_retry_exact [OF assms] by (simp add: q_def r_def)
  consider "q = 0" "2 * r < nanos_second" | "1 \<le> q" "2 * r < nanos_second" | "\<not> 2 * r < nanos_second"
    using d(2) by linarith
  then show ?thesis
  proof cases
    case 1
    with s d m show ?thesis by (simp add: r_def [symmetric])
  next
    case 2
    then have "nanos_second \<le> q * nanos_second" using m by simp
    then have whole: "0 < r \<longleftrightarrow> nanos_second < q * nanos_second + r \<and> 0 < r"
      "nanos_second \<le> q * nanos_second + r"
      using d(3,4) m by linarith+
    have "nanos_second < 2 * x" if "nanos_second \<le> x" for x using that m by linarith
    from this [OF whole(2)] have "\<not> 2 * (q * nanos_second + r) < nanos_second" by simp
    with whole 2 s d m show ?thesis by (auto simp: r_def [symmetric])
  next
    case 3
    have "0 \<le> q * nanos_second" using d(2) m by simp
    with 3 d(1) have "\<not> 2 * (q * nanos_second + r) < nanos_second" by simp
    with 3 s d m show ?thesis by (auto simp: r_def [symmetric] distrib_right)
  qed
qed

text \<open>
  C24. What a limited client is told: 429 with a \<open>Retry-After\<close> in whole seconds. It is the wait
  \<open>d\<close> the backend asked for, rounded: at least a second, one second when the wait is under half
  a second, and otherwise at most half a second off, to either side; it comes too early exactly
  when the wait is over a second and its part beyond whole seconds is positive and below one half.
\<close>

theorem retry_hint_half_second:
  assumes "application_request r" and "rw_sent w = None" and "serveHTTP sw state w r g = (w', g')"
    and "authenticate state (rq_header r) = (auth, token, True)"
    and "manager_allow (limiter_allow (sw_cmds sw)) (sw_sha256 sw) (gw_rate_limits g) token
           (ca_rate_limit_rpm auth) (sw_limit sw) = ((\<lparr>rd_allowed = False, rd_retry_after = d, rd_degraded = deg\<rparr>, None), l)"
    and "0 < d" and "d + nanos_second \<le> max_i64"
  shows "\<exists>h s. rw_sent w' = Some (429, h) \<and> header_get h ''Retry-After'' = itoa s \<and> 1 \<le> s \<and>
    2 * d \<le> 2 * (s * nanos_second) + nanos_second \<and>
    (if 2 * d < nanos_second then s = 1 else 2 * (s * nanos_second) \<le> 2 * d + nanos_second) \<and>
    (s * nanos_second < d \<longleftrightarrow>
       nanos_second < d \<and> 0 < d mod nanos_second \<and> 2 * (d mod nanos_second) < nanos_second)"
proof -
  have k: "canonical_key ''Retry-After'' \<noteq> canonical_key ''X-Content-Type-Options''"
    "canonical_key ''Retry-After'' \<noteq> canonical_key ''Content-Type''"
    "canonical_key ''Retry-After'' \<noteq> canonical_key ''Content-Length''" by code_simp+
  have "w' = http_error (set_header (set_header w ''X-Request-ID'' (requestID (rq_header r) (sw_random sw) (sw_nano sw)))
      ''Retry-After'' (itoa (limit_retry_seconds d))) ''client rate limit exceeded'' 429"
    using assms(3-6) serveHTTP_application [OF assms(1), of sw state w g]
    by (simp add: serve_client_def Let_def)
  then have "\<exists>h. rw_sent w' = Some (429, h) \<and> header_get h ''Retry-After'' = itoa (limit_retry_seconds d)"
    using k assms(2)
    by (auto simp: http_error_def write_body_def conn_write_def write_header_def set_header_def Let_def)
  with limit_retry_bounds [OF assms(6,7)] show ?thesis by blast
qed

subsection \<open>The properties at work\<close>

definition sample_cmds :: "unit redis_cmds" where
  "sample_cmds = \<lparr>rc_time = (\<lambda>_. (0, 0)), rc_zremrangebyscore = (\<lambda>r _ _. r), rc_zcard = (\<lambda>_ _. 0),
     rc_zfirst = (\<lambda>_ _. None), rc_zadd = (\<lambda>r _ _ _. r), rc_pexpire = (\<lambda>r _ _. r)\<rparr>"

definition sample_world :: "(upstream_request \<Rightarrow> upstream_result) \<Rightarrow> unit serve_world" where
  "sample_world base =
     \<lparr>sw_start = 1, sw_random = Some ''abcdef'', sw_nano = 7, sw_limit = 2, sw_end = 3,
      sw_proxy = \<lparr>pw_base = base, pw_inject = id, pw_call = sample_call, pw_copy_done = False, pw_done = False,
        pw_copy_canceled = False\<rparr>,
      sw_cmds = sample_cmds, sw_sha256 = id, sw_rendering = sample_rendering,
      sw_proxy_text = (\<lambda>_. ''proxy error''), sw_limit_text = (\<lambda>_. ''limit error'')\<rparr>"

abbreviation refusing_world :: "unit serve_world" where
  "refusing_world \<equiv> sample_world (\<lambda>_. UpFailed ''refused'')"

lemma sample_application [simp]: "application_request (sample_request h b)"
  by (simp add: application_request_def sample_request_def isOperationalPath_def)

lemma sample_writer [simp]: "rw_sent (new_writer n) = None"
  by (simp add: new_writer_def)

lemma sample_unauthenticated:
  "admission sw state (rq_header (sample_request [] None)) l = Unauthenticated"
proof -
  have "bearerToken [] = ''''" by code_simp
  then show ?thesis
    by (simp add: admission_unauthenticated authenticate_def sample_request_def Let_def)
qed

theorem only_admitted_reach_providers_witness:
  "\<exists>w' g'. serveHTTP refusing_world (sample_state 0) (new_writer 9) (sample_request [] None) (sample_gw tripped)
      = (w', g') \<and> rw_status w' = Some 401 \<and> mt_requests (gw_metrics g') = 1"
proof -
  obtain w' g' where r: "serveHTTP refusing_world (sample_state 0) (new_writer 9) (sample_request [] None)
      (sample_gw tripped) = (w', g')" by (metis prod.collapse)
  from only_admitted_reach_providers [OF sample_application sample_writer r]
  have "rw_status w' = Some 401 \<and> mt_requests (gw_metrics g') = mt_requests (gw_metrics (sample_gw tripped)) + 1"
    by (simp add: sample_unauthenticated)
  with r show ?thesis by (simp add: sample_gw_def newMetrics_def)
qed


theorem listeners_isolated_witness:
  "\<exists>w' g'. serveOperationsListenerHTTP refusing_world (new_writer 9) (sample_request [] None) (sample_gw tripped)
      = (w', g') \<and> rw_status w' = Some 404 \<and> g' = sample_gw tripped"
proof -
  obtain w' g' w2 g2 where r:
    "serveOperationsListenerHTTP refusing_world (new_writer 9) (sample_request [] None) (sample_gw tripped) = (w', g')"
    "application_handler refusing_world (new_writer 9) (sample_request [] None)
      (isolateOperationsEndpoints (sample_gw tripped)) = (w2, g2)"
    by (metis prod.collapse)
  have "\<not> isOperationalPath (rq_path (sample_request [] None))"
    by (simp add: sample_request_def isOperationalPath_def)
  with listeners_isolated [OF sample_writer r] r(1) show ?thesis by auto
qed

theorem wrong_domain_refused_witness:
  "\<exists>rt w' g'. load (\<lambda>_. Some sample_config2) (\<lambda>_. '''') (\<lambda>_. Some ''x'') sample_path = Inr rt \<and>
     serveHTTP refusing_world (snapshot_of rt 0) (new_writer 9)
       (sample_request [(''Authorization'', [''Bearer ops''])] None)
       ((sample_gw tripped)\<lparr>gw_runtime := snapshot_of rt 0\<rparr>) = (w', g') \<and>
     rw_status w' = Some 401"
proof -
  let ?r = "sample_request [(''Authorization'', [''Bearer ops''])] None"
  obtain rt where rt: "load (\<lambda>_. Some sample_config2) (\<lambda>_. '''') (\<lambda>_. Some ''x'') sample_path = Inr rt"
    "op_token (cf_operations (rt_config rt)) = ''ops''" by (rule sample_reload)
  have "bearerToken [(''Authorization'', [''Bearer ops''])] = ''ops''" by code_simp
  with rt(2) have ops: "operationsAuthorized (snapshot_of rt 0) (rq_header ?r)"
    by (simp add: operationsAuthorized_iff sample_request_def)
  let ?g = "(sample_gw tripped)\<lparr>gw_runtime := snapshot_of rt 0\<rparr>"
  obtain w' g' w2 g2 where r: "serveHTTP refusing_world (gw_runtime ?g) (new_writer 9) ?r ?g = (w', g')"
    "serveOperationsListenerHTTP refusing_world (new_writer 9) ?r ?g = (w2, g2)"
    by (metis prod.collapse)
  have "if protected_endpoint rt (rq_path ?r) then snd (snd (authenticate (gw_runtime ?g) (rq_header ?r)))
      else \<not> isOperationalPath (rq_path ?r) \<and> operationsAuthorized (gw_runtime ?g) (rq_header ?r)"
    using ops by (simp add: sample_request_def isOperationalPath_def protected_endpoint_def)
  from wrong_domain_refused [OF rt(1) _ _ sample_writer _ r this, of 0] rt(2)
  have "rw_status w' = Some 401" by (simp add: sample_request_def)
  with rt(1) r(1) show ?thesis by auto
qed

text \<open>A client of one request a minute whose window is full: 1.4 seconds to go, told one.\<close>

definition limited_gw :: "unit gateway" where
  "limited_gw = (sample_gw tripped)
     \<lparr>gw_rate_limits := snd (manager_allow (limiter_allow sample_cmds) id
        (gw_rate_limits (sample_gw tripped)) ''t1'' 1 0)\<rparr>"

definition limited_state :: runtime_snapshot where
  "limited_state = (sample_state 0)\<lparr>rs_tokens := [(''t1'', \<lparr>ca_name = ''app'', ca_rate_limit_rpm = 1\<rparr>)]\<rparr>"

theorem retry_hint_half_second_witness:
  "\<exists>w' g' h. serveHTTP (refusing_world\<lparr>sw_limit := 58600000000\<rparr>) limited_state (new_writer 9)
      (sample_request [(''Authorization'', [''Bearer t1''])] None) limited_gw = (w', g') \<and>
    rw_sent w' = Some (429, h)"
proof -
  let ?sw = "refusing_world\<lparr>sw_limit := 58600000000\<rparr>" and ?r = "sample_request [(''Authorization'', [''Bearer t1''])] None"
  obtain w' g' where r: "serveHTTP ?sw limited_state (new_writer 9) ?r limited_gw = (w', g')" by (metis prod.collapse)
  have a: "authenticate limited_state (rq_header ?r) = (\<lparr>ca_name = ''app'', ca_rate_limit_rpm = 1\<rparr>, ''t1'', True)"
    by code_simp
  obtain l where "manager_allow (limiter_allow (sw_cmds ?sw)) (sw_sha256 ?sw) (gw_rate_limits limited_gw) ''t1'' 1 (sw_limit ?sw) =
      ((\<lparr>rd_allowed = False, rd_retry_after = 1400000000, rd_degraded = False\<rparr>, None), l)"
  proof -
    have "fst (manager_allow (limiter_allow (sw_cmds ?sw)) (sw_sha256 ?sw) (gw_rate_limits limited_gw) ''t1'' 1 (sw_limit ?sw)) =
      (\<lparr>rd_allowed = False, rd_retry_after = 1400000000, rd_degraded = False\<rparr>, None)" by code_simp
    with that show thesis by (metis prod.collapse)
  qed
  from retry_hint_half_second [OF sample_application sample_writer r a, of 1400000000] this r
  show ?thesis by (auto simp: nanos_second_def max_i64_def)
qed


end
