(* ===== verification/Gw_Tracing.thy ===== *)
theory Gw_Tracing
  imports Serve_Props
begin

section \<open>Spans (gateway/tracing.go, provider_metrics_transport.go, telemetry/telemetry.go)\<close>

text \<open>
  What the gateway tells OpenTelemetry about a request and about the provider call in it. A span
  is its start and the calls made on it, in order. The handlers' calls are functions beside the
  handlers of \<open>Gw_Serve\<close>, of the same arguments; the lemmas tie what a span says to what the
  handler did. How a remote parent is read from the headers is the propagator's (an argument),
  and so is the exporter behind \<open>Setup\<close>.
\<close>


subsection \<open>Spans\<close>

datatype span_value = SpanString string | SpanInt int

type_synonym span_attributes = "(string \<times> span_value) list"

datatype span_op = SetAttributes span_attributes | SetStatusError string | SpanEnd

datatype span_kind = SpanServer | SpanClient

datatype span_parent = RemoteParent "string option" | RequestSpan

record span =
  sn_name :: string
  sn_kind :: span_kind
  sn_parent :: span_parent
  sn_start :: span_attributes
  sn_ops :: "span_op list"

text \<open>What an exporter reads off the calls: the last value of an attribute, and the status.\<close>

fun op_attributes :: "span_op \<Rightarrow> span_attributes" where
  "op_attributes (SetAttributes kvs) = kvs"
| "op_attributes _ = []"

definition ops_attr :: "span_op list \<Rightarrow> string \<Rightarrow> span_value option" where
  "ops_attr ops k = map_of (rev (concat (map op_attributes ops))) k"

fun is_error :: "span_op \<Rightarrow> bool" where
  "is_error (SetStatusError _) \<longleftrightarrow> True"
| "is_error _ \<longleftrightarrow> False"

definition ops_failed :: "span_op list \<Rightarrow> bool" where
  "ops_failed ops \<longleftrightarrow> list_ex is_error ops"

named_theorems span_reads \<open>how attributes and status are read off a list of calls\<close>

lemma ops_attr_Nil [span_reads]: "ops_attr [] k = None"
  by (simp add: ops_attr_def)

lemma ops_attr_append [span_reads]:
  "ops_attr (xs @ ys) k = (case ops_attr ys k of None \<Rightarrow> ops_attr xs k | Some v \<Rightarrow> Some v)"
  by (simp add: ops_attr_def map_add_def split: option.split)

lemma ops_attr_Cons [span_reads]:
  "ops_attr (x # ys) k =
     (case ops_attr ys k of None \<Rightarrow> map_of (rev (op_attributes x)) k | Some v \<Rightarrow> Some v)"
  by (simp add: ops_attr_def map_add_def split: option.split)

lemma ops_failed_simps [span_reads]:
  "ops_failed [] \<longleftrightarrow> False" "ops_failed (x # ys) \<longleftrightarrow> is_error x \<or> ops_failed ys"
  "ops_failed (xs @ ys) \<longleftrightarrow> ops_failed xs \<or> ops_failed ys"
  by (simp_all add: ops_failed_def)


subsection \<open>The request span (tracing.go)\<close>

definition startGatewaySpan :: "(header \<Rightarrow> string option) \<Rightarrow> request \<Rightarrow> span" where
  "startGatewaySpan extract r =
     \<lparr>sn_name = ''gemgate.request'', sn_kind = SpanServer, sn_parent = RemoteParent (extract (rq_header r)),
      sn_start = [(''http.request.method'', SpanString (rq_method r)), (''url.path'', SpanString (rq_path r))],
      sn_ops = []\<rparr>"

definition traceRequestID :: "string \<Rightarrow> span_op list" where
  "traceRequestID rid = [SetAttributes [(''gemgate.request_id'', SpanString rid)]]"

definition traceAuth :: "string \<Rightarrow> string \<Rightarrow> span_op list" where
  "traceAuth domain client =
     [SetAttributes ((''gemgate.auth.domain'', SpanString domain) #
        (if client \<noteq> '''' then [(''gemgate.client.name'', SpanString client)] else []))]"

definition traceRateLimit :: "string \<Rightarrow> i64 \<Rightarrow> span_op list" where
  "traceRateLimit backend rpm =
     [SetAttributes [(''gemgate.rate_limit.backend'', SpanString backend), (''gemgate.rate_limit.rpm'', SpanInt rpm)]]"

definition traceProxyResult :: "proxy_result \<Rightarrow> proxy_error option \<Rightarrow> bool \<Rightarrow> span_op list" where
  "traceProxyResult result err clientAborted =
     (if px_provider result \<noteq> ''''
      then [SetAttributes [(''gemgate.provider'', SpanString (px_provider result))]] else []) @
     (if 0 < px_bytes_out result
      then [SetAttributes [(''http.response.body.size'', SpanInt (px_bytes_out result))]] else []) @
     (if 0 < px_status result
      then [SetAttributes [(''http.response.status_code'', SpanInt (px_status result))]] else []) @
     (if clientAborted then [SetAttributes [(''gemgate.outcome'', SpanString ''client_cancelled'')]]
      else if err \<noteq> None
      then [SetAttributes [(''gemgate.outcome'', SpanString ''provider_error'')],
            SetStatusError ''provider request failed'']
      else if 500 \<le> px_status result then [SetStatusError ''server error''] else [])"

definition traceHTTPStatus :: "int \<Rightarrow> span_op list" where
  "traceHTTPStatus status =
     SetAttributes [(''http.response.status_code'', SpanInt status)] #
     (if 500 \<le> status then [SetStatusError ''server error''] else [])"

lemmas trace_defs = traceRequestID_def traceAuth_def traceRateLimit_def traceHTTPStatus_def


subsection \<open>The handlers' calls (gateway.go, operations_listener.go)\<close>

definition operations_trace :: "string \<Rightarrow> span_op list" where
  "operations_trace path =
     traceAuth ''operations'' '''' @
     (if path = ''/_metrics'' \<or> path = ''/_config'' then traceHTTPStatus 200 else [])"

definition proxied_trace ::
  "'r serve_world \<Rightarrow> runtime_snapshot \<Rightarrow> response_writer \<Rightarrow> request \<Rightarrow> client_auth \<Rightarrow> string \<Rightarrow>
   'r gateway \<Rightarrow> span_op list" where
  "proxied_trace sw state w r auth reqID g =
     (let ((result, err), _, _) = proxy (sw_proxy sw) state w r (ca_name auth) reqID (add_in_flight 1 g);
          clientAborted = (err \<noteq> None \<and> pw_done (sw_proxy sw));
          result = (if err \<noteq> None \<and> \<not> clientAborted \<and> px_status result = 0
                    then result\<lparr>px_status := 502\<rparr> else result)
      in traceProxyResult result err clientAborted)"

definition client_trace ::
  "'r serve_world \<Rightarrow> runtime_snapshot \<Rightarrow> response_writer \<Rightarrow> request \<Rightarrow> string \<Rightarrow> string \<Rightarrow> 'r gateway \<Rightarrow>
   span_op list" where
  "client_trace sw state w r clientIP reqID g =
     (let (auth, token, ok) = authenticate state (rq_header r) in
      if \<not> ok then traceAuth ''application'' '''' @ traceHTTPStatus 401
      else traceAuth ''application'' (ca_name auth) @
        traceRateLimit (limiter_name (mgr_backend (gw_rate_limits g))) (ca_rate_limit_rpm auth) @
        (let ((decision, limitErr), limits) = manager_allow (limiter_allow (sw_cmds sw)) (sw_sha256 sw)
               (gw_rate_limits g) token (ca_rate_limit_rpm auth) (sw_limit sw)
         in if limitErr \<noteq> None \<and> \<not> rd_allowed decision then traceHTTPStatus 503
            else if \<not> rd_allowed decision then traceHTTPStatus 429
            else proxied_trace sw state w r auth reqID (admitted_gateway sw state r clientIP reqID g)))"

definition serve_trace ::
  "'r serve_world \<Rightarrow> runtime_snapshot \<Rightarrow> response_writer \<Rightarrow> request \<Rightarrow> 'r gateway \<Rightarrow> span_op list" where
  "serve_trace sw state w r g =
     (let reqID = requestID (rq_header r) (sw_random sw) (sw_nano sw);
          clientIP = resolveClientIP (rt_trusted_proxies (rs_cfg state)) (rq_remote r) (rq_header r);
          w = set_header w ''X-Request-ID'' reqID;
          public = sv_public_health (cf_server (rt_config (rs_cfg state)))
      in traceRequestID reqID @
         (if rq_path r = ''/_healthz'' \<and> public then traceAuth ''public_operations'' ''''
          else if rq_path r = ''/_readyz'' \<and> public then traceAuth ''public_operations'' ''''
          else if rq_method r = ''OPTIONS'' then traceHTTPStatus 204
          else if isOperationalPath (rq_path r) then
            (if \<not> operationsAuthorized state (rq_header r)
             then traceAuth ''operations'' '''' @ traceHTTPStatus 401
             else operations_trace (rq_path r))
          else client_trace sw state w r clientIP reqID g))"

text \<open>\<open>defer span.End()\<close> runs last on every way out, also when CORS answered.\<close>

definition ServeHTTP_span ::
  "(header \<Rightarrow> string option) \<Rightarrow> 'r serve_world \<Rightarrow> response_writer \<Rightarrow> request \<Rightarrow> 'r gateway \<Rightarrow> span" where
  "ServeHTTP_span extract sw w r g =
     (let state = gw_runtime g; (handled, w) = cors_handle (rs_cors state) w r
      in (startGatewaySpan extract r)
           \<lparr>sn_ops := (if handled then [] else serve_trace sw state w r g) @ [SpanEnd]\<rparr>)"

definition operations_listener_span ::
  "(header \<Rightarrow> string option) \<Rightarrow> 'r serve_world \<Rightarrow> request \<Rightarrow> 'r gateway \<Rightarrow> span" where
  "operations_listener_span extract sw r g =
     (let state = gw_runtime g;
          reqID = requestID (rq_header r) (sw_random sw) (sw_nano sw);
          public = sv_public_health (cf_server (rt_config (rs_cfg state)))
      in (startGatewaySpan extract r)
           \<lparr>sn_ops := traceRequestID reqID @
              (if \<not> isOperationalPath (rq_path r) then traceHTTPStatus 404
               else if rq_path r = ''/_healthz'' \<and> public then traceAuth ''public_operations'' ''''
               else if rq_path r = ''/_readyz'' \<and> public then traceAuth ''public_operations'' ''''
               else if rq_method r = ''OPTIONS'' then traceHTTPStatus 204
               else if \<not> operationsAuthorized state (rq_header r)
               then traceAuth ''operations'' '''' @ traceHTTPStatus 401
               else operations_trace (rq_path r)) @ [SpanEnd]\<rparr>)"


subsection \<open>The provider span (provider_metrics_transport.go)\<close>

text \<open>\<open>URL.Hostname\<close> of \<open>net/url\<close>: the host without its port and without brackets.\<close>

definition url_hostname :: "url \<Rightarrow> string" where
  "url_hostname u =
     (let h = (case split_last CHR '':'' (url_host u) of
                 Some (pre, port) \<Rightarrow> if valid_optional_port (CHR '':'' # port) then pre else url_host u
               | None \<Rightarrow> url_host u)
      in if h \<noteq> [] \<and> hd h = CHR ''['' \<and> last h = CHR '']'' then butlast (tl h) else h)"

definition provider_span_start :: "provider_runtime \<Rightarrow> upstream_request \<Rightarrow> span" where
  "provider_span_start p req =
     \<lparr>sn_name = ''gemgate.provider'', sn_kind = SpanClient, sn_parent = RequestSpan,
      sn_start = [(''gemgate.provider'', SpanString (pr_name p)),
        (''http.request.method'', SpanString (ur_method req)),
        (''server.address'', SpanString (url_hostname (ur_url req)))],
      sn_ops = []\<rparr>"

definition failed_call_trace :: "call_world \<Rightarrow> span_op list" where
  "failed_call_trace t =
     (if \<not> cw_aborted t
      then [SetAttributes [(''gemgate.outcome'', SpanString ''transport_error'')],
            SetStatusError ''provider transport error'']
      else [SetAttributes [(''gemgate.outcome'', SpanString ''client_cancelled'')]]) @ [SpanEnd]"

definition bodyless_trace :: "int \<Rightarrow> span_op list" where
  "bodyless_trace status =
     (if 500 \<le> status then [SetStatusError ''provider server error''] else []) @ [SpanEnd]"

definition round_trip_span ::
  "(upstream_request \<Rightarrow> upstream_result) \<Rightarrow> (header \<Rightarrow> header) \<Rightarrow> provider_runtime \<Rightarrow> call_world \<Rightarrow>
   upstream_request \<Rightarrow> 'r gateway \<Rightarrow> span option" where
  "round_trip_span base inject p t req g =
     (let ((permit, allowed, retryAfter), g) = begin_call p (cw_permit t) g in
      if \<not> allowed then None
      else
        (let span = provider_span_start p req;
             req = (if pr_propagate p then req\<lparr>ur_header := inject (ur_header req)\<rparr> else req)
         in Some (span\<lparr>sn_ops :=
              (case base req of
                 UpFailed err \<Rightarrow> failed_call_trace t
               | UpReply resp \<Rightarrow>
                   SetAttributes [(''http.response.status_code'', SpanInt (us_status resp))] #
                   (case us_body resp of
                      None \<Rightarrow> bodyless_trace (us_status resp)
                    | Some body \<Rightarrow> []))\<rparr>)))"

text \<open>The calls of the \<open>done\<close> callback, of \<open>finish\<close>, and of reads and closes of the body.\<close>

definition body_done_trace :: "call_world \<Rightarrow> int \<Rightarrow> bool \<Rightarrow> span_op list" where
  "body_done_trace t status bodyErr =
     (if bodyErr \<and> \<not> cw_aborted t
      then [SetAttributes [(''gemgate.outcome'', SpanString ''stream_error'')], SetStatusError ''provider stream error'']
      else if bodyErr then [SetAttributes [(''gemgate.outcome'', SpanString ''client_cancelled'')]]
      else if 500 \<le> status then [SetStatusError ''provider server error'']
      else [SetAttributes [(''gemgate.outcome'', SpanString ''completed'')]]) @ [SpanEnd]"

definition body_finish_trace :: "call_world \<Rightarrow> bool \<Rightarrow> provider_body \<Rightarrow> span_op list" where
  "body_finish_trace t err b =
     (case pb_call b of
        None \<Rightarrow> []
      | Some (permit, status) \<Rightarrow> if pb_once b then [] else body_done_trace t status err)"

definition body_read_trace :: "call_world \<Rightarrow> provider_body \<Rightarrow> span_op list" where
  "body_read_trace t b =
     (case pb_reads b of
        [] \<Rightarrow> []
      | (chunk, status) # reads \<Rightarrow>
          (case status of
             ReadMore \<Rightarrow> []
           | ReadEOF \<Rightarrow> body_finish_trace t False b
           | ReadFailed \<Rightarrow> body_finish_trace t True b))"

fun body_reads_trace ::
  "nat \<Rightarrow> provider_runtime \<Rightarrow> call_world \<Rightarrow> provider_body \<times> 'r gateway \<Rightarrow> span_op list" where
  "body_reads_trace 0 p t st = []"
| "body_reads_trace (Suc n) p t st =
     body_read_trace t (fst st) @ body_reads_trace n p t (snd (body_read p t st))"

fun body_closes_trace ::
  "nat \<Rightarrow> provider_runtime \<Rightarrow> call_world \<Rightarrow> provider_body \<times> 'r gateway \<Rightarrow> span_op list" where
  "body_closes_trace 0 p t st = []"
| "body_closes_trace (Suc n) p t st =
     body_finish_trace t (pb_close_fails (fst st)) (fst st) @ body_closes_trace n p t (body_close p t st)"


text \<open>The spans of \<open>client.Do\<close>, of the response and of the whole proxied exchange.\<close>

definition client_do_span ::
  "(upstream_request \<Rightarrow> upstream_result) \<Rightarrow> (header \<Rightarrow> header) \<Rightarrow> bool \<Rightarrow> provider_runtime \<Rightarrow>
   call_world \<Rightarrow> upstream_request \<Rightarrow> 'r gateway \<Rightarrow> span option" where
  "client_do_span base inject replayable p t req g =
     map_option (\<lambda>span.
       (case round_trip base inject p t req g of
          (Inl err, g) \<Rightarrow> span
        | (Inr resp, g) \<Rightarrow>
            (if bad_redirect replayable resp
             then span\<lparr>sn_ops := sn_ops span @ body_closes_trace 1 p t (cr_body resp, g)\<rparr> else span)))
       (round_trip_span base inject p t req g)"

definition respond_trace ::
  "proxy_world \<Rightarrow> provider_runtime \<Rightarrow> client_response \<Rightarrow> response_writer \<Rightarrow> 'r gateway \<Rightarrow> span_op list" where
  "respond_trace x p resp w g =
     (let w = w\<lparr>rw_header := copyResponseHeaders (rw_header w) (cr_header resp)\<rparr>;
          w = write_header w (cr_status resp);
          b = cr_body resp;
          (res, w, rest) = copyAndFlush conn_write w (pb_reads b) 0;
          n = length (pb_reads b) - length rest
      in body_reads_trace n p (pw_call x) (b, g) @
         body_closes_trace 1 p (pw_call x) (body_reads_n n p (pw_call x) (b, g)))"

definition proxy_span ::
  "proxy_world \<Rightarrow> runtime_snapshot \<Rightarrow> response_writer \<Rightarrow> request \<Rightarrow> string \<Rightarrow> string \<Rightarrow> 'r gateway \<Rightarrow>
   span option" where
  "proxy_span x state w r clientName reqID g =
     (case resolveProvider state (rq_path r) of
        Inl _ \<Rightarrow> None
      | Inr (p, targetPath) \<Rightarrow>
          (case prepareBody state r of
             Inl _ \<Rightarrow> None
           | Inr (body, contentLength) \<Rightarrow>
               (let g = add_bytes_in contentLength g in
                case build_upstream state r p targetPath body contentLength clientName reqID of
                  Inl _ \<Rightarrow> None
                | Inr req \<Rightarrow>
                    (let replayable = (0 < rt_body_limit (rs_cfg state) \<or> body = None) in
                     map_option (\<lambda>span.
                       (case client_do (pw_base x) (pw_inject x) replayable p (pw_call x) req g of
                          (Inl err, g) \<Rightarrow> span
                        | (Inr resp, g) \<Rightarrow> span\<lparr>sn_ops := sn_ops span @ respond_trace x p resp w g\<rparr>))
                       (client_do_span (pw_base x) (pw_inject x) replayable p (pw_call x) req g)))))"


subsection \<open>What a provider span says of its call\<close>

definition span_outcome :: "span_op list \<Rightarrow> string option" where
  "span_outcome ops =
     (case ops_attr ops ''gemgate.outcome'' of Some (SpanString v) \<Rightarrow> Some v | _ \<Rightarrow> None)"

definition span_status :: "span_op list \<Rightarrow> int option" where
  "span_status ops =
     (case ops_attr ops ''http.response.status_code'' of Some (SpanInt n) \<Rightarrow> Some n | _ \<Rightarrow> None)"

definition ended_once :: "span_op list \<Rightarrow> bool" where
  "ended_once ops \<longleftrightarrow> ops \<noteq> [] \<and> last ops = SpanEnd \<and> SpanEnd \<notin> set (butlast ops)"

text \<open>
  A finished span against the books of its call: the status, the transport error and the failure
  of the circuit that were booked. A cancelled call is no error of the span, whatever its status.
\<close>

definition span_books :: "span_op list \<Rightarrow> int \<Rightarrow> bool \<Rightarrow> bool \<Rightarrow> bool" where
  "span_books ops status te failed \<longleftrightarrow>
     ended_once ops \<and> (span_status ops = Some status \<or> span_status ops = None \<and> status = 0) \<and>
     (te \<longleftrightarrow> span_outcome ops \<in> {Some ''transport_error'', Some ''stream_error''}) \<and>
     (ops_failed ops \<longleftrightarrow> failed \<and> span_outcome ops \<noteq> Some ''client_cancelled'')"

lemmas span_books_simps = span_books_def ended_once_def span_status_def span_outcome_def span_reads

lemma body_done_books:
  "span_books (SetAttributes [(''http.response.status_code'', SpanInt status)] # body_done_trace t status err)
     status (err \<and> \<not> cw_aborted t) ((err \<and> \<not> cw_aborted t) \<or> 500 \<le> status)"
  by (simp add: body_done_trace_def span_books_simps)

lemma failed_call_books:
  "span_books (failed_call_trace t) 0 (\<not> cw_aborted t) (\<not> cw_aborted t)"
  by (simp add: failed_call_trace_def span_books_simps)

lemma bodyless_books:
  "span_books (SetAttributes [(''http.response.status_code'', SpanInt status)] # bodyless_trace status)
     status False (500 \<le> status)"
  by (simp add: bodyless_trace_def span_books_simps)

lemma body_finish_trace_once [simp]: "pb_once b \<Longrightarrow> body_finish_trace t err b = []"
  by (auto simp: body_finish_trace_def split: option.split)

lemma body_closes_trace_once [simp]: "pb_once b \<Longrightarrow> body_closes_trace n p t (b, g) = []"
  by (induction n) simp_all

lemma body_reads_trace_empty: "pb_reads b = [] \<Longrightarrow> body_reads_trace n p t (b, g) = []"
  by (induction n) (simp_all add: body_read_trace_def body_read_def)

lemma body_reads_trace_stream:
  assumes "pb_call b = Some (permit, status)" "\<not> pb_once b"
    "pb_reads b = map (\<lambda>c. (c, ReadMore)) cs @ [(c0, e)]" "e \<noteq> ReadMore"
  shows "body_reads_trace n p t (b, g) =
    (if n \<le> length cs then [] else body_done_trace t status (e = ReadFailed))"
  using assms
proof (induction cs arbitrary: b n)
  case Nil
  then show ?case
  proof (cases n)
    case (Suc k)
    have "snd (body_read p t (b, g)) =
        (b\<lparr>pb_reads := [], pb_once := True\<rparr>, body_done p t (permit, status) (e = ReadFailed) g)"
      using Nil by (cases e) (simp_all add: body_read_def body_finish_first)
    then show ?thesis
      using Nil Suc by (cases e) (simp_all add: body_read_trace_def body_finish_trace_def body_reads_trace_empty)
  qed simp
next
  case (Cons c cs)
  then show ?case
  proof (cases n)
    case (Suc k)
    let ?b = "b\<lparr>pb_reads := map (\<lambda>c. (c, ReadMore)) cs @ [(c0, e)]\<rparr>"
    have "snd (body_read p t (b, g)) = (?b, g)" using Cons.prems by (simp add: body_read_def)
    moreover have "body_read_trace t b = []" using Cons.prems by (simp add: body_read_trace_def)
    ultimately show ?thesis using Cons.IH [of ?b k] Cons.prems by (simp add: Suc)
  qed simp
qed

text \<open>However many reads and closes a body sees, its call closes the span once, with its books.\<close>

lemma span_closes_once:
  "body_reads_trace n p t (open_body body permit status, g) @
     body_closes_trace (Suc m) p t (body_reads_n n p t (open_body body permit status, g)) =
   body_done_trace t status (if n < length (body_reads body) then ub_close_fails body else ub_fails body)"
proof -
  let ?b = "open_body body permit status"
  have ne: "(if ub_fails body then ReadFailed else ReadEOF) \<noteq> ReadMore" by simp
  have fails: "((if ub_fails body then ReadFailed else ReadEOF) = ReadFailed) = ub_fails body" by simp
  have b: "pb_call ?b = Some (permit, status)" "\<not> pb_once ?b" "pb_close_fails ?b = ub_close_fails body"
    "pb_reads ?b = map (\<lambda>c. (c, ReadMore)) (ub_chunks body) @
       [(ub_last body, if ub_fails body then ReadFailed else ReadEOF)]"
    by (simp_all add: open_body_def body_reads_def)
  obtain reads where r: "body_reads_n n p t (?b, g) =
    (if n \<le> length (ub_chunks body) then (?b\<lparr>pb_reads := reads\<rparr>, g)
     else (?b\<lparr>pb_reads := reads, pb_once := True\<rparr>, body_done p t (permit, status) (ub_fails body) g))"
    using body_reads_n_stream [OF b(1,2,4) ne, of n p t g] unfolding fails by blast
  show ?thesis
  proof (cases "n \<le> length (ub_chunks body)")
    case True
    then show ?thesis
      using r b by (simp add: body_reads_trace_stream [OF b(1,2,4) ne] body_finish_trace_def body_close_first
          body_reads_def)
  next
    case False
    then show ?thesis
      using r by (simp add: body_reads_trace_stream [OF b(1,2,4) ne] body_reads_def)
  qed
qed


text \<open>The ends of a client call with its span: refused, over, or open until its body is.\<close>

lemma client_do_span_cases:
  assumes "client_do base inject replayable p t req g = (res, g')"
  obtains
    (refused) permit d where "begin_call p (cw_permit t) g = ((permit, False, d), g')"
      "client_do_span base inject replayable p t req g = None" "res = Inr (circuit_open_response d)"
  | (over) permit d g1 status te failed span where "begin_call p (cw_permit t) g = ((permit, True, d), g1)"
      "client_do_span base inject replayable p t req g = Some span"
      "g' = end_call p permit t status te failed g1" "span_books (sn_ops span) status te failed"
      "\<And>resp. res = Inr resp \<Longrightarrow> cr_body resp = no_body"
  | (open_call) permit d resp body span where "begin_call p (cw_permit t) g = ((permit, True, d), g')"
      "client_do_span base inject replayable p t req g = Some span"
      "sn_ops span = [SetAttributes [(''http.response.status_code'', SpanInt (cr_status resp))]]"
      "res = Inr resp" "cr_body resp = open_body body permit (cr_status resp)"
proof -
  obtain permit ok d g1 where b: "begin_call p (cw_permit t) g = ((permit, ok, d), g1)"
    by (metis prod.collapse)
  let ?req = "if pr_propagate p then req\<lparr>ur_header := inject (ur_header req)\<rparr> else req"
  note defs = client_do_def client_do_span_def round_trip_def round_trip_span_def Let_def
  show thesis
  proof (cases ok)
    case False
    then show thesis
      using refused [of permit d] b assms
      by (simp add: defs bad_redirect_def circuit_open_response_def)
  next
    case True
    have begun: "begin_call p (cw_permit t) g = ((permit, True, d), g1)" using b True by simp
    show thesis
    proof (cases "base ?req")
      case (UpFailed err)
      with assms begun show thesis
        by (intro over [OF begun, of _ 0 "\<not> cw_aborted t" "\<not> cw_aborted t"])
           (auto simp: defs failed_call_books)
    next
      case (UpReply resp)
      show thesis
      proof (cases "us_body resp")
        case None
        from assms begun UpReply None show thesis
          by (intro over [OF begun, of _ "us_status resp" False "500 \<le> us_status resp"])
             (auto simp: defs bodyless_books body_finish_trace_def no_body_def body_close_def body_finish_def
                split: if_splits)
      next
        case (Some body)
        let ?resp = "\<lparr>cr_status = us_status resp, cr_header = us_header resp,
          cr_body = open_body body permit (us_status resp)\<rparr>"
        let ?open = "(provider_span_start p req)
          \<lparr>sn_ops := [SetAttributes [(''http.response.status_code'', SpanInt (us_status resp))]]\<rparr>"
        have rt: "round_trip base inject p t req g = (Inr ?resp, g1)"
          "round_trip_span base inject p t req g = Some ?open"
          using begun UpReply Some by (simp_all add: round_trip_def round_trip_span_def Let_def open_body_def)
        show thesis
        proof (cases "bad_redirect replayable ?resp")
          case True
          let ?err = "ub_close_fails body"
          have "body_finish_trace t ?err (open_body body permit (us_status resp)) =
              body_done_trace t (us_status resp) ?err" "pb_close_fails (open_body body permit (us_status resp)) = ?err"
            by (simp_all add: body_finish_trace_def open_body_def)
          with assms rt True body_done_books [of "us_status resp" t ?err] show thesis
            by (intro over [OF begun, of _ "us_status resp" "?err \<and> \<not> cw_aborted t"
                  "(?err \<and> \<not> cw_aborted t) \<or> 500 \<le> us_status resp"])
               (auto simp: client_do_def client_do_span_def body_close_open body_done_def Let_def)
        next
          case False
          with assms rt begun show thesis
            by (intro open_call [of permit d _ ?resp body]) (auto simp: client_do_def client_do_span_def)
        qed
      qed
    qed
  qed
qed


lemma body_close_bytes_out:
  "snd (body_close p t (b, add_bytes_out m g)) = add_bytes_out m (snd (body_close p t (b, g)))"
  by (simp add: body_close_def body_finish_def body_done_bytes_out split: option.split)

lemma respond_trace_none:
  assumes "pb_call (cr_body resp) = None"
  shows "respond_trace x p resp w g = []"
proof -
  have step: "body_read_trace t b = []" "pb_call (fst (snd (body_read p t (b, g)))) = None"
    if "pb_call b = None" for t b and g :: "'a gateway"
    using that by (auto simp: body_read_trace_def body_finish_trace_def body_read_def body_finish_def Let_def
        split: list.split read_result.split)
  have "body_reads_trace n p t (b, g) = []" if "pb_call b = None" for n t b and g :: "'a gateway"
    using that
  proof (induction n arbitrary: b g)
    case (Suc n)
    then show ?case
      using step(1) [of b t] step(2) [of b t g] by (cases "snd (body_read p t (b, g))") simp
  qed simp
  moreover have "pb_call (fst (body_reads_n n p (pw_call x) (cr_body resp, g))) = None" for n
    using body_reads_n_none [OF assms] by blast
  ultimately show ?thesis using assms
    by (simp add: respond_trace_def Let_def body_finish_trace_def split: prod.split)
qed

lemma respond_books:
  assumes "respond x p result resp w g = (out, w', g')" "cr_body resp = open_body body permit status"
  shows "\<exists>m err. g' = add_bytes_out m (body_done p (pw_call x) (permit, status) err g) \<and>
    respond_trace x p resp w g = body_done_trace (pw_call x) status err"
proof -
  let ?t = "pw_call x"
  let ?w = "write_header (w\<lparr>rw_header := copyResponseHeaders (rw_header w) (cr_header resp)\<rparr>) (cr_status resp)"
  let ?b = "open_body body permit status"
  obtain res w1 rest where c: "copyAndFlush conn_write ?w (pb_reads ?b) 0 = (res, w1, rest)" by (metis prod_cases3)
  define n where "n = length (pb_reads ?b) - length rest"
  define err where "err = (if n < length (body_reads body) then ub_close_fails body else ub_fails body)"
  obtain res' w2 b g1 m where r: "relay p ?t ?w (cr_body resp) g = (res', w2, b, g1)"
    "g' = snd (body_close p ?t (b, add_bytes_out m g1))"
    by (rule respond_gateway [OF assms(1)])
  have "(b, g1) = body_reads_n n p ?t (?b, g)"
    using r(1) c by (auto simp: relay_def assms(2) n_def split: prod.splits)
  then have "snd (body_close p ?t (b, g1)) = body_done p ?t (permit, status) err g"
    using completes_once [where body = body and permit = permit and status = status and n = n and p = p and t = ?t
        and m = 0 and g = g]
    by (simp add: open_body_def err_def body_done_def Let_def)
  then have "g' = add_bytes_out m (body_done p ?t (permit, status) err g)"
    by (simp add: r(2) body_close_bytes_out)
  moreover have "respond_trace x p resp w g = body_done_trace ?t status err"
    using c span_closes_once [where n = n and p = p and t = ?t and body = body and permit = permit
        and status = status and g = g and m = 0]
    by (simp add: respond_trace_def assms(2) Let_def n_def err_def)
  ultimately show ?thesis by blast
qed


subsection \<open>Properties of the provider span\<close>

text \<open>
  C28. A provider span tells the books of its call. When a proxied request leaves a span, its call
  was admitted by the breaker and is over; the span was ended once, after everything else, its
  status is the one booked, its outcome names a transport or stream error exactly when the
  metrics count one, and it is in error exactly when the breaker was told of a failure, unless
  the client gave up. When it leaves none, no call was made: no provider counter changed.
\<close>

theorem provider_span_tells_books:
  assumes "proxy x state w r client rid g = (out, w', g')"
  shows "case proxy_span x state w r client rid g of
      None \<Rightarrow> mt_providers (gw_metrics g') = mt_providers (gw_metrics g)
    | Some s \<Rightarrow>
        (\<exists>p permit d g1 status te failed n m.
           begin_call p (cw_permit (pw_call x)) (add_bytes_in n g) = ((permit, True, d), g1) \<and>
           g' = add_bytes_out m (end_call p permit (pw_call x) status te failed g1) \<and>
           span_books (sn_ops s) status te failed)"
proof (cases "\<exists>p target body len req. resolveProvider state (rq_path r) = Inr (p, target) \<and>
    prepareBody state r = Inr (body, len) \<and> build_upstream state r p target body len client rid = Inr req")
  case False
  then have "proxy_span x state w r client rid g = None" "mt_providers (gw_metrics g') = mt_providers (gw_metrics g)"
    using assms by (auto simp: proxy_def proxy_span_def Let_def add_bytes_in_def split: sum.splits prod.splits)
  then show ?thesis by simp
next
  case True
  then obtain p target body len req where ok: "resolveProvider state (rq_path r) = Inr (p, target)"
    "prepareBody state r = Inr (body, len)" "build_upstream state r p target body len client rid = Inr req"
    by blast
  let ?t = "pw_call x" and ?g = "add_bytes_in len g"
  let ?rep = "0 < rt_body_limit (rs_cfg state) \<or> body = None"
  obtain res g1 where c: "client_do (pw_base x) (pw_inject x) ?rep p ?t req ?g = (res, g1)"
    by (metis prod.collapse)
  have span: "proxy_span x state w r client rid g = map_option (\<lambda>span.
      (case res of Inl _ \<Rightarrow> span | Inr resp \<Rightarrow> span\<lparr>sn_ops := sn_ops span @ respond_trace x p resp w g1\<rparr>))
      (client_do_span (pw_base x) (pw_inject x) ?rep p ?t req ?g)"
    using ok c by (simp add: proxy_span_def Let_def split: sum.split)
  have res: "case res of Inl _ \<Rightarrow> g' = g1
    | Inr resp \<Rightarrow> respond x p \<lparr>px_status = 0, px_bytes_out = 0, px_started = False, px_provider = pr_name p\<rparr>
        resp w g1 = (out, w', g')"
    using assms ok c by (auto simp: proxy_def Let_def split: sum.splits)
  have idle: "\<exists>m. g' = add_bytes_out m g1 \<and> respond_trace x p resp w g1 = []"
    if "res = Inr resp" "pb_call (cr_body resp) = None" for resp
  proof -
    have "respond x p \<lparr>px_status = 0, px_bytes_out = 0, px_started = False, px_provider = pr_name p\<rparr>
        resp w g1 = (out, w', g')" using res that(1) by simp
    from respond_gateway [OF this] relay_none that(2) respond_trace_none [OF that(2)] show ?thesis by metis
  qed
  show ?thesis
    using c
  proof (cases rule: client_do_span_cases)
    case (refused permit d)
    have "mt_providers (gw_metrics g1) = mt_providers (gw_metrics g)"
      using refused(1) by (auto elim!: begin_callE simp: add_bytes_in_def)
    moreover obtain m where "g' = add_bytes_out m g1"
      using idle [OF refused(3)] by (auto simp: circuit_open_response_def)
    ultimately show ?thesis by (simp add: span refused(2) add_bytes_out_def)
  next
    case (over permit d g0 status te failed s)
    have "\<exists>m. g' = add_bytes_out m g1 \<and> proxy_span x state w r client rid g = Some s"
    proof (cases res)
      case (Inl e)
      with res over show ?thesis by (intro exI [of _ 0]) (simp add: span)
    next
      case (Inr resp)
      with idle [OF Inr] over(5) [OF Inr] over(2) show ?thesis by (auto simp: span no_body_def)
    qed
    with over show ?thesis by fastforce
  next
    case (open_call permit d resp bd s)
    obtain m err where e: "g' = add_bytes_out m (body_done p ?t (permit, cr_status resp) err g1)"
      "respond_trace x p resp w g1 = body_done_trace ?t (cr_status resp) err"
      using respond_books [OF _ open_call(5)] res open_call(4) by fastforce
    let ?te = "err \<and> \<not> cw_aborted ?t"
    have "span_books (sn_ops s @ respond_trace x p resp w g1) (cr_status resp) ?te (?te \<or> 500 \<le> cr_status resp)"
      using body_done_books [of "cr_status resp" ?t err] by (simp add: open_call(3) e(2))
    with open_call(1,2,4) e(1) show ?thesis
      by (auto simp: span body_done_def Let_def intro!: exI)
  qed
qed


subsection \<open>Properties of the request span\<close>

lemma traceProxyResult_reads:
  "ops_attr (traceProxyResult result err aborted) ''http.response.status_code'' =
     (if 0 < px_status result then Some (SpanInt (px_status result)) else None)"
  "ops_attr (traceProxyResult result err aborted) ''gemgate.outcome'' =
     (if aborted then Some (SpanString ''client_cancelled'')
      else if err \<noteq> None then Some (SpanString ''provider_error'') else None)"
  "ops_failed (traceProxyResult result err aborted) \<longleftrightarrow> \<not> aborted \<and> (err \<noteq> None \<or> 500 \<le> px_status result)"
  "span_status (traceProxyResult result err aborted) =
     (if 0 < px_status result then Some (px_status result) else None)"
  "span_outcome (traceProxyResult result err aborted) =
     (if aborted then Some ''client_cancelled'' else if err \<noteq> None then Some ''provider_error'' else None)"
  by (simp_all add: traceProxyResult_def span_status_def span_outcome_def span_reads)

lemma trace_reads [simp]:
  "ops_attr (traceRequestID rid) ''http.response.status_code'' = None" "ops_attr (traceRequestID rid) ''gemgate.outcome'' = None"
  "ops_attr (traceAuth d c) ''http.response.status_code'' = None" "ops_attr (traceAuth d c) ''gemgate.outcome'' = None"
  "ops_attr (traceRateLimit b n) ''http.response.status_code'' = None" "ops_attr (traceRateLimit b n) ''gemgate.outcome'' = None"
  "ops_attr (traceHTTPStatus st) ''http.response.status_code'' = Some (SpanInt st)" "ops_attr (traceHTTPStatus st) ''gemgate.outcome'' = None"
  "\<not> ops_failed (traceRequestID rid)" "\<not> ops_failed (traceAuth d c)" "\<not> ops_failed (traceRateLimit b n)"
  "ops_failed (traceHTTPStatus st) \<longleftrightarrow> 500 \<le> st"
  "span_status (traceHTTPStatus st) = Some st" "span_outcome (traceHTTPStatus st) = None"
  by (simp_all add: trace_defs span_status_def span_outcome_def span_reads)

text \<open>Calls that say nothing of the response yet.\<close>

definition says_nothing :: "span_op list \<Rightarrow> bool" where
  "says_nothing ops \<longleftrightarrow>
     ops_attr ops ''http.response.status_code'' = None \<and> ops_attr ops ''gemgate.outcome'' = None \<and> \<not> ops_failed ops"

lemma says_nothing_append [simp]: "says_nothing xs \<Longrightarrow> says_nothing ys \<Longrightarrow> says_nothing (xs @ ys)"
  by (simp add: says_nothing_def span_reads)

lemma says_nothing_trace [simp]:
  "says_nothing (traceRequestID rid)" "says_nothing (traceAuth d c)" "says_nothing (traceRateLimit b n)"
  by (simp_all add: says_nothing_def)

lemma says_nothing_before:
  assumes "says_nothing pre"
  shows "span_status (pre @ ops) = span_status ops" "span_outcome (pre @ ops) = span_outcome ops"
    "ops_failed (pre @ ops) = ops_failed ops"
  using assms by (simp_all add: says_nothing_def span_status_def span_outcome_def span_reads split: option.split)

text \<open>The calls of an application request, by what admission decided.\<close>

lemma serve_trace_application:
  assumes "application_request r"
  shows "\<exists>pre. says_nothing pre \<and>
    serve_trace sw state w r g = pre @
      (case admission sw state (rq_header r) (gw_rate_limits g) of
         Admitted auth \<Rightarrow>
           proxied_trace sw state
             (set_header w ''X-Request-ID'' (requestID (rq_header r) (sw_random sw) (sw_nano sw))) r auth
             (requestID (rq_header r) (sw_random sw) (sw_nano sw))
             (admitted_gateway sw state r
                (resolveClientIP (rt_trusted_proxies (rs_cfg state)) (rq_remote r) (rq_header r))
                (requestID (rq_header r) (sw_random sw) (sw_nano sw)) g)
       | v \<Rightarrow> traceHTTPStatus (refusal_status v))"
proof -
  obtain auth token ok where a: "authenticate state (rq_header r) = (auth, token, ok)" by (metis prod_cases3)
  let ?rid = "requestID (rq_header r) (sw_random sw) (sw_nano sw)"
  let ?id = "if ok
    then traceAuth ''application'' (ca_name auth) @
      traceRateLimit (limiter_name (mgr_backend (gw_rate_limits g))) (ca_rate_limit_rpm auth)
    else traceAuth ''application'' ''''"
  have "serve_trace sw state w r g = (traceRequestID ?rid @ ?id) @
      (case admission sw state (rq_header r) (gw_rate_limits g) of
         Admitted auth \<Rightarrow>
           proxied_trace sw state (set_header w ''X-Request-ID'' ?rid) r auth ?rid
             (admitted_gateway sw state r
                (resolveClientIP (rt_trusted_proxies (rs_cfg state)) (rq_remote r) (rq_header r)) ?rid g)
       | v \<Rightarrow> traceHTTPStatus (refusal_status v))"
    using assms
    by (auto simp: application_request_def isOperationalPath_def serve_trace_def client_trace_def admission_def a
        Let_def split: prod.split)
  moreover have "says_nothing (traceRequestID ?rid @ ?id)" by simp
  ultimately show ?thesis by blast
qed

text \<open>The counter of failed exchanges, across a request.\<close>

abbreviation upstream_errors :: "'r gateway \<Rightarrow> 64 word" where
  "upstream_errors g \<equiv> mt_upstream_errors (gw_metrics g)"

lemma recordStatus_errors [simp]: "mt_upstream_errors (recordStatus st m) = mt_upstream_errors m"
  by (simp add: recordStatus_def Let_def)

lemma upstream_errors_frame [simp]:
  "upstream_errors (bump_auth_failures g) = upstream_errors g" "upstream_errors (bump_rate_limited g) = upstream_errors g"
  "upstream_errors (bump_limit_errors g) = upstream_errors g" "upstream_errors (bump_upstream_errors g) = upstream_errors g + 1"
  "upstream_errors (add_in_flight n g) = upstream_errors g" "upstream_errors (add_log sw e g) = upstream_errors g"
  "upstream_errors (add_bytes_in n g) = upstream_errors g" "upstream_errors (add_bytes_out n g) = upstream_errors g"
  "upstream_errors (record_status st g) = upstream_errors g"
  by (simp_all add: bump_auth_failures_def bump_rate_limited_def bump_limit_errors_def bump_upstream_errors_def
      add_in_flight_def add_log_def add_bytes_in_def add_bytes_out_def record_status_def recordStatus_def Let_def)

lemma call_over_errors: "call_over p t g g' \<Longrightarrow> upstream_errors g' = upstream_errors g"
proof -
  note m = providerBegin_def providerFinish_def metrics_provider_def put_provider_def Let_def
  have b: "begin_call p now g = (r, g1) \<Longrightarrow> upstream_errors g1 = upstream_errors g" for now r and g1 :: "'a gateway"
    by (cases r, auto elim!: begin_callE simp: m split: option.split)
  have e: "upstream_errors (end_call p permit t st te failed g1) = upstream_errors g1" for permit st te failed and g1 :: "'a gateway"
    by (simp add: end_call_def m split: option.split)
  show "call_over p t g g' \<Longrightarrow> upstream_errors g' = upstream_errors g"
    by (auto simp: call_over_def e dest: b)
qed

lemma proxy_errors: "proxy x state w r client rid g = (out, w', g') \<Longrightarrow> upstream_errors g' = upstream_errors g"
  using proxy_gateway [of x state w r client rid g out w' g'] by (auto simp: call_over_errors)

lemma admitted_errors [simp]: "upstream_errors (admitted_gateway sw state r ip rid g) = upstream_errors g"
  by (simp add: admitted_gateway_def Let_def split: prod.split)

lemma refused_errors:
  assumes "admission sw state (rq_header r) (gw_rate_limits g) = v" "\<And>auth. v \<noteq> Admitted auth"
    "serve_client sw state w r ip rid g = (w', g')"
  shows "upstream_errors g' = upstream_errors g"
  using assms by (auto simp: admission_def serve_client_def Let_def split: prod.splits if_splits)

lemma counted_differs [simp]: "counted_as st n \<noteq> n"
  by (cases n) (simp add: counted_as_def)

text \<open>
  C29. A request span tells what the gateway booked. For an application request the span says
  \<open>client_cancelled\<close> exactly when the request was given up and not counted, and is then no error;
  otherwise the status it records is the one the client was sent and the counters were told, and
  it is in error exactly when that is 500 or more or the exchange was counted as an upstream
  error, which is when its outcome says \<open>provider_error\<close>.
\<close>

theorem span_tells_response:
  assumes "application_request r" and "rw_sent w = None" and "final_replies (pw_base (sw_proxy sw))"
    and "serveHTTP sw state w r g = (w', g')"
  shows "let ops = serve_trace sw state w r g in
    (span_outcome ops = Some ''client_cancelled'' \<longleftrightarrow> request_counts g' = request_counts g) \<and>
    (span_outcome ops = Some ''provider_error'' \<longleftrightarrow> upstream_errors g' \<noteq> upstream_errors g) \<and>
    upstream_errors g' \<in> {upstream_errors g, upstream_errors g + 1} \<and>
    (if request_counts g' = request_counts g then pw_done (sw_proxy sw) \<and> \<not> ops_failed ops
     else \<exists>status. span_status ops = Some status \<and> rw_status w' = Some status \<and>
       request_counts g' = counted_as status (request_counts g) \<and>
       (ops_failed ops \<longleftrightarrow> 500 \<le> status \<or> upstream_errors g' \<noteq> upstream_errors g))"
proof -
  let ?rid = "requestID (rq_header r) (sw_random sw) (sw_nano sw)"
  let ?ip = "resolveClientIP (rt_trusted_proxies (rs_cfg state)) (rq_remote r) (rq_header r)"
  let ?w = "set_header w ''X-Request-ID'' ?rid"
  let ?v = "admission sw state (rq_header r) (gw_rate_limits g)"
  let ?g = "admitted_gateway sw state r ?ip ?rid g"
  have s: "serve_client sw state ?w r ?ip ?rid g = (w', g')"
    using assms(4) serveHTTP_application [OF assms(1)] by metis
  obtain pre where pre: "says_nothing pre" and
    ops: "serve_trace sw state w r g = pre @ (case ?v of
        Admitted auth \<Rightarrow> proxied_trace sw state ?w r auth ?rid ?g | v \<Rightarrow> traceHTTPStatus (refusal_status v))"
    using serve_trace_application [OF assms(1)] by blast
  show ?thesis
  proof (cases "\<exists>auth. ?v = Admitted auth")
    case True
    then obtain auth where v: "?v = Admitted auth" by blast
    then have "serve_proxied sw state ?w r auth ?ip ?rid ?g = (w', g')" using serve_client_admitted [OF v] s by simp
    then show ?thesis
    proof (cases rule: serve_proxied_cases)
      case (1 result err w1 g1 e)
      from proxy_status [OF 1(1) _ assms(3)] assms(2)
      have st: "200 \<le> px_status result"
        "if px_started result then rw_status w1 = Some (px_status result) else err \<noteq> None \<and> w1 = ?w" by simp_all
      let ?aborted = "err \<noteq> None \<and> pw_done (sw_proxy sw)"
      have t: "serve_trace sw state w r g = pre @ traceProxyResult result err ?aborted"
        using st(1) by (simp add: ops v proxied_trace_def 1(1) Let_def)
      have sent: "\<not> ?aborted \<Longrightarrow> rw_status w' = Some (px_status result)"
        using st 1(6) assms(2) by (auto simp: rw_sent_http_error split: if_splits)
      have counts: "request_counts g' = (if ?aborted then request_counts g else counted_as (px_status result) (request_counts g))"
        using st(1) 1(6) proxy_counts [OF 1(1)] by auto
      have errors: "upstream_errors g' = (if err \<noteq> None \<and> \<not> ?aborted then upstream_errors g + 1 else upstream_errors g)"
        using 1(6) proxy_errors [OF 1(1)] by auto
      show ?thesis
        using st(1) sent
        by (auto simp: t Let_def counts errors says_nothing_before [OF pre] traceProxyResult_reads)
    qed
  next
    case False
    have "rw_status w' = Some (refusal_status ?v)"
      using serve_client_refused [OF refl _ s] False assms(2) by auto
    moreover have "serve_trace sw state w r g = pre @ traceHTTPStatus (refusal_status ?v)"
      using False by (auto simp: ops split: admission.split)
    moreover have "request_counts g' = counted_as (refusal_status ?v) (request_counts g)" "upstream_errors g' = upstream_errors g"
      using refused_counts [OF refl _ s] refused_errors [OF refl _ s] False by blast+
    ultimately show ?thesis
      by (simp add: Let_def says_nothing_before [OF pre])
  qed
qed


text \<open>
  What a span may show: the method, the path, the request ID, the names the operator configured
  and the gateway's own words. Nothing else of a request (its query, its body, its headers) and
  no token or key is in any attribute or status.
\<close>

definition span_words :: "string set" where
  "span_words = {''public_operations'', ''operations'', ''application'', ''client_cancelled'', ''provider_error'',
     ''provider request failed'', ''server error''}"

definition configured_names :: "runtime_snapshot \<Rightarrow> string set" where
  "configured_names state =
     ca_name ` snd ` set (rs_tokens state) \<union> pr_name ` insert (rs_default state) (snd ` set (rs_providers state))"

fun op_strings :: "span_op \<Rightarrow> string set" where
  "op_strings (SetAttributes kvs) = {v. SpanString v \<in> snd ` set kvs}"
| "op_strings (SetStatusError msg) = {msg}"
| "op_strings SpanEnd = {}"

definition ops_strings :: "span_op list \<Rightarrow> string set" where
  "ops_strings ops = \<Union> (op_strings ` set ops)"

definition span_strings :: "span \<Rightarrow> string set" where
  "span_strings s = ops_strings (SetAttributes (sn_start s) # sn_ops s)"

lemma ops_strings_simps [simp]:
  "ops_strings [] = {}" "ops_strings (x # xs) = op_strings x \<union> ops_strings xs"
  "ops_strings (xs @ ys) = ops_strings xs \<union> ops_strings ys"
  by (simp_all add: ops_strings_def)

lemma trace_strings:
  "ops_strings (traceRequestID rid) = {rid}"
  "ops_strings (traceAuth d c) = (if c = [] then {d} else {d, c})"
  "ops_strings (traceRateLimit b n) = {b}"
  "ops_strings (traceHTTPStatus st) \<subseteq> span_words"
  by (auto simp: trace_defs span_words_def)

lemma traceProxyResult_strings:
  "ops_strings (traceProxyResult result err aborted) \<subseteq>
     span_words \<union> (if px_provider result = [] then {} else {px_provider result})"
  by (auto simp: traceProxyResult_def span_words_def split: if_splits)

lemma resolveProvider_names:
  "resolveProvider state path = Inr (p, target) \<Longrightarrow> pr_name p \<in> configured_names state"
  by (auto simp: resolveProvider_def configured_names_def Let_def image_iff
      split: if_splits option.splits nat.splits dest!: map_of_SomeD intro: bexI rev_bexI)

lemma proxy_provider:
  assumes "proxy x state w r client rid g = ((result, err), w', g')"
  shows "px_provider result \<in> insert '''' (configured_names state)"
  using assms
  by (auto simp: proxy_def respond_def Let_def resolveProvider_names split: sum.splits prod.splits)

lemma authenticate_name:
  "authenticate state h = (auth, token, True) \<Longrightarrow> ca_name auth \<in> configured_names state"
  by (auto simp: authenticate_def configured_names_def Let_def image_iff
      split: if_splits option.splits dest!: map_of_SomeD intro: rev_bexI)

lemma proxied_strings:
  "ops_strings (proxied_trace sw state w r auth rid g) \<subseteq> span_words \<union> configured_names state"
proof -
  obtain result err w' g' where p:
    "proxy (sw_proxy sw) state w r (ca_name auth) rid (add_in_flight 1 g) = ((result, err), w', g')"
    by (metis prod.collapse)
  obtain result' aborted where "proxied_trace sw state w r auth rid g = traceProxyResult result' err aborted"
    "px_provider result' = px_provider result"
    by (simp add: proxied_trace_def p Let_def)
  with proxy_provider [OF p] traceProxyResult_strings [of result' err aborted] show ?thesis
    by (auto split: if_splits)
qed

lemma client_strings:
  "ops_strings (client_trace sw state w r ip rid g) \<subseteq>
     span_words \<union> configured_names state \<union> {limiter_name (mgr_backend (gw_rate_limits g))}"
proof -
  obtain auth token ok where a: "authenticate state (rq_header r) = (auth, token, ok)" by (metis prod_cases3)
  have app: "''application'' \<in> span_words" by (simp add: span_words_def)
  have name: "ok \<Longrightarrow> ca_name auth \<in> configured_names state" using a authenticate_name by simp
  have status: "ops_strings (traceHTTPStatus st) \<subseteq> insert n (span_words \<union> A)" for st n A
    using trace_strings(4) by blast
  have proxied: "ops_strings (proxied_trace sw state w r auth rid g) \<subseteq>
      insert n (span_words \<union> configured_names state)" for n g
    using proxied_strings by blast
  show ?thesis
    using app name by (simp add: client_trace_def a Let_def trace_strings(1-3) status proxied split: prod.split)
qed

text \<open>
  C30. Spans keep to their privacy boundary: every text in the span of a request is its method,
  its path, its request ID, the name of the rate-limit backend, a name the operator configured
  for a client or a provider, or one of seven fixed phrases. This holds of both listeners and of
  every request, whatever happened to it.
\<close>

theorem span_privacy:
  shows "span_strings (ServeHTTP_span extract sw w r g) \<union> span_strings (operations_listener_span extract sw r g) \<subseteq>
    {rq_method r, rq_path r, requestID (rq_header r) (sw_random sw) (sw_nano sw),
     limiter_name (mgr_backend (gw_rate_limits g))} \<union> configured_names (gw_runtime g) \<union> span_words"
proof -
  let ?names = "configured_names (gw_runtime g)"
  have words: "''public_operations'' \<in> span_words" "''operations'' \<in> span_words" by (simp_all add: span_words_def)
  have status: "ops_strings (traceHTTPStatus st) \<subseteq> insert n (A \<union> span_words)" for st n A
    using trace_strings(4) by blast
  have ops: "ops_strings (operations_trace path) \<subseteq> insert n (A \<union> span_words)" for path n A
    using words(2) status by (simp add: operations_trace_def trace_strings(1-3))
  have client: "ops_strings (client_trace sw (gw_runtime g) w r ip rid g) \<subseteq>
      insert n (insert (limiter_name (mgr_backend (gw_rate_limits g))) (?names \<union> span_words))" for n w ip rid
    using client_strings by blast
  let ?A = "insert (requestID (rq_header r) (sw_random sw) (sw_nano sw))
    (insert (limiter_name (mgr_backend (gw_rate_limits g))) (?names \<union> span_words))"
  have serve: "ops_strings (serve_trace sw (gw_runtime g) w r g) \<subseteq> ?A" for w
    using words status ops client
    by (simp add: serve_trace_def Let_def trace_strings(1-3) del: insert_subset) blast
  have listener: "ops_strings (sn_ops (operations_listener_span extract sw r g)) \<subseteq> ?A"
    using words status ops
    by (simp add: operations_listener_span_def Let_def trace_strings(1-3) del: insert_subset) blast
  have "span_strings (ServeHTTP_span extract sw w r g) \<subseteq> {rq_method r, rq_path r} \<union> ?A"
    using serve by (auto simp: span_strings_def ServeHTTP_span_def startGatewaySpan_def Let_def split: prod.splits if_splits)
  moreover have "span_strings (operations_listener_span extract sw r g) \<subseteq> {rq_method r, rq_path r} \<union> ?A"
  proof -
    have "sn_start (operations_listener_span extract sw r g) = sn_start (startGatewaySpan extract r)"
      by (simp add: operations_listener_span_def Let_def)
    with listener show ?thesis by (auto simp: span_strings_def startGatewaySpan_def)
  qed
  ultimately show ?thesis by (simp only: insert_is_Un [of _ "insert _ _"] Un_insert_left) blast
qed


text \<open>
  The gateway's own refusals are recorded as the provider's errors. When the route names no
  provider, or the body is too large or unreadable, the gateway answers an admitted request
  itself and there is no provider span; yet the request span carries the outcome
  \<open>provider_error\<close> and is in error, although the answer is 400, 404 or 413.
\<close>

theorem refusal_blamed_on_provider:
  assumes "application_request r" and "admission sw state (rq_header r) (gw_rate_limits g) = Admitted auth"
    and "isl (resolveProvider state (rq_path r)) \<or> isl (prepareBody state r)" and "\<not> pw_done (sw_proxy sw)"
  shows "let ops = serve_trace sw state w r g in
    span_outcome ops = Some ''provider_error'' \<and> ops_failed ops \<and> the (span_status ops) \<in> {400, 404, 413} \<and>
    proxy_span (sw_proxy sw) state w' r client rid g' = None"
proof -
  let ?rid = "requestID (rq_header r) (sw_random sw) (sw_nano sw)"
  let ?w = "set_header w ''X-Request-ID'' ?rid"
  let ?g = "add_in_flight 1 (admitted_gateway sw state r
    (resolveClientIP (rt_trusted_proxies (rs_cfg state)) (rq_remote r) (rq_header r)) ?rid g)"
  obtain pre where pre: "says_nothing pre" and ops: "serve_trace sw state w r g = pre @
      proxied_trace sw state ?w r auth ?rid (admitted_gateway sw state r
        (resolveClientIP (rt_trusted_proxies (rs_cfg state)) (rq_remote r) (rq_header r)) ?rid g)"
    using serve_trace_application [OF assms(1), of sw state w g] by (auto simp: assms(2))
  have route: "isl (resolveProvider state (rq_path r)) \<Longrightarrow>
      \<exists>st e. resolveProvider state (rq_path r) = Inl (st, e) \<and> (st = 400 \<or> st = 404)"
    by (auto simp: resolveProvider_def Let_def split: if_splits option.splits nat.splits)
  obtain result e where p: "proxy (sw_proxy sw) state ?w r (ca_name auth) ?rid ?g = ((result, Some e), ?w, ?g)"
    "px_status result \<in> {400, 404, 413}"
  proof (cases "isl (resolveProvider state (rq_path r))")
    case True
    from route [OF True] that show thesis by (auto simp: proxy_def Let_def)
  next
    case False
    then obtain q target b where "resolveProvider state (rq_path r) = Inr (q, target)" "prepareBody state r = Inl b"
      using assms(3) by (auto simp: isl_def) (metis isl_def sum.exhaust_sel surj_pair)
    then show thesis
      using that by (auto simp: proxy_def Let_def split: proxy_error.splits)
  qed
  have t: "serve_trace sw state w r g = pre @ traceProxyResult result (Some e) False"
    using assms(4) p(2) by (auto simp: ops proxied_trace_def p(1) Let_def)
  have "proxy_span (sw_proxy sw) state w' r client rid g' = None"
    using assms(3) by (auto simp: proxy_span_def isl_def split: sum.split)
  then show ?thesis
    using p(2) by (auto simp: t Let_def says_nothing_before [OF pre] traceProxyResult_reads)
qed


subsection \<open>The exporter (telemetry/telemetry.go)\<close>

text \<open>
  \<open>Setup\<close> with telemetry on: the endpoint given to the exporter (none leaves it to the
  environment), the attributes of the resource and the ratio of the parent-based sampler. The
  propagator it installs is W3C Trace Context alone. Whether the exporter could be created is an
  argument; with telemetry off there is nothing to set up or shut down.
\<close>

record exporter_plan =
  ex_endpoint :: "string option"
  ex_resource :: "(string \<times> string) list"
  ex_ratio :: ratio

datatype telemetry_error = TelemetryInvalid config_error | ExporterFailed string

definition telemetry_Setup ::
  "(string option \<Rightarrow> string option) \<Rightarrow> telemetry_config \<Rightarrow> string \<Rightarrow> telemetry_error + exporter_plan option" where
  "telemetry_Setup new_exporter cfg version =
     (case telemetry_normalized cfg of
        Inl e \<Rightarrow> Inl (TelemetryInvalid e)
      | Inr c \<Rightarrow>
          (if \<not> te_enabled c then Inr None
           else
             (let endpoint = (if te_endpoint c \<noteq> '''' then Some (te_endpoint c) else None) in
              case new_exporter endpoint of
                Some e \<Rightarrow> Inl (ExporterFailed e)
              | None \<Rightarrow>
                  Inr (Some \<lparr>ex_endpoint = endpoint,
                    ex_resource = [(''service.name'', te_service_name c)] @
                      (if version \<noteq> '''' then [(''service.version'', version)] else []) @
                      (if te_environment c \<noteq> ''''
                       then [(''deployment.environment.name'', te_environment c)] else []),
                    ex_ratio = te_sample_ratio c\<rparr>))))"

lemma telemetry_normalized_endpoint:
  "telemetry_normalized c = Inr c' \<Longrightarrow> te_enabled c' \<Longrightarrow> te_endpoint c' = '''' \<or> url_ok (te_endpoint c')"
  by (auto simp: telemetry_normalized_def telemetry_validate_def Let_def check_url_Inr split: if_splits)

text \<open>
  What is exported goes where it may and says who it is: the endpoint is an absolute http(s) URL
  without credentials, query or fragment, the service has a name, and the ratio is in range.
\<close>

lemma telemetry_Setup_plan:
  assumes "telemetry_Setup new_exporter cfg version = Inr (Some plan)"
  shows "(\<forall>e. ex_endpoint plan = Some e \<longrightarrow> url_ok e) \<and> snd (hd (ex_resource plan)) \<noteq> '''' \<and>
    (\<forall>q. ex_ratio plan = Some q \<longrightarrow> 0 < q \<and> q \<le> 1)"
proof -
  obtain c where c: "telemetry_normalized cfg = Inr c" "te_enabled c"
    "ex_endpoint plan = (if te_endpoint c \<noteq> '''' then Some (te_endpoint c) else None)"
    "snd (hd (ex_resource plan)) = te_service_name c" "ex_ratio plan = te_sample_ratio c"
    using assms by (auto simp: telemetry_Setup_def Let_def split: sum.splits if_splits option.splits)
  with telemetry_normalized_stable [OF c(1)] telemetry_normalized_endpoint [OF c(1,2)] show ?thesis
    by (auto split: if_splits)
qed



subsection \<open>The properties at work\<close>

definition sample_body :: request where
  "sample_body = sample_request [(''Authorization'', [''Bearer t1''])] (Some \<lparr>rb_bytes = ''{}'', rb_fails = False\<rparr>)"

definition sample_routes :: runtime_snapshot where
  "sample_routes = (sample_state 0)\<lparr>rs_default := sample_upstream\<rparr>"

definition sample_span :: "span option" where
  "sample_span = proxy_span (sw_proxy refusing_world) sample_routes (new_writer 9) (sample_request [] None) ''app'' ''req-1''
     (sample_gw (newCircuitBreakerWithPolicy trip_policy))"

lemma sample_span_ops:
  "map_option sn_ops sample_span =
     Some [SetAttributes [(''gemgate.outcome'', SpanString ''transport_error'')],
       SetStatusError ''provider transport error'', SpanEnd]"
  by code_simp

lemma sample_body_admitted:
  "\<exists>auth. admission refusing_world (sample_state 1) (rq_header sample_body) (gw_rate_limits (sample_gw tripped)) =
     Admitted auth"
proof -
  have "authenticate (sample_state 1) (rq_header sample_body) =
      (\<lparr>ca_name = ''app'', ca_rate_limit_rpm = 60\<rparr>, ''t1'', True)" by code_simp
  moreover have
    "rd_allowed (fst (fst (manager_allow (limiter_allow sample_cmds) id (gw_rate_limits (sample_gw tripped)) ''t1'' 60 2)))"
    by code_simp
  ultimately show ?thesis by (simp add: admission_def sample_world_def case_prod_unfold Let_def)
qed

theorem provider_span_tells_books_witness:
  "\<exists>out w' g' s. proxy (sw_proxy refusing_world) sample_routes (new_writer 9) (sample_request [] None) ''app'' ''req-1''
      (sample_gw (newCircuitBreakerWithPolicy trip_policy)) = (out, w', g') \<and>
    sample_span = Some s \<and> (\<exists>status te failed. span_books (sn_ops s) status te failed \<and> te \<and> failed)"
proof -
  obtain out w' g' where r: "proxy (sw_proxy refusing_world) sample_routes (new_writer 9) (sample_request [] None)
      ''app'' ''req-1'' (sample_gw (newCircuitBreakerWithPolicy trip_policy)) = (out, w', g')" by (metis prod_cases3)
  obtain s where s: "sample_span = Some s" "sn_ops s =
      [SetAttributes [(''gemgate.outcome'', SpanString ''transport_error'')],
       SetStatusError ''provider transport error'', SpanEnd]"
    using sample_span_ops by auto
  from provider_span_tells_books [OF r] s(1) obtain status te failed where b: "span_books (sn_ops s) status te failed"
    by (auto simp: sample_span_def)
  have "te" "failed" using b by (simp_all add: s(2) span_books_simps)
  with r s(1) b show ?thesis by blast
qed

theorem span_tells_response_witness:
  "\<exists>w' g'. serveHTTP refusing_world (sample_state 0) (new_writer 9) (sample_request [] None) (sample_gw tripped) =
     (w', g') \<and> rw_status w' \<noteq> None \<and>
   span_status (serve_trace refusing_world (sample_state 0) (new_writer 9) (sample_request [] None)
     (sample_gw tripped)) = rw_status w'"
proof -
  obtain w' g' where r: "serveHTTP refusing_world (sample_state 0) (new_writer 9) (sample_request [] None)
      (sample_gw tripped) = (w', g')" by (metis prod.collapse)
  have "final_replies (pw_base (sw_proxy refusing_world))" "\<not> pw_done (sw_proxy refusing_world)"
    by (simp_all add: final_replies_def sample_world_def)
  with span_tells_response [OF sample_application sample_writer this(1) r]
  have "\<exists>status. span_status (serve_trace refusing_world (sample_state 0) (new_writer 9) (sample_request [] None)
     (sample_gw tripped)) = Some status \<and> rw_status w' = Some status"
    unfolding Let_def by (metis (no_types))
  with r show ?thesis by auto
qed

theorem refusal_blamed_on_provider_witness:
  "span_outcome (serve_trace refusing_world (sample_state 1) (new_writer 9) sample_body (sample_gw tripped)) =
     Some ''provider_error''"
proof -
  obtain auth where a: "admission refusing_world (sample_state 1) (rq_header sample_body)
      (gw_rate_limits (sample_gw tripped)) = Admitted auth" using sample_body_admitted by blast
  have app: "application_request sample_body" by (simp add: sample_body_def)
  have "isl (prepareBody (sample_state 1) sample_body)" by code_simp
  then have "isl (resolveProvider (sample_state 1) (rq_path sample_body)) \<or> isl (prepareBody (sample_state 1) sample_body)" by simp
  moreover have "\<not> pw_done (sw_proxy refusing_world)" by (simp add: sample_world_def)
  ultimately show ?thesis
    using refusal_blamed_on_provider [OF app a, where w = "new_writer 9" and g' = "sample_gw tripped"]
    unfolding Let_def by blast
qed

end
