(* ===== verification/Gw_Runs.thy ===== *)
theory Gw_Runs
  imports Serve_Props
begin

section \<open>Runs of a gateway\<close>

text \<open>
  A gateway from its start, through requests on either listener, reloads, files that do not
  load, the installation of isolation and the lines of \<open>ListenAndServe\<close> and \<open>Shutdown\<close>, one operation after the other.
\<close>

inductive serve_step :: "'r gateway \<Rightarrow> 'r gateway \<Rightarrow> bool" where
  application: "application_handler sw w r g = (w', g') \<Longrightarrow> serve_step g g'"
| operations: "serveOperationsListenerHTTP sw w r g = (w', g') \<Longrightarrow> serve_step g g'"

text \<open>A configuration as the gateway gets it: loaded, with the integers of its breakers in range.\<close>

definition loaded_config :: "config_runtime \<Rightarrow> bool" where
  "loaded_config rt \<longleftrightarrow>
     (\<exists>decode getenv fs path. load decode getenv fs path = Inr rt) \<and> (\<forall>n. policy_wf (circuitPolicyFor rt n))"

inductive gateway_step :: "'r gateway \<Rightarrow> 'r gateway \<Rightarrow> bool" where
  serve: "serve_step g g' \<Longrightarrow> gateway_step g g'"
| reloaded: "loaded_config rt \<Longrightarrow> reload sha256 text_of now logged rt g = (res, g') \<Longrightarrow> gateway_step g g'"
| unloadable: "gateway_step g (recordReloadFailure clock err g)"
| isolated: "gateway_step g (isolateOperationsEndpoints g)"
| listening: "gateway_step g (gateway_listening clock addr g)"
| stopping: "gateway_shutdown clock serverErr limitErr g = (res, g') \<Longrightarrow> gateway_step g g'"

inductive gateway_reachable :: "'r gateway \<Rightarrow> bool" where
  start: "loaded_config rt \<Longrightarrow> new_gateway connect inst sha256 clock rt = Inr g \<Longrightarrow> gateway_reachable g"
| step: "gateway_reachable g \<Longrightarrow> gateway_step g g' \<Longrightarrow> gateway_reachable g'"


subsection \<open>What a served request does to the gateway\<close>

definition proxied :: "'r gateway \<Rightarrow> 'r gateway \<Rightarrow> bool" where
  "proxied g g' \<longleftrightarrow>
     (\<exists>x w r client rid g0 out w1 g1. same_parts g g0 \<and> proxy x (gw_runtime g) w r client rid g0 = (out, w1, g1) \<and>
        same_parts g1 g')"

lemma log_wf [simp]: "logring_wf l \<Longrightarrow> logring_wf (logring_add clock e l)"
  by (rule ring.add_ok)

lemma operations_refused_log:
  "operations_refused sw r ip rid w g = (w', g') \<Longrightarrow> logring_wf (gw_logs g) \<Longrightarrow> logring_wf (gw_logs g')"
  by (auto simp: operations_refused_def Let_def)

lemma serve_client_log:
  assumes "serve_client sw state w r ip rid g = (w', g')" "logring_wf (gw_logs g)"
  shows "logring_wf (gw_logs g')"
proof (cases "\<exists>auth. admission sw state (rq_header r) (gw_rate_limits g) = Admitted auth")
  case True
  then obtain auth where v: "admission sw state (rq_header r) (gw_rate_limits g) = Admitted auth" by blast
  have "log_or_warned (sw_end sw) (gw_logs g) (gw_logs (admitted_gateway sw state r ip rid g))"
    by (rule admitted_gateway_logs)
  then have wf: "logring_wf (gw_logs (admitted_gateway sw state r ip rid g))"
    using assms(2) by (auto simp: log_or_warned_def)
  from assms(1) have "serve_proxied sw state w r auth ip rid (admitted_gateway sw state r ip rid g) = (w', g')"
    using serve_client_admitted [OF v] by simp
  then show ?thesis
  proof (cases rule: serve_proxied_cases)
    case (1 result err w1 g1 e)
    from proxy_frame(5) [OF 1(1)] wf have "logring_wf (gw_logs g1)" by simp
    with 1(6) show ?thesis by auto
  qed
next
  case False
  then have "\<And>auth. admission sw state (rq_header r) (gw_rate_limits g) \<noteq> Admitted auth" by blast
  from logged_refusal [OF refl this assms(1)] assms(2) show ?thesis by auto
qed

lemma serve_client_effect:
  assumes "serve_client sw (gw_runtime g) w r ip rid g = (w', g')" "in_i64 (mt_in_flight (gw_metrics g))"
  shows "(same_parts g g' \<or> proxied g g') \<and> mt_in_flight (gw_metrics g') = mt_in_flight (gw_metrics g)"
proof (cases "\<exists>auth. admission sw (gw_runtime g) (rq_header r) (gw_rate_limits g) = Admitted auth")
  case True
  then obtain auth where v: "admission sw (gw_runtime g) (rq_header r) (gw_rate_limits g) = Admitted auth" by blast
  let ?g = "admitted_gateway sw (gw_runtime g) r ip rid g"
  from assms(1) have "serve_proxied sw (gw_runtime g) w r auth ip rid ?g = (w', g')"
    using serve_client_admitted [OF v] by simp
  then show ?thesis
  proof (cases rule: serve_proxied_cases)
    case (1 result err w1 g1 e)
    have "same_parts g (add_in_flight 1 ?g)" "same_parts g1 g'" using 1(6) by auto
    with 1(1) have "proxied g g'" unfolding proxied_def by blast
    moreover have "mt_in_flight (gw_metrics g') = mt_in_flight (gw_metrics g)"
      using 1(6) proxy_frame(2) [OF 1(1)] in_flight_balance [OF assms(2)] by auto
    ultimately show ?thesis by simp
  qed
next
  case False
  then have "\<And>auth. admission sw (gw_runtime g) (rq_header r) (gw_rate_limits g) \<noteq> Admitted auth" by blast
  from serve_client_refused [OF refl this assms(1)] show ?thesis by simp
qed

lemma serveHTTP_effect:
  assumes "serveHTTP sw (gw_runtime g) w r g = (w', g')" "in_i64 (mt_in_flight (gw_metrics g))"
  shows "(same_parts g g' \<or> proxied g g') \<and> mt_in_flight (gw_metrics g') = mt_in_flight (gw_metrics g) \<and>
    (logring_wf (gw_logs g) \<longrightarrow> logring_wf (gw_logs g'))"
proof -
  consider "g' = g" | ip rid w1 where "operations_refused sw r ip rid w1 g = (w', g')"
    | ip rid w1 where "serve_client sw (gw_runtime g) w1 r ip rid g = (w', g')"
    using assms(1) by (auto simp: serveHTTP_def Let_def split: if_splits)
  then show ?thesis
  proof cases
    case 2
    from operations_refused_sel [OF this] operations_refused_log [OF this] show ?thesis by simp
  next
    case 3
    from serve_client_effect [OF this assms(2)] serve_client_log [OF this] show ?thesis by simp
  qed simp
qed

lemma serve_step_effect:
  assumes "serve_step g g'" "in_i64 (mt_in_flight (gw_metrics g))"
  shows "(same_parts g g' \<or> proxied g g') \<and> mt_in_flight (gw_metrics g') = mt_in_flight (gw_metrics g) \<and>
    (logring_wf (gw_logs g) \<longrightarrow> logring_wf (gw_logs g'))"
  using assms(1)
proof cases
  case (application sw w r w')
  then consider "g' = g" | w1 where "serveHTTP sw (gw_runtime g) w1 r g = (w', g')"
    by (auto simp: application_handler_def ServeHTTP_def Let_def split: if_splits prod.splits)
  then show ?thesis
  proof cases
    case 2
    from serveHTTP_effect [OF this assms(2)] show ?thesis .
  qed simp
next
  case (operations sw w r w')
  then consider "g' = g" | ip rid w1 where "operations_refused sw r ip rid w1 g = (w', g')"
    by (auto simp: serveOperationsListenerHTTP_def Let_def split: if_splits)
  then show ?thesis
  proof cases
    case 2
    from operations_refused_sel [OF this] operations_refused_log [OF this] show ?thesis by simp
  qed simp
qed


subsection \<open>The invariant of a gateway\<close>

definition gateway_inv :: "'r gateway \<Rightarrow> bool" where
  "gateway_inv g \<longleftrightarrow>
     gateway_wf g \<and> loaded_config (rs_cfg (gw_runtime g)) \<and>
     (\<forall>a < length (gw_breakers g). circuit_wf (gw_breakers g ! a)) \<and>
     (\<forall>n. pm_in_flight (provider_entry n (gw_metrics g)) = 0) \<and>
     mt_in_flight (gw_metrics g) = 0 \<and> logring_wf (gw_logs g)"

lemma same_parts_entry: "same_parts g g' \<Longrightarrow> provider_entry n (gw_metrics g') = provider_entry n (gw_metrics g)"
  by (simp add: same_parts_def provider_entry_def)

lemma same_partsD:
  assumes "same_parts g g'"
  shows "gw_breakers g' = gw_breakers g" "gw_runtime g' = gw_runtime g" "gw_server g' = gw_server g"
    "gw_started g' = gw_started g"
  using assms by (simp_all add: same_parts_def)

lemma proxy_breaker_wf:
  assumes "proxy x state w r client rid g = (out, w', g')" "a < length (gw_breakers g)" "circuit_wf (gw_breakers g ! a)"
  shows "circuit_wf (gw_breakers g' ! a)"
proof -
  let ?k = "if cb_state (gw_breakers g ! a) = CircuitHalfOpen then 1 else 0 :: nat"
  have inv: "circuit_inv (gw_breakers g ! a) ?k" using assms(3) by (simp add: circuit_inv_def)
  obtain n m g1 where g: "g' = add_bytes_out m g1"
    "g1 = add_bytes_in n g \<or> (\<exists>p. call_over p (pw_call x) (add_bytes_in n g) g1)"
    using proxy_gateway [OF assms(1)] by blast
  from g(2) have "circuit_inv (gw_breakers g1 ! a) ?k"
  proof
    assume "\<exists>p. call_over p (pw_call x) (add_bytes_in n g) g1"
    then obtain p where "call_over p (pw_call x) (add_bytes_in n g) g1" by blast
    from call_over_breaker [OF this, of a ?k] inv assms(2) show ?thesis by simp
  qed (use inv in simp)
  then show ?thesis by (simp add: g(1) circuit_inv_def)
qed

lemma proxy_provider_gauge:
  assumes "proxy x state w r client rid g = (out, w', g')" "pm_in_flight (provider_entry n (gw_metrics g)) = 0"
  shows "pm_in_flight (provider_entry n (gw_metrics g')) = 0"
proof -
  obtain k m g1 where g: "g' = add_bytes_out m g1"
    "g1 = add_bytes_in k g \<or> (\<exists>p. call_over p (pw_call x) (add_bytes_in k g) g1)"
    using proxy_gateway [OF assms(1)] by blast
  from g(2) show ?thesis
  proof
    assume "\<exists>p. call_over p (pw_call x) (add_bytes_in k g) g1"
    then obtain p where "call_over p (pw_call x) (add_bytes_in k g) g1" by blast
    from call_over_in_flight [OF this, of n] assms(2) show ?thesis by (simp add: g(1))
  qed (use assms(2) in \<open>simp add: g(1)\<close>)
qed

lemma gateway_wf_cong:
  "gw_runtime g' = gw_runtime g \<Longrightarrow> length (gw_breakers g) \<le> length (gw_breakers g') \<Longrightarrow> gateway_wf g \<Longrightarrow> gateway_wf g'"
  by (fastforce simp: gateway_wf_def Let_def)

text \<open>The parts a served request keeps.\<close>

lemma served_parts:
  assumes "same_parts g g' \<or> proxied g g'"
  shows "gw_runtime g' = gw_runtime g \<and> length (gw_breakers g') = length (gw_breakers g) \<and>
    (pm_in_flight (provider_entry n (gw_metrics g)) = 0 \<longrightarrow> pm_in_flight (provider_entry n (gw_metrics g')) = 0) \<and>
    (a < length (gw_breakers g) \<longrightarrow> circuit_wf (gw_breakers g ! a) \<longrightarrow> circuit_wf (gw_breakers g' ! a))"
  using assms
proof
  assume "same_parts g g'"
  then show ?thesis by (simp add: same_partsD same_parts_entry)
next
  assume "proxied g g'"
  then obtain x w r client rid g0 out w1 g1 where p: "same_parts g g0" "same_parts g1 g'"
    "proxy x (gw_runtime g) w r client rid g0 = (out, w1, g1)"
    unfolding proxied_def by blast
  from proxy_frame(3,8) [OF p(3)] proxy_breaker_wf [OF p(3), of a] proxy_provider_gauge [OF p(3), of n] p(1,2)
  show ?thesis by (simp add: same_partsD same_parts_entry)
qed

lemma serve_step_inv:
  assumes "serve_step g g'" "gateway_inv g" shows "gateway_inv g'"
proof -
  have "in_i64 (mt_in_flight (gw_metrics g))" using assms(2) by (simp add: gateway_inv_def)
  from serve_step_effect [OF assms(1) this]
  have e: "same_parts g g' \<or> proxied g g'" "mt_in_flight (gw_metrics g') = mt_in_flight (gw_metrics g)"
    "logring_wf (gw_logs g) \<longrightarrow> logring_wf (gw_logs g')" by simp_all
  from served_parts [OF e(1)] e(2,3) assms(2) gateway_wf_cong [of g' g] show ?thesis
    unfolding gateway_inv_def by auto
qed

lemma build_providers_gauge:
  "build_providers rt previous now ps (m, brs, prs) = (e, m', brs', prs') \<Longrightarrow> mt_in_flight m' = mt_in_flight m"
proof (induction ps arbitrary: m brs prs)
  case (Cons p ps)
  obtain e1 m1 brs1 prs1 where p: "build_provider rt previous now p (m, brs, prs) = (e1, m1, brs1, prs1)"
    by (metis prod_cases4)
  then have "mt_in_flight m1 = mt_in_flight m"
    by (auto simp: build_provider_def metrics_provider_def Let_def split: prod.splits option.splits if_splits)
  with Cons.IH [of m1 brs1 prs1] Cons.prems p show ?case by (cases e1) auto
qed simp

lemma build_snapshot_gauge:
  "buildRuntimeSnapshot rt previous now m brs = (r, m', brs') \<Longrightarrow> mt_in_flight m' = mt_in_flight m"
  by (auto simp: buildRuntimeSnapshot_def Let_def dest!: build_providers_gauge split: prod.splits option.splits)

text \<open>A reload does nothing, writes one line of log, or all of it.\<close>

lemma reload_accepted:
  assumes "reload sha256 text_of now logged rt g = (res, g')" "runtime_ready rt" "gateway_wf g"
    "\<not> same_config (rt_config (rs_cfg (gw_runtime g))) (rt_config rt)"
    "validateHotReload (rs_cfg (gw_runtime g)) rt = Inr u"
  obtains e n where "gw_runtime g' = snapshot_of rt (length (gw_breakers g))"
      "gw_breakers g' = gw_breakers g @
         map (build_breaker rt (Some (gw_runtime g)) (gw_breakers g) now \<circ> pc_name) (cf_providers (rt_config rt))"
      "gw_logs g' = logring_add logged e (logring_resize n (gw_logs g))"
      "mt_in_flight (gw_metrics g') = mt_in_flight (gw_metrics g)"
      "\<And>n. provider_entry n (gw_metrics g') = provider_entry n (gw_metrics g)"
proof -
  obtain m' where b: "buildRuntimeSnapshot rt (Some (gw_runtime g)) now (gw_metrics g) (gw_breakers g) =
      (Inr (snapshot_of rt (length (gw_breakers g))), m', gw_breakers g @
         map (build_breaker rt (Some (gw_runtime g)) (gw_breakers g) now \<circ> pc_name) (cf_providers (rt_config rt)))"
    using build_snapshot_ready [OF assms(2) gateway_wf_breakers [OF assms(3)]] by blast
  from build_snapshot_frame [OF b] have entry: "provider_entry n m' = provider_entry n (gw_metrics g)" for n by blast
  show thesis
    by (rule that) (use assms(1,4,5) entry build_snapshot_gauge [OF b] in \<open>auto simp: reload_def b Let_def\<close>)
qed

lemma reload_cases:
  assumes "reload sha256 text_of now logged rt g = (res, g')"
  obtains (unchanged) "g' = g"
  | (refused) e where "g' = g\<lparr>gw_logs := logring_add logged e (gw_logs g)\<rparr>"
  | (accepted) u where "\<not> same_config (rt_config (rs_cfg (gw_runtime g))) (rt_config rt)"
      "validateHotReload (rs_cfg (gw_runtime g)) rt = Inr u"
proof -
  consider "same_config (rt_config (rs_cfg (gw_runtime g))) (rt_config rt)"
    | e where "\<not> same_config (rt_config (rs_cfg (gw_runtime g))) (rt_config rt)"
      "validateHotReload (rs_cfg (gw_runtime g)) rt = Inl e"
    | u where "\<not> same_config (rt_config (rs_cfg (gw_runtime g))) (rt_config rt)"
      "validateHotReload (rs_cfg (gw_runtime g)) rt = Inr u"
    by (metis sum.exhaust)
  then show thesis
  proof cases
    case 1
    then show thesis using assms(1) unchanged by (simp add: reload_def)
  next
    case 2
    then show thesis using assms(1) refused by (auto simp: reload_def recordReloadFailure_def)
  next
    case 3
    then show thesis by (rule accepted)
  qed
qed

lemma build_breaker_wf:
  assumes "policy_wf (circuitPolicyFor rt n)" "gateway_wf g" "\<forall>a < length (gw_breakers g). circuit_wf (gw_breakers g ! a)"
  shows "circuit_wf (build_breaker rt (Some (gw_runtime g)) (gw_breakers g) now n)"
proof (cases "map_of (rs_providers (gw_runtime g)) n")
  case None
  then show ?thesis using assms(1) by (simp add: build_breaker_def new_breaker_wf)
next
  case (Some pr)
  then have "(n, pr) \<in> set (rs_providers (gw_runtime g))" by (rule map_of_SomeD)
  then have "pr_breaker pr < length (gw_breakers g)"
    using gateway_wf_breakers [OF assms(2)] by (force simp: breakers_in_def)
  with assms(3) Some show ?thesis
    by (auto simp: build_breaker_def Let_def intro!: clone_wf assms(1))
qed

lemma loaded_ready: "loaded_config rt \<Longrightarrow> runtime_ready rt"
  by (auto simp: loaded_config_def intro: load_runtime_ready)

lemma reload_inv:
  assumes "reload sha256 text_of now logged rt g = (res, g')" "loaded_config rt" "gateway_inv g"
  shows "gateway_inv g'"
proof -
  have ready: "runtime_ready rt" and wf: "gateway_wf g"
    using loaded_ready [OF assms(2)] assms(3) by (simp_all add: gateway_inv_def)
  from assms(1) show ?thesis
  proof (cases rule: reload_cases)
    case unchanged
    with assms(3) show ?thesis by simp
  next
    case (refused e)
    with assms(3) show ?thesis by (auto simp: gateway_inv_def gateway_wf_def Let_def)
  next
    case (accepted u)
    then show ?thesis
    proof (rule reload_accepted [OF assms(1) ready wf])
      fix e n
      assume accepted: "gw_runtime g' = snapshot_of rt (length (gw_breakers g))"
        "gw_breakers g' = gw_breakers g @
           map (build_breaker rt (Some (gw_runtime g)) (gw_breakers g) now \<circ> pc_name) (cf_providers (rt_config rt))"
        "gw_logs g' = logring_add logged e (logring_resize n (gw_logs g))"
        "mt_in_flight (gw_metrics g') = mt_in_flight (gw_metrics g)"
        "\<And>n. provider_entry n (gw_metrics g') = provider_entry n (gw_metrics g)"
    have "gateway_wf g'" using accepted(1,2) ready by (auto simp: gateway_wf_def Let_def)
    moreover have "circuit_wf (gw_breakers g' ! a)" if "a < length (gw_breakers g')" for a
      using that assms(2,3) build_breaker_wf [of rt _ g now] wf
      by (auto simp: accepted(2) nth_append gateway_inv_def loaded_config_def)
    moreover have "logring_wf (gw_logs g')"
      using assms(3) accepted(3) ring.resize_ok by (simp add: gateway_inv_def)
      ultimately show "gateway_inv g'" using accepted assms(2,3) by (simp add: gateway_inv_def)
    qed
  qed
qed

lemma start_inv:
  assumes "new_gateway connect inst sha256 clock rt = Inr g" "loaded_config rt"
  shows "gateway_inv g"
proof -
  obtain mgr where m: "newRateLimitManager connect inst rt = Inr mgr"
    using assms(1) by (auto simp: new_gateway_def split: sum.splits)
  from new_gateway_ready [OF loaded_ready [OF assms(2)] m, of sha256 clock] assms(1)
  have g: "gateway_wf g" "gw_runtime g = snapshot_of rt 0"
    "gw_breakers g = map (newCircuitBreakerWithPolicy \<circ> circuitPolicyFor rt \<circ> pc_name) (cf_providers (rt_config rt))"
    by simp_all
  obtain m' brs s where b: "buildRuntimeSnapshot rt None clock (newMetrics clock) [] = (Inr s, m', brs)"
    "gw_metrics g = m'" "gw_logs g = newLogRing (lg_recent (cf_logging (rt_config rt)))"
    using assms(1) by (auto simp: new_gateway_def m Let_def split: sum.splits prod.splits)
  from build_snapshot_frame [OF b(1)] have "provider_entry n (gw_metrics g) = provider_entry n (newMetrics clock)" for n
    by (simp add: b(2))
  moreover have "circuit_wf (gw_breakers g ! a)" if "a < length (gw_breakers g)" for a
    using that assms(2) by (simp add: g(3) new_breaker_wf loaded_config_def)
  ultimately show ?thesis
    using g(1,2) build_snapshot_gauge [OF b(1)] assms(2) b(2,3) newLogRing_wf
    by (simp add: gateway_inv_def newMetrics_def provider_entry_def zero_provider_metrics_def)
qed

lemma gateway_step_inv: "gateway_step g g' \<Longrightarrow> gateway_inv g \<Longrightarrow> gateway_inv g'"
proof (induction rule: gateway_step.induct)
  case (serve g g')
  then show ?case by (rule serve_step_inv)
next
  case (reloaded rt sha256 text_of now logged g res g')
  from reload_inv [OF reloaded(2,1,3)] show ?case .
qed (auto simp: gateway_inv_def gateway_wf_def recordReloadFailure_def isolateOperationsEndpoints_def gateway_listening_def
       gateway_shutdown_def Let_def)

text \<open>
  C2. In every state a gateway reaches, by any requests on either listener, whatever providers
  and clients do, and any reloads of loaded configurations: the runtime is the one its loaded
  configuration describes, its providers have breakers of their own, every breaker is well
  formed, the in-flight gauges of the gateway and of all providers are back at zero between
  requests, and the log respects its bound.
\<close>

theorem gateway_reachable_inv:
  assumes "gateway_reachable g"
  shows "gateway_wf g \<and> loaded_config (rs_cfg (gw_runtime g)) \<and>
    (\<forall>a < length (gw_breakers g). circuit_wf (gw_breakers g ! a)) \<and>
    (\<forall>n. pm_in_flight (provider_entry n (gw_metrics g)) = 0) \<and>
    mt_in_flight (gw_metrics g) = 0 \<and> logring_wf (gw_logs g)"
proof -
  from assms have "gateway_inv g"
    by (induction rule: gateway_reachable.induct) (auto intro: start_inv gateway_step_inv)
  then show ?thesis by (simp add: gateway_inv_def)
qed


subsection \<open>A breaker wedged by a reload\<close>

lemma begin_call_half_open:
  assumes "begin_call p now g = ((permit, ok, d), g')" "pr_breaker p = a" "a < length (gw_breakers g)"
    "cb_enabled (gw_breakers g ! a)" "cb_state (gw_breakers g ! a) = CircuitHalfOpen"
  shows "\<not> ok \<and> gw_breakers g' = gw_breakers g"
  using assms by (auto simp: begin_call_def half_open_refuses)

lemma call_over_half_open:
  assumes "call_over p t g g'" "a < length (gw_breakers g)"
    "cb_enabled (gw_breakers g ! a)" "cb_state (gw_breakers g ! a) = CircuitHalfOpen"
  shows "gw_breakers g' ! a = gw_breakers g ! a"
proof (cases "a = pr_breaker p")
  case True
  then show ?thesis using assms begin_call_half_open [OF _ _ assms(2-4)] by (fastforce simp: call_over_def)
next
  case False
  then show ?thesis using assms(1) by (auto simp: call_over_def dest: begin_call_frame(7))
qed

lemma proxy_half_open:
  assumes "proxy x state w r client rid g = (out, w', g')" "a < length (gw_breakers g)"
    "cb_enabled (gw_breakers g ! a)" "cb_state (gw_breakers g ! a) = CircuitHalfOpen"
  shows "gw_breakers g' ! a = gw_breakers g ! a"
proof -
  obtain n m g1 where g: "g' = add_bytes_out m g1"
    "g1 = add_bytes_in n g \<or> (\<exists>p. call_over p (pw_call x) (add_bytes_in n g) g1)"
    using proxy_gateway [OF assms(1)] by blast
  from g(2) show ?thesis
  proof
    assume "\<exists>p. call_over p (pw_call x) (add_bytes_in n g) g1"
    then obtain p where "call_over p (pw_call x) (add_bytes_in n g) g1" by blast
    from call_over_half_open [OF this, of a] assms(2-4) show ?thesis by (simp add: g(1))
  qed (simp add: g(1))
qed

definition stuck_at :: "nat \<Rightarrow> 'r gateway \<Rightarrow> bool" where
  "stuck_at a g \<longleftrightarrow> a < length (gw_breakers g) \<and> cb_enabled (gw_breakers g ! a) \<and>
     cb_state (gw_breakers g ! a) = CircuitHalfOpen"

lemma served_stuck:
  assumes "same_parts g g' \<or> proxied g g'" "stuck_at a g"
  shows "stuck_at a g'"
  using assms(1)
proof
  assume "same_parts g g'"
  with assms(2) show ?thesis by (simp add: stuck_at_def same_partsD)
next
  assume "proxied g g'"
  then obtain x w r client rid g0 out w1 g1 where p: "same_parts g g0" "same_parts g1 g'"
    "proxy x (gw_runtime g) w r client rid g0 = (out, w1, g1)"
    unfolding proxied_def by blast
  from proxy_half_open [OF p(3), of a] proxy_frame(8) [OF p(3)] p(1,2) assms(2)
  show ?thesis by (simp add: stuck_at_def same_partsD)
qed

lemma served_runs_stuck:
  assumes "serve_step\<^sup>*\<^sup>* g g'" "stuck_at a g" "gateway_inv g"
  shows "stuck_at a g' \<and> gw_runtime g' = gw_runtime g \<and> gateway_inv g'"
  using assms
proof (induction rule: rtranclp_induct)
  case (step g' g'')
  then have inv: "stuck_at a g'" "gw_runtime g' = gw_runtime g" "gateway_inv g'" by simp_all
  from inv(3) have "in_i64 (mt_in_flight (gw_metrics g'))" by (simp add: gateway_inv_def)
  with serve_step_effect [OF step(2)] have "same_parts g' g'' \<or> proxied g' g''" by simp
  from served_stuck [OF this inv(1)] served_parts [OF this] serve_step_inv [OF step(2) inv(3)] inv(2)
  show ?case by simp
qed simp

lemma clone_cooled:
  assumes "cb_enabled b" "cp_enabled policy" "cb_state b = CircuitOpen" "cb_open_until b \<le> now"
  shows "cb_state (cloneWithPolicy (Some b) policy now) = CircuitHalfOpen"
    "cb_enabled (cloneWithPolicy (Some b) policy now)"
  using assms by (auto simp: cloneWithPolicy_def time_before_def Let_def)

text \<open>
  C12. A reload can take a provider out of service for good: when an enabled circuit is open and
  its cooldown is over (so that the next request would have been the probe), and a loaded
  configuration that keeps the circuit enabled is applied, then after any further requests
  every call to that provider is refused, without the network being asked.
\<close>

theorem reload_wedges_provider:
  assumes "gateway_inv g" and "loaded_config rt"
    and "\<not> same_config (rt_config (rs_cfg (gw_runtime g))) (rt_config rt)"
    and "validateHotReload (rs_cfg (gw_runtime g)) rt = Inr ()"
    and "p \<in> set (cf_providers (rt_config rt))" and "cp_enabled (circuitPolicyFor rt (pc_name p))"
    and "map_of (rs_providers (gw_runtime g)) (pc_name p) = Some old"
    and "cb_enabled (gw_breakers g ! pr_breaker old)" and "cb_state (gw_breakers g ! pr_breaker old) = CircuitOpen"
    and "cb_open_until (gw_breakers g ! pr_breaker old) \<le> now"
    and "reload sha256 text_of now logged rt g = (res, g1)" and "serve_step\<^sup>*\<^sup>* g1 g'"
  shows "\<exists>pr. map_of (rs_providers (gw_runtime g')) (pc_name p) = Some pr \<and>
    fst (round_trip base inject pr t req g') = Inr (circuit_open_response nanos_second) \<and>
    gw_breakers (snd (round_trip base inject pr t req g')) = gw_breakers g'"
proof -
  let ?n = "length (gw_breakers g)" and ?ps = "cf_providers (rt_config rt)"
  have ready: "runtime_ready rt" and wf: "gateway_wf g"
    using loaded_ready [OF assms(2)] assms(1) by (simp_all add: gateway_inv_def)
  obtain i where i: "i < length ?ps" "p = ?ps ! i" using assms(5) by (auto simp: in_set_conv_nth)
  have built: "gw_runtime g1 = snapshot_of rt ?n"
    "gw_breakers g1 = gw_breakers g @ map (build_breaker rt (Some (gw_runtime g)) (gw_breakers g) now \<circ> pc_name) ?ps"
    by (rule reload_accepted [OF assms(11) ready wf assms(3,4)], assumption)+
  have "gw_breakers g1 ! (?n + i) =
      cloneWithPolicy (Some (gw_breakers g ! pr_breaker old)) (circuitPolicyFor rt (pc_name p)) now"
    using i assms(7) by (simp add: built(2) nth_append build_breaker_def Let_def)
  with clone_cooled [OF assms(8,6,9,10)] i have "stuck_at (?n + i) g1"
    by (simp add: stuck_at_def built(2))
  from served_runs_stuck [OF assms(12) this reload_inv [OF assms(11,2,1)]]
  have stuck: "stuck_at (?n + i) g'" "gw_runtime g' = snapshot_of rt ?n" by (simp_all add: built(1))
  let ?pr = "runtime_of rt p (?n + i)"
  have "map_of (rs_providers (gw_runtime g')) (pc_name p) = Some ?pr"
    using built_providers_lookup [OF ready i(1), of ?n] by (simp add: stuck(2) i(2))
  moreover have "begin_call ?pr (cw_permit t) g' = ((\<lparr>permit_probe = False\<rparr>, False, nanos_second), g')"
    using stuck(1) by (simp add: begin_call_def half_open_refuses stuck_at_def)
  ultimately show ?thesis by (simp add: round_trip_def)
qed


subsection \<open>The properties at work\<close>

lemma sample_circuits_ok:
  "case (sample_load, sample_load2) of
     (Inr a, Inr b) \<Rightarrow>
       list_all (\<lambda>c. in_i64 (cr_threshold (snd c)) \<and> in_i64 (cr_open_for (snd c))) (rt_provider_circuits a) \<and>
       list_all (\<lambda>c. in_i64 (cr_threshold (snd c)) \<and> in_i64 (cr_open_for (snd c))) (rt_provider_circuits b) \<and>
       map pc_name (cf_providers (rt_config a)) = [''main''] \<and> map pc_name (cf_providers (rt_config b)) = [''main''] \<and>
       cp_enabled (circuitPolicyFor b ''main'')
   | _ \<Rightarrow> False"
  by code_simp


lemma circuits_policy_wf:
  assumes "list_all (\<lambda>c. in_i64 (cr_threshold (snd c)) \<and> in_i64 (cr_open_for (snd c))) (rt_provider_circuits rt)"
  shows "policy_wf (circuitPolicyFor rt n)"
proof (cases "map_of (rt_provider_circuits rt) n")
  case (Some c)
  then have "(n, c) \<in> set (rt_provider_circuits rt)" by (rule map_of_SomeD)
  with assms have "in_i64 (cr_threshold c)" "in_i64 (cr_open_for c)" by (auto simp: list_all_iff)
  with Some show ?thesis
    by (simp add: circuitPolicyFor_def policy_wf_def defaultCircuitFailureThreshold_def
        defaultCircuitOpenFor_def nanos_second_def Let_def i64_bounds)
qed (simp add: circuitPolicyFor_def)

lemma sample_loaded:
  "load (\<lambda>_. Some sample_config) (\<lambda>_. '''') (\<lambda>_. Some ''x'') sample_path = Inr rt \<Longrightarrow>
     loaded_config rt \<and> map pc_name (cf_providers (rt_config rt)) = [''main'']"
  "load (\<lambda>_. Some sample_config2) (\<lambda>_. '''') (\<lambda>_. Some ''x'') sample_path = Inr rt' \<Longrightarrow>
     loaded_config rt' \<and> map pc_name (cf_providers (rt_config rt')) = [''main''] \<and>
     cp_enabled (circuitPolicyFor rt' ''main'')"
  using sample_circuits_ok
  by (auto simp: loaded_config_def sample_load_def sample_load2_def sample_path_def circuits_policy_wf
      split: sum.splits)

theorem gateway_reachable_inv_witness:
  "\<exists>g :: unit gateway. gateway_reachable (isolateOperationsEndpoints g) \<and>
     gateway_wf (isolateOperationsEndpoints g) \<and> mt_in_flight (gw_metrics (isolateOperationsEndpoints g)) = 0"
proof -
  obtain rt mgr where rt: "load (\<lambda>_. Some sample_config) (\<lambda>_. '''') (\<lambda>_. Some ''x'') sample_path = Inr rt"
    "newRateLimitManager no_connect '''' rt = Inr mgr" by (rule sample_reload)
  obtain g :: "unit gateway" where "new_gateway no_connect '''' id 0 rt = Inr g"
    using new_gateway_ready [OF load_runtime_ready [OF rt(1)] rt(2), of id 0] by blast
  with sample_loaded(1) [OF rt(1)] have "gateway_reachable (isolateOperationsEndpoints g)"
    by (metis gateway_reachable.intros gateway_step.isolated)
  with gateway_reachable_inv [OF this] show ?thesis by blast
qed

theorem reload_wedges_provider_witness:
  "\<exists>(g :: unit gateway) rt sha256 text_of res g1 pr. reload sha256 text_of 20 20 rt g = (res, g1) \<and>
     map_of (rs_providers (gw_runtime g1)) ''main'' = Some pr \<and>
     fst (round_trip (\<lambda>_. UpFailed ''refused'') id pr sample_call
       \<lparr>ur_method = ''GET'', ur_url = empty_url, ur_header = [], ur_body = None, ur_length = 0\<rparr> g1) =
     Inr (circuit_open_response nanos_second)"
proof -
  obtain rt rt' mgr where rt: "load (\<lambda>_. Some sample_config) (\<lambda>_. '''') (\<lambda>_. Some ''x'') sample_path = Inr rt"
    "load (\<lambda>_. Some sample_config2) (\<lambda>_. '''') (\<lambda>_. Some ''x'') sample_path = Inr rt'"
    "newRateLimitManager no_connect '''' rt = Inr mgr"
    "\<not> same_config (rt_config rt) (rt_config rt')" "validateHotReload rt rt' = Inr ()" by (rule sample_reload)
  note l = sample_loaded(1) [OF rt(1)] sample_loaded(2) [OF rt(2)]
  from l(1) have one: "length (cf_providers (rt_config rt)) = 1" by (metis length_map length_Cons list.size(3) One_nat_def)
  obtain g0 :: "unit gateway" where g0: "new_gateway no_connect '''' id 0 rt = Inr g0" "gw_runtime g0 = snapshot_of rt 0"
    using new_gateway_ready [OF load_runtime_ready [OF rt(1)] rt(3), of id 0] by blast
  define g where "g = g0\<lparr>gw_breakers := [tripped]\<rparr>"
  have t: "circuit_wf tripped" "cb_enabled tripped" "cb_state tripped = CircuitOpen" "cb_open_until tripped \<le> 20"
    by (simp_all add: tripped_def circuit_wf_def i64_bounds)
  have inv: "gateway_inv g"
    using start_inv [OF g0(1)] l(1) one t(1) by (auto simp: gateway_inv_def gateway_wf_def g_def g0(2) Let_def)
  obtain p where p: "p \<in> set (cf_providers (rt_config rt'))" "pc_name p = ''main''"
    using l(2) by (metis (no_types, lifting) image_iff list.set_intros(1) list.set_map)
  obtain q where q: "cf_providers (rt_config rt) = [q]" "pc_name q = ''main''"
    using l(1) by (cases "cf_providers (rt_config rt)") auto
  have old: "map_of (rs_providers (gw_runtime g)) (pc_name p) = Some (runtime_of rt q 0)"
    by (simp add: g_def g0(2) built_providers_def q p(2))
  obtain res g1 where r: "reload id (\<lambda>_. '''') 20 20 rt' g = (res, g1)" by (metis prod.collapse)
  have "\<not> same_config (rt_config (rs_cfg (gw_runtime g))) (rt_config rt')"
    "validateHotReload (rs_cfg (gw_runtime g)) rt' = Inr ()" "cp_enabled (circuitPolicyFor rt' (pc_name p))"
    "cb_enabled (gw_breakers g ! pr_breaker (runtime_of rt q 0))"
    "cb_state (gw_breakers g ! pr_breaker (runtime_of rt q 0)) = CircuitOpen"
    "cb_open_until (gw_breakers g ! pr_breaker (runtime_of rt q 0)) \<le> 20"
    using rt(4,5) l(2) t p(2) by (simp_all add: g_def g0(2))
  from reload_wedges_provider [OF inv _ this(1,2) p(1) this(3) old this(4-6) r rtranclp.rtrancl_refl] l(2) p(2) r
  show ?thesis by metis
qed

end
