(* ===== verification/Tui_Setup.thy ===== *)
theory Tui_Setup
  imports Rate_Backend Log_Ring Gw_Metrics Go_Json
begin

section \<open>The first-time setup wizard (internal/tui/setup.go)\<close>

text \<open>
  The form as a state machine over key presses, its result, and the configuration text it
  writes. Bubble Tea delivers messages and runs \<open>Update\<close> on each until \<open>tea.Quit\<close>, a signal or
  a failure ends the program; a key press is the text of \<open>KeyPressMsg.String\<close>. The labels,
  hints and masks of the form are constants of the struct.
\<close>


subsection \<open>Runes\<close>

text \<open>
  \<open>[]rune(s)\<close>, each rune by its encoding; a byte that starts no well-formed encoding is the
  replacement character, so \<open>string(runes)\<close> is the concatenation.
\<close>

definition replacement_rune :: string where "replacement_rune = [CHR 0xEF, CHR 0xBF, CHR 0xBD]"

function runes :: "string \<Rightarrow> string list" where
  "runes [] = []"
| "runes (c # cs) =
     (let n = utf8_len (c # cs) in
      if n = 0 then replacement_rune # runes cs else take n (c # cs) # runes (drop n (c # cs)))"
  by pat_completeness auto
termination by (relation "measure length") auto

lemma utf8_len_ascii: "byte c < 128 \<Longrightarrow> utf8_len (c # cs) = 1"
  by (simp add: utf8_len_def utf8_width_def)

lemma runes_ascii: "\<forall>c \<in> set s. byte c < 128 \<Longrightarrow> runes s = map (\<lambda>c. [c]) s"
  by (induction s) (simp_all add: utf8_len_ascii)

lemma concat_singletons [simp]: "concat (map (\<lambda>c. [c]) s) = s"
  by (induction s) auto


subsection \<open>Tokens and addresses\<close>

definition clientTokenPrefix :: string where "clientTokenPrefix = ''gg-''"

definition AccessToken :: "string \<Rightarrow> string" where
  "AccessToken token =
     (let token = trim_space token in
      if prefix clientTokenPrefix (to_lower token) then token else clientTokenPrefix @ token)"

text \<open>16 random bytes, the argument.\<close>

definition randomToken :: "string \<Rightarrow> string" where
  "randomToken b = AccessToken (hex_encode b)"

definition LocalBaseURL :: "string \<Rightarrow> string" where
  "LocalBaseURL addr =
     (let addr = trim_space addr in
      if addr = '''' \<or> prefix '':'' addr then ''http://localhost'' @ addr
      else if prefix ''0.0.0.0:'' addr then ''http://localhost:'' @ trim_prefix addr ''0.0.0.0:''
      else if prefix ''127.0.0.1:'' addr \<or> prefix ''localhost:'' addr then ''http://'' @ addr
      else ''http://'' @ addr)"


subsection \<open>The form\<close>

abbreviation (input) sfAPIKey :: nat where "sfAPIKey \<equiv> 0"
abbreviation (input) sfToken :: nat where "sfToken \<equiv> 1"
abbreviation (input) sfListen :: nat where "sfListen \<equiv> 2"
abbreviation (input) sfClientName :: nat where "sfClientName \<equiv> 3"
abbreviation (input) sfDone :: nat where "sfDone \<equiv> 4"

record setup_model =
  sm_fields :: "string list"
  sm_active :: nat
  sm_err :: string
  sm_submitted :: bool
  sm_cancelled :: bool
  sm_config_path :: string
  sm_width :: int

definition setup_labels :: "string list" where
  "setup_labels = [''Gemini API Key'', ''GemGate Token (your client bearer token)'', ''Listen address'', ''Client name'']"

definition newSetup :: "string \<Rightarrow> string \<Rightarrow> setup_model" where
  "newSetup configPath random =
     \<lparr>sm_fields = ['''', randomToken random, '':8080'', ''local-dev''], sm_active = sfAPIKey, sm_err = '''',
      sm_submitted = False, sm_cancelled = False, sm_config_path = configPath, sm_width = 0\<rparr>"

datatype setup_msg = WindowSize int int | KeyPress string | OtherMsg

definition empty_error :: "nat \<Rightarrow> string" where
  "empty_error i = setup_labels ! i @ '' cannot be empty''"

definition validateCurrent :: "setup_model \<Rightarrow> string" where
  "validateCurrent sm =
     (if trim_space (sm_fields sm ! sm_active sm) = '''' then empty_error (sm_active sm) else '''')"

text \<open>The loop of \<open>validateAll\<close>, from field \<open>i\<close>.\<close>

fun validate_from :: "nat \<Rightarrow> string list \<Rightarrow> string" where
  "validate_from i [] = ''''"
| "validate_from i (v # vs) = (if trim_space v = '''' then empty_error i else validate_from (Suc i) vs)"

definition validateAll :: "setup_model \<Rightarrow> string" where
  "validateAll sm = validate_from 0 (sm_fields sm)"

definition edit_field :: "(string \<Rightarrow> string) \<Rightarrow> setup_model \<Rightarrow> setup_model" where
  "edit_field f sm =
     sm\<lparr>sm_fields := (sm_fields sm)[sm_active sm := f (sm_fields sm ! sm_active sm)], sm_err := ''''\<rparr>"

definition drop_last_rune :: "string \<Rightarrow> string" where
  "drop_last_rune f = (if 0 < length f then concat (butlast (runes f)) else f)"

definition setup_enter :: "setup_model \<Rightarrow> setup_model \<times> bool" where
  "setup_enter sm =
     (if sm_active sm < sfDone - 1 then
        (let err = validateCurrent sm in
         if err \<noteq> '''' then (sm\<lparr>sm_err := err\<rparr>, False)
         else (sm\<lparr>sm_err := '''', sm_active := sm_active sm + 1\<rparr>, False))
      else
        (let err = validateAll sm in
         if err \<noteq> '''' then (sm\<lparr>sm_err := err\<rparr>, False) else (sm\<lparr>sm_submitted := True\<rparr>, True)))"

text \<open>The flag is the command \<open>tea.Quit\<close>.\<close>

definition setup_key :: "string \<Rightarrow> setup_model \<Rightarrow> setup_model \<times> bool" where
  "setup_key k sm =
     (if k = ''ctrl+c'' \<or> k = ''esc'' then (sm\<lparr>sm_cancelled := True\<rparr>, True)
      else if k = ''enter'' then setup_enter sm
      else if k = ''tab'' then
        (if sm_active sm < sfDone - 1 then sm\<lparr>sm_active := sm_active sm + 1\<rparr> else sm, False)
      else if k = ''shift+tab'' then (if 0 < sm_active sm then sm\<lparr>sm_active := sm_active sm - 1\<rparr> else sm, False)
      else if k = ''backspace'' then (edit_field drop_last_rune sm, False)
      else (if length k = 1 \<and> 32 \<le> byte (hd k) then edit_field (\<lambda>f. f @ k) sm else sm, False))"

definition setup_update :: "setup_msg \<Rightarrow> setup_model \<Rightarrow> setup_model \<times> bool" where
  "setup_update msg sm =
     (case msg of
        WindowSize w _ \<Rightarrow> (sm\<lparr>sm_width := w\<rparr>, False)
      | KeyPress k \<Rightarrow> setup_key k sm
      | OtherMsg \<Rightarrow> (sm, False))"


subsection \<open>Running the wizard\<close>

record setup_result =
  sr_api_key :: string
  sr_token :: string
  sr_listen :: string
  sr_client_name :: string
  sr_config_path :: string
  sr_cancelled :: bool

definition setup_result_of :: "setup_model \<Rightarrow> setup_result" where
  "setup_result_of sm =
     \<lparr>sr_api_key = trim_space (sm_fields sm ! sfAPIKey),
      sr_token = AccessToken (trim_space (sm_fields sm ! sfToken)),
      sr_listen = trim_space (sm_fields sm ! sfListen),
      sr_client_name = trim_space (sm_fields sm ! sfClientName),
      sr_config_path = sm_config_path sm, sr_cancelled = sm_cancelled sm\<rparr>"

definition cancelled_result :: setup_result where
  "cancelled_result = \<lparr>sr_api_key = '''', sr_token = '''', sr_listen = '''', sr_client_name = '''',
     sr_config_path = '''', sr_cancelled = True\<rparr>"

text \<open>The event loop: \<open>Update\<close> on every message up to the first \<open>tea.Quit\<close>.\<close>

fun setup_loop :: "setup_model \<Rightarrow> setup_msg list \<Rightarrow> setup_model \<times> bool" where
  "setup_loop sm [] = (sm, False)"
| "setup_loop sm (msg # msgs) =
     (let (sm, quit) = setup_update msg sm in if quit then (sm, True) else setup_loop sm msgs)"

text \<open>
  How \<open>Program.Run\<close> ends once the messages are handled: without an error (the form quit, or
  a \<open>SIGTERM\<close>), with \<open>tea.ErrInterrupted\<close> (a \<open>SIGINT\<close> from outside), or with another error.
\<close>

datatype program_end = ProgramDone | ProgramInterrupted | ProgramFailed string

definition runSetup ::
  "string \<Rightarrow> string \<Rightarrow> setup_msg list \<Rightarrow> program_end \<Rightarrow> setup_result \<times> string option" where
  "runSetup configPath random msgs fin =
     (case fin of
        ProgramFailed e \<Rightarrow> (cancelled_result, Some e)
      | _ \<Rightarrow> (setup_result_of (fst (setup_loop (newSetup configPath random) msgs)), None))"


subsection \<open>The configuration it writes\<close>

definition quoted :: "string \<Rightarrow> string" where "quoted s = dq # s @ [dq]"

definition config_template :: "setup_result \<Rightarrow> string" where
  "config_template r = concat (map (\<lambda>l. l @ [nl])
     [''server:'',
      ''  listen: '' @ quoted (sr_listen r),
      ''  read_timeout: '' @ quoted ''30s'',
      ''  write_timeout: '' @ quoted ''0s'',
      ''  idle_timeout: '' @ quoted ''120s'',
      ''  public_health: true'',
      ''  request_body_limit: '' @ quoted ''32MiB'',
      '''',
      ''upstream:'',
      ''  base_url: '' @ quoted ''https://generativelanguage.googleapis.com'',
      ''  api_key: '' @ quoted (sr_api_key r),
      ''  timeout: '' @ quoted ''0s'',
      '''',
      ''clients:'',
      ''  - name: '' @ quoted (sr_client_name r),
      ''    token: '' @ quoted (sr_token r),
      ''    enabled: true'',
      ''    rate_limit_rpm: 0'',
      '''',
      ''logging:'',
      ''  recent: 300'',
      ''  log_body: false'',
      ''  log_headers: false''])"

text \<open>\<open>os.WriteFile\<close> with the outcome \<open>failed\<close>: the error, or the file and its content.\<close>

definition writeConfig :: "string option \<Rightarrow> setup_result \<Rightarrow> string + string \<times> string" where
  "writeConfig failed r =
     (case failed of Some e \<Rightarrow> Inl e | None \<Rightarrow> Inr (sr_config_path r, config_template r))"


subsection \<open>The shape of the form\<close>

definition form_wf :: "setup_model \<Rightarrow> bool" where
  "form_wf sm \<longleftrightarrow>
     length (sm_fields sm) = sfDone \<and> sm_active sm < sfDone \<and>
     (\<forall>v \<in> set (sm_fields sm). \<forall>c \<in> set v. byte c < 128)"

text \<open>Keys whose text is well-formed UTF-8, so a text of one byte is ASCII.\<close>

definition key_wf :: "setup_msg \<Rightarrow> bool" where
  "key_wf msg \<longleftrightarrow> (\<forall>k. msg = KeyPress k \<longrightarrow> length k = 1 \<longrightarrow> byte (hd k) < 128)"

lemma form_wfI:
  "form_wf sm \<Longrightarrow> sm_fields sm' = sm_fields sm \<Longrightarrow> sm_active sm' < sfDone \<Longrightarrow> form_wf sm'"
  by (simp add: form_wf_def)

lemma form_wf_field: "form_wf sm \<Longrightarrow> c \<in> set (sm_fields sm ! sm_active sm) \<Longrightarrow> byte c < 128"
  by (force simp: form_wf_def)

lemma drop_last_rune_ascii: "\<forall>c \<in> set f. byte c < 128 \<Longrightarrow> drop_last_rune f = butlast f"
  by (auto simp: drop_last_rune_def runes_ascii simp flip: map_butlast)

lemma edit_field_wf:
  assumes "form_wf sm" "\<And>c. c \<in> set (f (sm_fields sm ! sm_active sm)) \<Longrightarrow> byte c < 128"
  shows "form_wf (edit_field f sm)"
  using assms by (auto simp: form_wf_def edit_field_def dest!: set_update_subset_insert [THEN subsetD])

lemma AccessToken_nonempty: "AccessToken t \<noteq> ''''"
  by (auto simp: AccessToken_def clientTokenPrefix_def Let_def)

lemma newSetup_wf: "form_wf (newSetup path random)"
proof -
  have hex: "byte c < 128" if "c \<in> set (hex_encode random)" for c
    using hex_encode_chars [OF that] by (auto simp: is_digit_def is_lower_def)
  have "byte c < 128" if "c \<in> set (randomToken random)" for c
    using that set_trim_space [of "hex_encode random"] hex
    by (auto simp: randomToken_def AccessToken_def clientTokenPrefix_def Let_def split: if_splits)
  then show ?thesis by (auto simp: form_wf_def newSetup_def)
qed

lemma setup_key_wf:
  assumes "form_wf sm" "key_wf (KeyPress k)" "setup_key k sm = (sm', quit)"
  shows "form_wf sm'"
proof -
  have "form_wf (edit_field drop_last_rune sm)"
    using form_wf_field [OF assms(1)] in_set_butlastD
    by (intro edit_field_wf [OF assms(1)]) (fastforce simp: drop_last_rune_ascii)
  moreover have "form_wf (edit_field (\<lambda>f. f @ k) sm)" if "length k = 1"
    using form_wf_field [OF assms(1)] assms(2) that
    by (intro edit_field_wf [OF assms(1)]) (auto simp: key_wf_def length_Suc_conv)
  moreover have "sm_active sm < sfDone" using assms(1) by (simp add: form_wf_def)
  ultimately show ?thesis
    using assms
    by (auto simp: setup_key_def setup_enter_def Let_def split: if_splits intro: form_wfI [OF assms(1)])
qed

lemma setup_update_wf:
  assumes "form_wf sm" "key_wf msg" "setup_update msg sm = (sm', quit)"
  shows "form_wf sm'"
  using assms setup_key_wf [OF assms(1)] form_wfI [OF assms(1), of sm']
  by (auto simp: setup_update_def form_wf_def split: setup_msg.splits)

end
