(* ===== verification/Wizard_Yaml.thy ===== *)
theory Wizard_Yaml
  imports Tui_Setup Config_Types
begin

section \<open>The YAML the wizard writes\<close>

text \<open>
  A reader of the small part of YAML that the wizard's file is written in: sections at the left
  margin, each a mapping with two blanks before its keys or a list of mappings (\<open>  - key: value\<close>,
  then \<open>    key: value\<close>), one-line scalars (printable ASCII between double quotes without escapes,
  \<open>true\<close>, \<open>false\<close>, decimal numbers) and blank lines. The leaves go to the fields their struct
  tags name. The YAML package reads more than this; what the gateway relies on is that it
  reads this part as written (\<open>yaml_decoder\<close>).
\<close>


subsection \<open>Lines\<close>

datatype yaml_scalar = YText string | YBool bool | YInt int

datatype yaml_line =
  YBlank | YSection string | YEntry string yaml_scalar | YItem string yaml_scalar | YMore string yaml_scalar

text \<open>Bytes that stand for themselves between double quotes.\<close>

definition plain_byte :: "char \<Rightarrow> bool" where
  "plain_byte c \<longleftrightarrow> 32 \<le> byte c \<and> byte c < 127 \<and> c \<noteq> dq \<and> c \<noteq> CHR 0x5C"

definition read_scalar :: "string \<Rightarrow> yaml_scalar option" where
  "read_scalar s =
     (if 2 \<le> length s \<and> hd s = dq \<and> last s = dq \<and> list_all plain_byte (butlast (tl s))
      then Some (YText (butlast (tl s)))
      else if s = ''true'' then Some (YBool True)
      else if s = ''false'' then Some (YBool False)
      else if s = ''0'' \<or> s \<noteq> '''' \<and> length s \<le> 9 \<and> list_all is_digit s \<and> hd s \<noteq> CHR ''0''
      then Some (YInt (foldl (\<lambda>n c. 10 * n + (int (byte c) - 48)) 0 s))
      else None)"

definition yaml_key :: "string \<Rightarrow> bool" where
  "yaml_key k \<longleftrightarrow> k \<noteq> '''' \<and> list_all (\<lambda>c. is_lower c \<or> c = CHR ''_'') k"

text \<open>\<open>key: value\<close>.\<close>

definition read_pair :: "string \<Rightarrow> (string \<times> yaml_scalar) option" where
  "read_pair s =
     (case split_first CHR '':'' s of
        Some (k, CHR '' '' # rest) \<Rightarrow> if yaml_key k then map_option (Pair k) (read_scalar rest) else None
      | _ \<Rightarrow> None)"

definition read_line :: "string \<Rightarrow> yaml_line option" where
  "read_line l =
     (if l = '''' then Some YBlank
      else if prefix ''    '' l then map_option (\<lambda>(k, v). YMore k v) (read_pair (drop 4 l))
      else if prefix ''  - '' l then map_option (\<lambda>(k, v). YItem k v) (read_pair (drop 4 l))
      else if prefix ''  '' l then map_option (\<lambda>(k, v). YEntry k v) (read_pair (drop 2 l))
      else if last l = CHR '':'' \<and> yaml_key (butlast l) then Some (YSection (butlast l))
      else None)"


subsection \<open>Leaves\<close>

datatype yaml_place = InMapping | InItem nat

type_synonym yaml_leaf = "(string \<times> yaml_place \<times> string) \<times> yaml_scalar"

text \<open>The section read and the place in it, \<open>None\<close> as long as nothing of it has been read.\<close>

fun leaves_from :: "(string \<times> yaml_place option) option \<Rightarrow> yaml_line list \<Rightarrow> yaml_leaf list option" where
  "leaves_from here [] = (case here of Some (_, None) \<Rightarrow> None | _ \<Rightarrow> Some [])"
| "leaves_from here (YBlank # ls) = leaves_from here ls"
| "leaves_from here (YSection s # ls) =
     (case here of Some (_, None) \<Rightarrow> None | _ \<Rightarrow> leaves_from (Some (s, None)) ls)"
| "leaves_from here (YEntry k v # ls) =
     (case here of
        Some (s, place) \<Rightarrow>
          (if place = None \<or> place = Some InMapping
           then map_option (Cons ((s, InMapping, k), v)) (leaves_from (Some (s, Some InMapping)) ls) else None)
      | None \<Rightarrow> None)"
| "leaves_from here (YItem k v # ls) =
     (case here of
        Some (s, None) \<Rightarrow> map_option (Cons ((s, InItem 0, k), v)) (leaves_from (Some (s, Some (InItem 0))) ls)
      | Some (s, Some (InItem i)) \<Rightarrow>
          map_option (Cons ((s, InItem (Suc i), k), v)) (leaves_from (Some (s, Some (InItem (Suc i)))) ls)
      | _ \<Rightarrow> None)"
| "leaves_from here (YMore k v # ls) =
     (case here of
        Some (s, Some (InItem i)) \<Rightarrow> map_option (Cons ((s, InItem i, k), v)) (leaves_from here ls)
      | _ \<Rightarrow> None)"

definition yaml_sections :: "yaml_line list \<Rightarrow> string list" where
  "yaml_sections ls = concat (map (\<lambda>l. case l of YSection s \<Rightarrow> [s] | _ \<Rightarrow> []) ls)"

text \<open>
  A key given twice is an error of YAML, and a text with nothing in it is the end of the input
  to a decoder, so neither is part of what is read here.
\<close>

definition yaml_leaves :: "string \<Rightarrow> yaml_leaf list option" where
  "yaml_leaves text =
     Option.bind (those (map read_line (split_on nl text))) (\<lambda>ls.
       if distinct (yaml_sections ls)
       then Option.bind (leaves_from None ls) (\<lambda>lv. if lv \<noteq> [] \<and> distinct (map fst lv) then Some lv else None)
       else None)"


subsection \<open>Fields\<close>

text \<open>
  The struct tags, field by field. A field of another type, an unknown one (\<open>KnownFields\<close>) and
  one of a section this reader does not cover is \<open>None\<close>; so are \<open>log_body\<close> and \<open>log_headers\<close>
  unless they are false, which \<open>LoggingConfig.UnmarshalYAML\<close> refuses.
\<close>

definition set_server_field :: "string \<Rightarrow> yaml_scalar \<Rightarrow> server_config \<Rightarrow> server_config option" where
  "set_server_field k v s =
     (case v of
        YText t \<Rightarrow>
          (if k = ''listen'' then Some (s\<lparr>sv_listen := t\<rparr>)
           else if k = ''read_timeout'' then Some (s\<lparr>sv_read_timeout := t\<rparr>)
           else if k = ''write_timeout'' then Some (s\<lparr>sv_write_timeout := t\<rparr>)
           else if k = ''idle_timeout'' then Some (s\<lparr>sv_idle_timeout := t\<rparr>)
           else if k = ''request_body_limit'' then Some (s\<lparr>sv_body_limit := t\<rparr>)
           else None)
      | YBool b \<Rightarrow> if k = ''public_health'' then Some (s\<lparr>sv_public_health := b\<rparr>) else None
      | YInt _ \<Rightarrow> None)"

definition set_upstream_field :: "string \<Rightarrow> yaml_scalar \<Rightarrow> upstream_config \<Rightarrow> upstream_config option" where
  "set_upstream_field k v u =
     (case v of
        YText t \<Rightarrow>
          (if k = ''base_url'' then Some (u\<lparr>up_base_url := t\<rparr>)
           else if k = ''api_key'' then Some (u\<lparr>up_api_key := t\<rparr>)
           else if k = ''api_key_file'' then Some (u\<lparr>up_api_key_file := t\<rparr>)
           else if k = ''timeout'' then Some (u\<lparr>up_timeout := t\<rparr>)
           else None)
      | _ \<Rightarrow> None)"

definition set_operations_field :: "string \<Rightarrow> yaml_scalar \<Rightarrow> operations_config \<Rightarrow> operations_config option" where
  "set_operations_field k v p =
     (case v of
        YText t \<Rightarrow>
          (if k = ''token'' then Some (p\<lparr>op_token := t\<rparr>)
           else if k = ''token_file'' then Some (p\<lparr>op_token_file := t\<rparr>)
           else None)
      | _ \<Rightarrow> None)"

definition set_client_field :: "string \<Rightarrow> yaml_scalar \<Rightarrow> client_config \<Rightarrow> client_config option" where
  "set_client_field k v c =
     (case v of
        YText t \<Rightarrow>
          (if k = ''name'' then Some (c\<lparr>cl_name := t\<rparr>)
           else if k = ''token'' then Some (c\<lparr>cl_token := t\<rparr>)
           else if k = ''token_file'' then Some (c\<lparr>cl_token_file := t\<rparr>)
           else None)
      | YBool b \<Rightarrow> if k = ''enabled'' then Some (c\<lparr>cl_enabled := b\<rparr>) else None
      | YInt n \<Rightarrow> if k = ''rate_limit_rpm'' then Some (c\<lparr>cl_rate_limit_rpm := n\<rparr>) else None)"

definition set_logging_field :: "string \<Rightarrow> yaml_scalar \<Rightarrow> logging_config \<Rightarrow> logging_config option" where
  "set_logging_field k v l =
     (case v of
        YText _ \<Rightarrow> None
      | YBool b \<Rightarrow> if \<not> b \<and> (k = ''log_body'' \<or> k = ''log_headers'') then Some l else None
      | YInt n \<Rightarrow> if k = ''recent'' then Some (l\<lparr>lg_recent := n\<rparr>) else None)"

definition no_client :: client_config where
  "no_client = \<lparr>cl_name = '''', cl_token = '''', cl_token_file = '''', cl_enabled = False, cl_rate_limit_rpm = 0\<rparr>"

definition empty_config :: config where
  "empty_config =
     \<lparr>cf_server = \<lparr>sv_listen = '''', sv_read_timeout = '''', sv_write_timeout = '''', sv_idle_timeout = '''',
        sv_public_health = False, sv_body_limit = '''', sv_trusted_proxies = [],
        sv_cors = \<lparr>co_enabled = None, co_origins = [], co_methods = [], co_headers = [],
          co_credentials = False, co_max_age = ''''\<rparr>\<rparr>,
      cf_upstream = \<lparr>up_base_url = '''', up_api_key = '''', up_api_key_file = '''', up_timeout = ''''\<rparr>,
      cf_providers = [], cf_default_provider = '''',
      cf_operations = \<lparr>op_token = '''', op_token_file = ''''\<rparr>, cf_clients = [],
      cf_rate_limit = \<lparr>rl_backend = '''', rl_redis = \<lparr>rc_url = '''', rc_url_file = '''',
        rc_key_prefix = '''', rc_timeout = '''', rc_fail_open = False\<rparr>\<rparr>,
      cf_telemetry = \<lparr>te_enabled = False, te_service_name = '''', te_endpoint = '''',
        te_sample_ratio = Some 0, te_environment = '''', te_propagate = False\<rparr>,
      cf_logging = \<lparr>lg_recent = 0, lg_log_body = False, lg_log_headers = False\<rparr>\<rparr>"

fun set_leaf :: "yaml_leaf \<Rightarrow> config \<Rightarrow> config option" where
  "set_leaf ((s, InMapping, k), v) c =
     (if s = ''server'' then map_option (\<lambda>x. c\<lparr>cf_server := x\<rparr>) (set_server_field k v (cf_server c))
      else if s = ''upstream'' then map_option (\<lambda>x. c\<lparr>cf_upstream := x\<rparr>) (set_upstream_field k v (cf_upstream c))
      else if s = ''operations''
      then map_option (\<lambda>x. c\<lparr>cf_operations := x\<rparr>) (set_operations_field k v (cf_operations c))
      else if s = ''logging'' then map_option (\<lambda>x. c\<lparr>cf_logging := x\<rparr>) (set_logging_field k v (cf_logging c))
      else None)"
| "set_leaf ((s, InItem i, k), v) c =
     (if s = ''clients'' then
        (let cs = (if i = length (cf_clients c) then cf_clients c @ [no_client] else cf_clients c) in
         if i < length cs then map_option (\<lambda>x. c\<lparr>cf_clients := cs[i := x]\<rparr>) (set_client_field k v (cs ! i)) else None)
      else None)"

definition config_of_leaves :: "yaml_leaf list \<Rightarrow> config option" where
  "config_of_leaves ls = foldl (\<lambda>c leaf. Option.bind c (set_leaf leaf)) (Some empty_config) ls"

text \<open>The YAML package on this part of YAML, and a decoder that knows nothing else.\<close>

definition yaml_decoder :: "(string \<Rightarrow> config option) \<Rightarrow> bool" where
  "yaml_decoder decode \<longleftrightarrow>
     (\<forall>text leaves c. yaml_leaves text = Some leaves \<and> config_of_leaves leaves = Some c \<longrightarrow> decode text = Some c)"

definition yaml_decode :: "string \<Rightarrow> config option" where
  "yaml_decode text = Option.bind (yaml_leaves text) config_of_leaves"

lemma yaml_decode_decoder: "yaml_decoder yaml_decode"
  by (simp add: yaml_decoder_def yaml_decode_def)


subsection \<open>The configuration in the template\<close>

text \<open>Values that YAML reads back between double quotes and that hold no variable reference.\<close>

definition plain_value :: "string \<Rightarrow> bool" where
  "plain_value v \<longleftrightarrow> list_all plain_byte v \<and> CHR ''$'' \<notin> set v"

definition wizard_config :: "setup_result \<Rightarrow> config" where
  "wizard_config r =
     \<lparr>cf_server = \<lparr>sv_listen = sr_listen r, sv_read_timeout = ''30s'', sv_write_timeout = ''0s'',
        sv_idle_timeout = ''120s'', sv_public_health = True, sv_body_limit = ''32MiB'', sv_trusted_proxies = [],
        sv_cors = \<lparr>co_enabled = None, co_origins = [], co_methods = [], co_headers = [],
          co_credentials = False, co_max_age = ''''\<rparr>\<rparr>,
      cf_upstream = \<lparr>up_base_url = ''https://generativelanguage.googleapis.com'', up_api_key = sr_api_key r,
        up_api_key_file = '''', up_timeout = ''0s''\<rparr>,
      cf_providers = [], cf_default_provider = '''',
      cf_operations = \<lparr>op_token = '''', op_token_file = ''''\<rparr>,
      cf_clients = [\<lparr>cl_name = sr_client_name r, cl_token = sr_token r, cl_token_file = '''', cl_enabled = True,
        cl_rate_limit_rpm = 0\<rparr>],
      cf_rate_limit = \<lparr>rl_backend = '''', rl_redis = \<lparr>rc_url = '''', rc_url_file = '''',
        rc_key_prefix = '''', rc_timeout = '''', rc_fail_open = False\<rparr>\<rparr>,
      cf_telemetry = \<lparr>te_enabled = False, te_service_name = '''', te_endpoint = '''',
        te_sample_ratio = Some 0, te_environment = '''', te_propagate = False\<rparr>,
      cf_logging = \<lparr>lg_recent = 300, lg_log_body = False, lg_log_headers = False\<rparr>\<rparr>"

lemma split_on_lines:
  "\<forall>l \<in> set ls. nl \<notin> set l \<Longrightarrow> split_on nl (concat (map (\<lambda>l. l @ [nl]) ls)) = ls @ ['''']"
proof (induction ls)
  case (Cons l ls)
  have "split_on nl (l @ nl # concat (map (\<lambda>l. l @ [nl]) ls)) = l # split_on nl (concat (map (\<lambda>l. l @ [nl]) ls))"
    using Cons.prems by (intro split_on_append) simp
  moreover have "split_on nl (concat (map (\<lambda>l. l @ [nl]) ls)) = ls @ ['''']" using Cons by simp
  ultimately show ?case by (simp only: list.map concat.simps append_assoc append.simps)
qed simp

lemma plain_no_newline: "list_all plain_byte v \<Longrightarrow> nl \<notin> set v"
proof -
  have "\<not> plain_byte nl" by code_simp
  then show "list_all plain_byte v \<Longrightarrow> nl \<notin> set v" by (metis list.pred_set)
qed

lemma read_scalar_quoted: "list_all plain_byte v \<Longrightarrow> read_scalar (quoted v) = Some (YText v)"
  by (simp add: read_scalar_def quoted_def)

lemma read_pair_quoted:
  assumes "CHR '':'' \<notin> set k" "yaml_key k" "list_all plain_byte v"
  shows "read_pair (k @ '': '' @ quoted v) = Some (k, YText v)"
proof -
  have "split_first CHR '':'' (k @ CHR '':'' # '' '' @ quoted v) = Some (k, '' '' @ quoted v)"
    using assms(1) by (rule split_first_append)
  with assms(2,3) show ?thesis by (simp add: read_pair_def read_scalar_quoted)
qed

lemma read_quoted_lines:
  assumes "CHR '':'' \<notin> set k" "yaml_key k" "list_all plain_byte v"
  shows "read_line (''  '' @ k @ '': '' @ quoted v) = Some (YEntry k (YText v))"
    and "read_line (''  - '' @ k @ '': '' @ quoted v) = Some (YItem k (YText v))"
    and "read_line (''    '' @ k @ '': '' @ quoted v) = Some (YMore k (YText v))"
proof -
  obtain c cs where c: "k = c # cs" using assms(2) by (cases k) (auto simp: yaml_key_def)
  then have "c \<noteq> CHR '' ''" "c \<noteq> CHR ''-''" using assms(2) by (auto simp: yaml_key_def is_lower_def)
  note k = c this
  show "read_line (''  '' @ k @ '': '' @ quoted v) = Some (YEntry k (YText v))"
    "read_line (''  - '' @ k @ '': '' @ quoted v) = Some (YItem k (YText v))"
    "read_line (''    '' @ k @ '': '' @ quoted v) = Some (YMore k (YText v))"
    using read_pair_quoted [OF assms] k by (simp_all add: read_line_def)
qed

definition template_lines :: "setup_result \<Rightarrow> yaml_line list" where
  "template_lines r =
     [YSection ''server'', YEntry ''listen'' (YText (sr_listen r)), YEntry ''read_timeout'' (YText ''30s''),
      YEntry ''write_timeout'' (YText ''0s''), YEntry ''idle_timeout'' (YText ''120s''),
      YEntry ''public_health'' (YBool True), YEntry ''request_body_limit'' (YText ''32MiB''), YBlank,
      YSection ''upstream'', YEntry ''base_url'' (YText ''https://generativelanguage.googleapis.com''),
      YEntry ''api_key'' (YText (sr_api_key r)), YEntry ''timeout'' (YText ''0s''), YBlank,
      YSection ''clients'', YItem ''name'' (YText (sr_client_name r)), YMore ''token'' (YText (sr_token r)),
      YMore ''enabled'' (YBool True), YMore ''rate_limit_rpm'' (YInt 0), YBlank,
      YSection ''logging'', YEntry ''recent'' (YInt 300), YEntry ''log_body'' (YBool False),
      YEntry ''log_headers'' (YBool False), YBlank]"

definition template_leaves :: "setup_result \<Rightarrow> yaml_leaf list" where
  "template_leaves r =
     [((''server'', InMapping, ''listen''), YText (sr_listen r)),
      ((''server'', InMapping, ''read_timeout''), YText ''30s''),
      ((''server'', InMapping, ''write_timeout''), YText ''0s''),
      ((''server'', InMapping, ''idle_timeout''), YText ''120s''),
      ((''server'', InMapping, ''public_health''), YBool True),
      ((''server'', InMapping, ''request_body_limit''), YText ''32MiB''),
      ((''upstream'', InMapping, ''base_url''), YText ''https://generativelanguage.googleapis.com''),
      ((''upstream'', InMapping, ''api_key''), YText (sr_api_key r)),
      ((''upstream'', InMapping, ''timeout''), YText ''0s''),
      ((''clients'', InItem 0, ''name''), YText (sr_client_name r)),
      ((''clients'', InItem 0, ''token''), YText (sr_token r)),
      ((''clients'', InItem 0, ''enabled''), YBool True),
      ((''clients'', InItem 0, ''rate_limit_rpm''), YInt 0),
      ((''logging'', InMapping, ''recent''), YInt 300),
      ((''logging'', InMapping, ''log_body''), YBool False),
      ((''logging'', InMapping, ''log_headers''), YBool False)]"

lemma fixed_lines:
  "read_line '''' = Some YBlank" "read_line ''server:'' = Some (YSection ''server'')"
  "read_line ''upstream:'' = Some (YSection ''upstream'')" "read_line ''clients:'' = Some (YSection ''clients'')"
  "read_line ''logging:'' = Some (YSection ''logging'')"
  "read_line ''  public_health: true'' = Some (YEntry ''public_health'' (YBool True))"
  "read_line ''    enabled: true'' = Some (YMore ''enabled'' (YBool True))"
  "read_line ''    rate_limit_rpm: 0'' = Some (YMore ''rate_limit_rpm'' (YInt 0))"
  "read_line ''  recent: 300'' = Some (YEntry ''recent'' (YInt 300))"
  "read_line ''  log_body: false'' = Some (YEntry ''log_body'' (YBool False))"
  "read_line ''  log_headers: false'' = Some (YEntry ''log_headers'' (YBool False))"
  by code_simp+

lemma quoted_lines:
  "list_all plain_byte v \<Longrightarrow> read_line (''  listen: '' @ quoted v) = Some (YEntry ''listen'' (YText v))"
  "list_all plain_byte v \<Longrightarrow> read_line (''  read_timeout: '' @ quoted v) = Some (YEntry ''read_timeout'' (YText v))"
  "list_all plain_byte v \<Longrightarrow> read_line (''  write_timeout: '' @ quoted v) = Some (YEntry ''write_timeout'' (YText v))"
  "list_all plain_byte v \<Longrightarrow> read_line (''  idle_timeout: '' @ quoted v) = Some (YEntry ''idle_timeout'' (YText v))"
  "list_all plain_byte v \<Longrightarrow>
     read_line (''  request_body_limit: '' @ quoted v) = Some (YEntry ''request_body_limit'' (YText v))"
  "list_all plain_byte v \<Longrightarrow> read_line (''  base_url: '' @ quoted v) = Some (YEntry ''base_url'' (YText v))"
  "list_all plain_byte v \<Longrightarrow> read_line (''  api_key: '' @ quoted v) = Some (YEntry ''api_key'' (YText v))"
  "list_all plain_byte v \<Longrightarrow> read_line (''  timeout: '' @ quoted v) = Some (YEntry ''timeout'' (YText v))"
  "list_all plain_byte v \<Longrightarrow> read_line (''  - name: '' @ quoted v) = Some (YItem ''name'' (YText v))"
  "list_all plain_byte v \<Longrightarrow> read_line (''    token: '' @ quoted v) = Some (YMore ''token'' (YText v))"
proof -
  note q = read_quoted_lines [where v = v]
  have k: "yaml_key ''listen''" "yaml_key ''read_timeout''" "yaml_key ''write_timeout''" "yaml_key ''idle_timeout''"
    "yaml_key ''request_body_limit''" "yaml_key ''base_url''" "yaml_key ''api_key''" "yaml_key ''timeout''"
    "yaml_key ''name''" "yaml_key ''token''" by code_simp+
  show "list_all plain_byte v \<Longrightarrow> read_line (''  listen: '' @ quoted v) = Some (YEntry ''listen'' (YText v))"
    "list_all plain_byte v \<Longrightarrow> read_line (''  read_timeout: '' @ quoted v) = Some (YEntry ''read_timeout'' (YText v))"
    "list_all plain_byte v \<Longrightarrow> read_line (''  write_timeout: '' @ quoted v) = Some (YEntry ''write_timeout'' (YText v))"
    "list_all plain_byte v \<Longrightarrow> read_line (''  idle_timeout: '' @ quoted v) = Some (YEntry ''idle_timeout'' (YText v))"
    "list_all plain_byte v \<Longrightarrow>
     read_line (''  request_body_limit: '' @ quoted v) = Some (YEntry ''request_body_limit'' (YText v))"
    "list_all plain_byte v \<Longrightarrow> read_line (''  base_url: '' @ quoted v) = Some (YEntry ''base_url'' (YText v))"
    "list_all plain_byte v \<Longrightarrow> read_line (''  api_key: '' @ quoted v) = Some (YEntry ''api_key'' (YText v))"
    "list_all plain_byte v \<Longrightarrow> read_line (''  timeout: '' @ quoted v) = Some (YEntry ''timeout'' (YText v))"
    "list_all plain_byte v \<Longrightarrow> read_line (''  - name: '' @ quoted v) = Some (YItem ''name'' (YText v))"
    "list_all plain_byte v \<Longrightarrow> read_line (''    token: '' @ quoted v) = Some (YMore ''token'' (YText v))"
    using q(1) [OF _ k(1)] q(1) [OF _ k(2)] q(1) [OF _ k(3)] q(1) [OF _ k(4)] q(1) [OF _ k(5)] q(1) [OF _ k(6)]
      q(1) [OF _ k(7)] q(1) [OF _ k(8)] q(2) [OF _ k(9)] q(3) [OF _ k(10)]
    by simp_all
qed

lemma template_leaves_read: "leaves_from None (template_lines r) = Some (template_leaves r)"
  by (simp add: template_lines_def template_leaves_def)

lemma template_leaves_config: "config_of_leaves (template_leaves r) = Some (wizard_config r)"
  by (simp add: config_of_leaves_def template_leaves_def set_server_field_def set_upstream_field_def
      set_client_field_def set_logging_field_def empty_config_def no_client_def wizard_config_def Let_def)

lemma template_yaml:
  assumes "\<forall>v \<in> {sr_listen r, sr_api_key r, sr_client_name r, sr_token r}. plain_value v"
  shows "yaml_leaves (config_template r) = Some (template_leaves r)"
proof -
  have plain: "list_all plain_byte (sr_listen r)" "list_all plain_byte (sr_api_key r)"
    "list_all plain_byte (sr_client_name r)" "list_all plain_byte (sr_token r)"
    "list_all plain_byte ''30s''" "list_all plain_byte ''0s''" "list_all plain_byte ''120s''"
    "list_all plain_byte ''32MiB''" "list_all plain_byte ''https://generativelanguage.googleapis.com''"
    using assms by (simp_all add: plain_value_def) code_simp+
  note quoted = quoted_lines [OF plain(1)] quoted_lines [OF plain(2)] quoted_lines [OF plain(3)] quoted_lines [OF plain(4)]
    quoted_lines [OF plain(5)] quoted_lines [OF plain(6)] quoted_lines [OF plain(7)] quoted_lines [OF plain(8)]
    quoted_lines [OF plain(9)]
  have "split_on nl (config_template r) =
     [''server:'', ''  listen: '' @ quoted (sr_listen r), ''  read_timeout: '' @ quoted ''30s'',
      ''  write_timeout: '' @ quoted ''0s'', ''  idle_timeout: '' @ quoted ''120s'', ''  public_health: true'',
      ''  request_body_limit: '' @ quoted ''32MiB'', '''', ''upstream:'',
      ''  base_url: '' @ quoted ''https://generativelanguage.googleapis.com'',
      ''  api_key: '' @ quoted (sr_api_key r), ''  timeout: '' @ quoted ''0s'', '''', ''clients:'',
      ''  - name: '' @ quoted (sr_client_name r), ''    token: '' @ quoted (sr_token r), ''    enabled: true'',
      ''    rate_limit_rpm: 0'', '''', ''logging:'', ''  recent: 300'', ''  log_body: false'',
      ''  log_headers: false'', '''']"
    unfolding config_template_def
    by (subst split_on_lines) (use plain [THEN plain_no_newline] in \<open>simp_all add: quoted_def\<close>)
  then have "map read_line (split_on nl (config_template r)) = map Some (template_lines r)"
    unfolding template_lines_def by (simp only: list.map fixed_lines quoted)
  moreover have "those (map Some ls) = Some ls" for ls :: "yaml_line list" by (induction ls) simp_all
  moreover have "distinct (yaml_sections (template_lines r))" by (simp add: yaml_sections_def template_lines_def)
  moreover have "template_leaves r \<noteq> []" "distinct (map fst (template_leaves r))" by (simp_all add: template_leaves_def)
  ultimately show ?thesis by (simp add: yaml_leaves_def template_leaves_read)
qed

text \<open>What the wizard's file means, to any decoder that reads this part of YAML.\<close>

lemma template_decoded:
  assumes "yaml_decoder decode" "\<forall>v \<in> {sr_listen r, sr_api_key r, sr_client_name r, sr_token r}. plain_value v"
  shows "decode (config_template r) = Some (wizard_config r)"
  using assms(1) template_yaml [OF assms(2)] template_leaves_config unfolding yaml_decoder_def by blast

end
