(* ===== verification/Wizard_Start.thy ===== *)
theory Wizard_Start
  imports Wizard_Yaml Ops_Auth
begin

section \<open>From the wizard to a running gateway\<close>

text \<open>
  The configuration file the wizard writes, as \<open>Load\<close> reads it, from the meaning the file has
  as YAML (\<open>wizard_config\<close>) to the gateway that runs it and the token that opens it.
\<close>


subsection \<open>The configuration in the template, with its defaults\<close>

definition wizard_provider :: "string \<Rightarrow> provider_config" where
  "wizard_provider key =
     \<lparr>pc_name = ''gemini'', pc_type = ''gemini'', pc_base_url = ''https://generativelanguage.googleapis.com'',
      pc_api_key = key, pc_api_key_file = '''', pc_timeout = ''0s'', pc_headers = [],
      pc_circuit = \<lparr>cc_enabled = Some True, cc_threshold = DefaultCircuitFailureThreshold, cc_open_for = ''30s''\<rparr>\<rparr>"

lemma wizard_provider_defaults:
  "provider_defaults (legacy_provider (cf_upstream (wizard_config r))) = wizard_provider (sr_api_key r)"
proof -
  have t: "trim_space ''gemini'' = ''gemini''" "NormalizeType ''gemini'' = ''gemini''"
    "trim_right_byte CHR ''/'' (trim_space ''https://generativelanguage.googleapis.com'') =
       ''https://generativelanguage.googleapis.com''" by code_simp+
  obtain spec where l: "Lookup ''gemini'' = (spec, True)"
  proof -
    have "snd (Lookup ''gemini'')" by code_simp
    then show thesis using that by (cases "Lookup ''gemini''") auto
  qed
  show ?thesis
    by (simp add: provider_defaults_def legacy_provider_def wizard_config_def wizard_provider_def
      Let_def t l or_default_def zero_circuit_config_def circuit_open_for_text_def)
qed

definition wizard_loaded :: "setup_result \<Rightarrow> config" where
  "wizard_loaded r = syncLegacyUpstream ((wizard_config r)
     \<lparr>cf_server := server_defaults (cf_server (wizard_config r)),
      cf_rate_limit := rate_limit_defaults (cf_rate_limit (wizard_config r)),
      cf_providers := [wizard_provider (sr_api_key r)], cf_default_provider := ''gemini''\<rparr>)"

lemma wizard_defaults: "applyDefaults (wizard_config r) = wizard_loaded r"
  using wizard_provider_defaults [of r]
  by (simp add: applyDefaults_def wizard_loaded_def legacy_defaults_def Let_def or_default_def)
     (simp add: wizard_config_def)

lemma rc_rewrite: "rate_limit_defaults (cf_rate_limit (wizard_config r)) =
   \<lparr>rl_backend = ''memory'', rl_redis = \<lparr>rc_url = '''', rc_url_file = '''',
        rc_key_prefix = DefaultRedisRateLimitPrefix, rc_timeout = ''2s'', rc_fail_open = False\<rparr>\<rparr>"
  by (simp add: rate_limit_defaults_def wizard_config_def or_default_def DefaultRateLimitBackend_def Let_def
    redis_timeout_text_def)

lemma wizard_secrets: "resolveSecretFiles fs dir (wizard_loaded r) = Inr (wizard_loaded r)"
  by (simp add: resolveSecretFiles_def wizard_loaded_def syncLegacyUpstream_def wizard_provider_def wizard_config_def
     rate_limit_defaults_def resolve_secret_def Let_def)


lemma wizard_sync: "syncLegacyUpstream (wizard_loaded r) = wizard_loaded r"
  by (simp add: wizard_loaded_def syncLegacyUpstream_def wizard_provider_def)

lemma wizard_loaded_sel [simp]:
  "cf_server (wizard_loaded r) = server_defaults (cf_server (wizard_config r))"
  "cf_rate_limit (wizard_loaded r) = rate_limit_defaults (cf_rate_limit (wizard_config r))"
  "cf_providers (wizard_loaded r) = [wizard_provider (sr_api_key r)]"
  "cf_default_provider (wizard_loaded r) = ''gemini''"
  "cf_clients (wizard_loaded r) = cf_clients (wizard_config r)"
  "cf_operations (wizard_loaded r) = \<lparr>op_token = '''', op_token_file = ''''\<rparr>"
  by (simp_all add: wizard_loaded_def syncLegacyUpstream_def wizard_provider_def) (simp add: wizard_config_def)

lemma wizard_server:
  "cf_server (wizard_config r) = (cf_server (wizard_config cancelled_result))\<lparr>sv_listen := sr_listen r\<rparr>"
  by (simp add: wizard_config_def)

lemma wizard_texts:
  "parseDuration ''30s'' = Inr (30 * nanos_second)" "parseDuration ''0s'' = Inr 0"
  "parseDuration ''120s'' = Inr (120 * nanos_second)" "parseDuration ''10m'' = Inr (10 * nanos_minute)"
  "parseDuration ''2s'' = Inr (2 * nanos_second)" "parseBytes ''32MiB'' = Inr 33554432"
  by (code_simp)+

lemma wizard_build:
  "\<exists>rt. build_runtime (wizard_loaded r) = Inr rt \<and> rt_config rt = wizard_loaded r \<and>
     rt_body_limit rt = 33554432 \<and> rt_cors_max_age rt = 10 * nanos_minute \<and>
     rt_rate_limit_timeout rt = 2 * nanos_second \<and>
     rt_provider_circuits rt = [(''gemini'', \<lparr>cr_enabled = True, cr_threshold = DefaultCircuitFailureThreshold,
       cr_open_for = 30 * nanos_second\<rparr>)]"
  by (simp add: build_runtime_def rc_rewrite server_defaults_def wizard_config_def or_default_def cors_defaults_def
    parse_field_def wizard_texts Let_def load_provider_def zero_runtime_def wizard_provider_def circuit_is_enabled_def parseTrustedProxies_def default_list_def
    rate_limit_defaults_def redis_timeout_text_def)


lemma wizard_valid:
  assumes "rt_config rt = wizard_loaded r" "rt_body_limit rt = 33554432" "rt_cors_max_age rt = 10 * nanos_minute"
    "rt_provider_circuits rt = [(''gemini'', \<lparr>cr_enabled = True, cr_threshold = DefaultCircuitFailureThreshold,
       cr_open_for = 30 * nanos_second\<rparr>)]"
    "trim_space (sr_api_key r) \<noteq> ''''" "trim_space (sr_token r) \<noteq> ''''" "trim_space (sr_client_name r) \<noteq> ''''"
  shows "validate rt = Inr ()"
proof -
  have p: "valid_provider_name ''gemini''" "snd (Lookup ''gemini'')"
    "trim_space ''https://generativelanguage.googleapis.com'' \<noteq> ''''"
    "url_ok ''https://generativelanguage.googleapis.com''"
    "validateCORS (sv_cors (server_defaults (cf_server (wizard_config cancelled_result)))) (10 * nanos_minute) = Inr ()"
    by code_simp+
  have "provider_ok rt (wizard_provider (sr_api_key r))"
    using p(1-4) assms(4,5)
    by (simp add: provider_ok_def wizard_provider_def provider_policy_def DefaultCircuitFailureThreshold_def
        nanos_second_def)
  then have "providers_ok rt"
    using assms(1) by (simp add: providers_ok_def Let_def) (simp add: wizard_provider_def)
  moreover have "clients_ok rt"
    using assms(1,6,7) by (simp add: clients_ok_def Let_def enabled_tokens_def wizard_config_def client_ok_def)
  moreover have "validateCORS (sv_cors (server_defaults (cf_server (wizard_config r)))) (10 * nanos_minute) = Inr ()"
    using p(5) by (simp add: wizard_server [of r] server_defaults_def)
  moreover have "validateRateLimit (rate_limit_defaults (cf_rate_limit (wizard_config r))) t = Inr ()" for t
    by (simp add: rc_rewrite validateRateLimit_def)
  ultimately show ?thesis using assms(1-3) by (simp add: validate_iff)
qed

text \<open>Without a key the configuration is refused, and for that reason.\<close>

lemma wizard_without_key:
  assumes "sr_api_key r = ''''"
  obtains rt where "build_runtime (wizard_loaded r) = Inr rt"
    "validate rt = Inl (Invalid ''provider requires api_key or api_key_file'' ''gemini'')"
proof -
  from wizard_build obtain rt where rt: "build_runtime (wizard_loaded r) = Inr rt" "rt_config rt = wizard_loaded r"
    by blast
  have p: "valid_provider_name ''gemini''" "snd (Lookup ''gemini'')" "sp_requires_api_key (fst (Lookup ''gemini''))"
    by code_simp+
  have "validate_provider rt (wizard_provider '''') ({}, False) =
      Inl (Invalid ''provider requires api_key or api_key_file'' ''gemini'')"
    using p by (simp add: validate_provider_def wizard_provider_def case_prod_unfold guard_res_def)
  then have "validate rt = Inl (Invalid ''provider requires api_key or api_key_file'' ''gemini'')"
    by (simp add: validate_def rt(2) assms guard_res_def)
  with rt(1) show thesis by (rule that)
qed

lemma expand_env_plain: "CHR ''$'' \<notin> set s \<Longrightarrow> expand_env getenv s = s"
  by (induction s) (auto simp: expand_env.simps [of getenv "_ # _"] env_match_def)

lemma template_no_dollar:
  assumes "\<forall>v \<in> {sr_listen r, sr_api_key r, sr_client_name r, sr_token r}. CHR ''$'' \<notin> set v"
  shows "CHR ''$'' \<notin> set (config_template r)"
  using assms by (simp add: config_template_def quoted_def)

lemma loaded_from_template:
  assumes "decode (config_template r) = Some (wizard_config r)" "fs path = Some (config_template r)"
    and vals: "\<forall>v \<in> {sr_listen r, sr_api_key r, sr_client_name r, sr_token r}. trim_space v = v \<and> v \<noteq> ''''"
    and dollar: "\<forall>v \<in> {sr_listen r, sr_api_key r, sr_client_name r, sr_token r}. CHR ''$'' \<notin> set v"
  shows "\<exists>rt g. load decode getenv fs path = Inr rt \<and> new_gateway connect inst sha256 clock rt = Inr g \<and>
    map pc_api_key (cf_providers (rt_config rt)) = [sr_api_key r] \<and>
    sv_listen (cf_server (rt_config rt)) = sr_listen r \<and>
    (\<forall>h. header_get h ''Authorization'' = ''Bearer '' @ sr_token r \<longrightarrow>
       authenticate (gw_runtime g) h = (\<lparr>ca_name = sr_client_name r, ca_rate_limit_rpm = 0\<rparr>, sr_token r, True))"
proof -
  from wizard_build obtain rt where rt: "build_runtime (wizard_loaded r) = Inr rt" "rt_config rt = wizard_loaded r"
    "rt_body_limit rt = 33554432" "rt_cors_max_age rt = 10 * nanos_minute"
    "rt_rate_limit_timeout rt = 2 * nanos_second"
    "rt_provider_circuits rt = [(''gemini'', \<lparr>cr_enabled = True, cr_threshold = DefaultCircuitFailureThreshold,
       cr_open_for = 30 * nanos_second\<rparr>)]" by blast
  have valid: "validate rt = Inr ()" using vals by (intro wizard_valid [OF rt(2-4,6)]) auto
  have load: "load decode getenv fs path = Inr rt"
    using assms(1,2) expand_env_plain [OF template_no_dollar [OF dollar]]
    by (simp add: load_def wizard_defaults wizard_secrets wizard_sync rt(1) valid)
  obtain mgr where "newRateLimitManager connect inst rt = Inr mgr"
    by (simp add: newRateLimitManager_def rt(2) rc_rewrite)
  from new_gateway_ready [OF load_runtime_ready [OF load] this]
  obtain g where g: "new_gateway connect inst sha256 clock rt = Inr g" "gw_runtime g = snapshot_of rt 0" by metis
  have "authenticate (gw_runtime g) h = (\<lparr>ca_name = sr_client_name r, ca_rate_limit_rpm = 0\<rparr>, sr_token r, True)"
    if h: "header_get h ''Authorization'' = ''Bearer '' @ sr_token r" for h
  proof -
    have "bearerToken h = sr_token r"
      using h vals by (intro bearerToken_of [of "''Bearer''"]) (simp_all add: equal_fold_def)
    moreover have "map_of (rs_tokens (gw_runtime g)) (sr_token r) = Some \<lparr>ca_name = sr_client_name r, ca_rate_limit_rpm = 0\<rparr>"
      by (simp add: g(2) rt(2) client_tokens_def wizard_config_def)
    ultimately show ?thesis using vals by (simp add: authenticate_iff)
  qed
  moreover have "sv_listen (cf_server (rt_config rt)) = sr_listen r"
    using vals by (simp add: rt(2) server_defaults_def wizard_config_def or_default_def)
  moreover have "map pc_api_key (cf_providers (rt_config rt)) = [sr_api_key r]" by (simp add: rt(2) wizard_provider_def)
  ultimately show ?thesis using load g(1) by (intro exI conjI allI impI)
qed


subsection \<open>What a finished form holds\<close>

abbreviation result_values :: "setup_result \<Rightarrow> string set" where
  "result_values r \<equiv> {sr_listen r, sr_api_key r, sr_client_name r, sr_token r}"

lemma dash_not_inside: "\<forall>e \<in> set (map rev space_encodings). CHR ''-'' \<notin> set (tl e)"
  by code_simp

lemma AccessToken_trimmed:
  assumes "trim_space t \<noteq> ''''" shows "trim_space (AccessToken t) = AccessToken t"
proof -
  let ?t = "trim_space t"
  have "space_len (map rev space_encodings) (rev ?t @ CHR ''-'' # ''gg'') = 0"
    using assms trim_space_ends(2) [of t] Nil_notin_encodings dash_not_inside by (intro space_len_sep) auto
  moreover have "space_len space_encodings (''gg-'' @ ?t) = 0"
    by (simp add: space_len_nonspace space_byte_iff)
  ultimately have "trim_space (''gg-'' @ ?t) = ''gg-'' @ ?t" by (intro trim_space_idI) simp_all
  then show ?thesis by (simp add: AccessToken_def clientTokenPrefix_def Let_def)
qed

lemma newSetup_no_dollar: "CHR ''$'' \<notin> set (randomToken random)"
proof -
  have "CHR ''$'' \<notin> set (hex_encode random)"
    using hex_encode_chars [of "CHR ''$''" random] by (auto simp: is_digit_def is_lower_def)
  then show ?thesis
    using set_trim_space [of "hex_encode random"]
    by (auto simp: randomToken_def AccessToken_def clientTokenPrefix_def Let_def)
qed

lemma empty_error_nonempty: "empty_error i \<noteq> ''''"
  by (simp add: empty_error_def)

lemma validate_from_ok: "validate_from i vs = '''' \<longleftrightarrow> (\<forall>v \<in> set vs. trim_space v \<noteq> '''')"
  by (induction i vs rule: validate_from.induct) (simp_all add: empty_error_nonempty)

definition form_open :: "setup_model \<Rightarrow> bool" where
  "form_open sm \<longleftrightarrow> \<not> sm_submitted sm \<and> \<not> sm_cancelled sm"

definition form_closed :: "setup_model \<Rightarrow> bool" where
  "form_closed sm \<longleftrightarrow>
     (sm_submitted sm \<longleftrightarrow> \<not> sm_cancelled sm) \<and>
     (sm_submitted sm \<longrightarrow> (\<forall>v \<in> set (sm_fields sm). trim_space v \<noteq> ''''))"

lemma setup_update_state:
  assumes "form_open sm" "setup_update msg sm = (sm', quit)"
  shows "if quit then form_closed sm' else form_open sm'"
  using assms
  by (auto simp: setup_update_def setup_key_def setup_enter_def form_open_def form_closed_def edit_field_def
      validateAll_def validate_from_ok Let_def split: setup_msg.splits if_splits)

lemma setup_loop_inv:
  assumes "form_wf sm" "form_open sm" "\<forall>msg \<in> set msgs. key_wf msg" "setup_loop sm msgs = (sm', quit)"
  shows "form_wf sm' \<and> (if quit then form_closed sm' else form_open sm')"
  using assms
proof (induction sm msgs rule: setup_loop.induct)
  case (1 sm)
  then show ?case by auto
next
  case (2 sm msg msgs)
  obtain sm1 q where u: "setup_update msg sm = (sm1, q)" by fastforce
  note wf = setup_update_wf [OF 2(2) _ u] and state = setup_update_state [OF 2(3) u]
  show ?case
  proof (cases q)
    case True
    with u 2 wf state show ?thesis by auto
  next
    case False
    with u 2 wf state show ?thesis using 2(1) [OF u [symmetric] refl] by auto
  qed
qed

lemma newSetup_open: "form_open (newSetup path random)"
  by (simp add: form_open_def newSetup_def)

lemma fields_four:
  "length fs = 4 \<Longrightarrow> set fs = {fs ! 0, fs ! Suc 0, fs ! 2, fs ! 3}"
  by (auto simp: length_Suc_conv eval_nat_numeral)

lemma setup_result_values:
  assumes "form_wf sm" "\<forall>v \<in> set (sm_fields sm). trim_space v \<noteq> ''''" "v \<in> result_values (setup_result_of sm)"
  shows "trim_space v = v \<and> v \<noteq> ''''"
  using assms fields_four [of "sm_fields sm"] AccessToken_trimmed AccessToken_nonempty
  by (auto simp: setup_result_of_def form_wf_def)


subsection \<open>Properties\<close>

text \<open>
  C35. The form is always well formed: whatever keys are pressed, the selected field is one of
  the four and the fields hold ASCII text; once the form quits it is either submitted or
  cancelled, never both, and a submitted form has every field filled, with a client token
  that carries the \<open>gg-\<close> prefix.
\<close>

theorem wizard_typed:
  assumes "\<forall>msg \<in> set msgs. key_wf msg" and "setup_loop (newSetup path random) msgs = (sm, quit)"
  shows "form_wf sm \<and> (if quit then form_closed sm else form_open sm) \<and>
    (sm_submitted sm \<longrightarrow>
       (\<forall>v \<in> result_values (setup_result_of sm). trim_space v = v \<and> v \<noteq> '''') \<and>
       prefix ''gg-'' (to_lower (sr_token (setup_result_of sm))))"
proof -
  have inv: "form_wf sm \<and> (if quit then form_closed sm else form_open sm)"
    using newSetup_wf newSetup_open assms by (rule setup_loop_inv)
  have "\<forall>v \<in> set (sm_fields sm). trim_space v \<noteq> ''''" if "sm_submitted sm"
    using inv that by (auto simp: form_open_def form_closed_def split: if_splits)
  moreover have "prefix ''gg-'' (to_lower (AccessToken t))" for t
    by (simp add: AccessToken_def clientTokenPrefix_def Let_def to_lower_def lower_char_def is_upper_def)
  ultimately show ?thesis
    using inv setup_result_values by (auto simp: setup_result_of_def)
qed

text \<open>
  A finished wizard gives a gateway that works: when the form is submitted with values
  that YAML takes literally and the file it writes is loaded, the configuration is accepted,
  the gateway starts, its one provider holds the key that was typed, and a request with the
  bearer token the wizard announces authenticates as the client that was named.
\<close>

lemma wizard_gateway_works:
  assumes "\<forall>msg \<in> set msgs. key_wf msg" and "setup_loop (newSetup path random) msgs = (sm, True)"
    and "\<not> sm_cancelled sm" and "r = setup_result_of sm" and "\<forall>v \<in> result_values r. plain_value v"
    and "writeConfig None r = Inr (fname, content)" and "fs fname = Some content"
    and "decode (config_template r) = Some (wizard_config r)"
  shows "\<exists>rt g. load decode getenv fs fname = Inr rt \<and> new_gateway connect inst sha256 clock rt = Inr g \<and>
    map pc_api_key (cf_providers (rt_config rt)) = [trim_space (sm_fields sm ! sfAPIKey)] \<and>
    sv_listen (cf_server (rt_config rt)) = trim_space (sm_fields sm ! sfListen) \<and>
    (\<forall>h. header_get h ''Authorization'' = ''Bearer '' @ sr_token r \<longrightarrow>
       authenticate (gw_runtime g) h =
         (\<lparr>ca_name = trim_space (sm_fields sm ! sfClientName), ca_rate_limit_rpm = 0\<rparr>, sr_token r, True))"
proof -
  have inv: "form_wf sm \<and> form_closed sm"
    using setup_loop_inv [OF newSetup_wf newSetup_open assms(1,2)] by simp
  then have vals: "\<forall>v \<in> result_values r. trim_space v = v \<and> v \<noteq> ''''"
    using setup_result_values [of sm] assms(3,4) by (auto simp: form_closed_def)
  have dollar: "\<forall>v \<in> result_values r. CHR ''$'' \<notin> set v"
    using assms(5) by (simp add: plain_value_def)
  have content: "fs fname = Some (config_template r)" using assms(6,7) by (auto simp: writeConfig_def)
  show ?thesis
    using loaded_from_template [where r = r and decode = decode and fs = fs and path = fname,
        OF assms(8) content vals dollar, of getenv connect inst sha256 clock] assms(4)
    by (simp add: setup_result_of_def)
qed

definition sample_keys :: "setup_msg list" where
  "sample_keys = KeyPress ''kx'' # KeyPress ''k'' # KeyPress ''x'' # KeyPress ''backspace'' # replicate 4 (KeyPress ''enter'')"

definition sample_form :: setup_model where
  "sample_form = fst (setup_loop (newSetup ''config.yaml'' ''0123456789abcdef'') sample_keys)"

lemma sample_form:
  "setup_loop (newSetup ''config.yaml'' ''0123456789abcdef'') sample_keys = (sample_form, True)"
  "sm_fields sample_form = [''k'', ''gg-30313233343536373839616263646566'', '':8080'', ''local-dev'']"
  "\<not> sm_cancelled sample_form" "sm_submitted sample_form" "\<forall>msg \<in> set sample_keys. key_wf msg"
proof -
  have "snd (setup_loop (newSetup ''config.yaml'' ''0123456789abcdef'') sample_keys)" by code_simp
  then show "setup_loop (newSetup ''config.yaml'' ''0123456789abcdef'') sample_keys = (sample_form, True)"
    by (simp add: sample_form_def prod_eq_iff)
  show "sm_fields sample_form = [''k'', ''gg-30313233343536373839616263646566'', '':8080'', ''local-dev'']"
    "\<not> sm_cancelled sample_form" "sm_submitted sample_form" by code_simp+
  show "\<forall>msg \<in> set sample_keys. key_wf msg" by (simp add: sample_keys_def key_wf_def)
qed

theorem wizard_typed_witness:
  "form_wf sample_form \<and> form_closed sample_form \<and> sr_api_key (setup_result_of sample_form) \<noteq> ''''"
  using wizard_typed [OF sample_form(5,1)] sample_form(4) by auto

lemma sample_result:
  "setup_result_of sample_form =
     \<lparr>sr_api_key = ''k'', sr_token = ''gg-30313233343536373839616263646566'', sr_listen = '':8080'',
      sr_client_name = ''local-dev'', sr_config_path = ''config.yaml'', sr_cancelled = False\<rparr>"
  by code_simp

end
