(* ===== verification/Cmd_Run.thy ===== *)
theory Cmd_Run
  imports Gw_Runs Wizard_Start
begin

section \<open>The command (cmd/gemgate/main.go)\<close>

text \<open>
  The dispatch of the command line, the flags (the \<open>flag\<close> package), \<open>run\<close> as the list of
  effects it has on listeners, servers and the gateway, the first-run setup, the reload loop
  and the shutdown. What the process meets outside, the file system, the network, the keys typed
  into the wizard, the end of the terminal UI, is a record of outcomes (\<open>run_world\<close>).
\<close>


subsection \<open>The command line\<close>

datatype command = CmdRun bool "string list" | CmdProviders | CmdVersion | CmdHelp | CmdUnknown string

text \<open>\<open>os.Args\<close> without the program name.\<close>

definition command_of :: "string list \<Rightarrow> command" where
  "command_of args =
     (let cmd = (case args of [] \<Rightarrow> ''run'' | c # _ \<Rightarrow> c); rest = tl args in
      if cmd = ''run'' \<or> cmd = ''tui'' then CmdRun True rest
      else if cmd = ''serve'' then CmdRun False rest
      else if cmd = ''providers'' then CmdProviders
      else if cmd = ''version'' \<or> cmd = ''--version'' \<or> cmd = ''-v'' then CmdVersion
      else if cmd = ''help'' \<or> cmd = ''--help'' \<or> cmd = ''-h'' then CmdHelp
      else CmdUnknown cmd)"

record run_flags =
  rf_config :: string
  rf_interval :: duration
  rf_operations :: string

definition default_flags :: run_flags where
  "default_flags = \<lparr>rf_config = ''config.yaml'', rf_interval = 5 * nanos_second, rf_operations = ''''\<rparr>"

definition set_flag :: "string \<Rightarrow> string \<Rightarrow> run_flags \<Rightarrow> run_flags option" where
  "set_flag name val f =
     (if name = ''config'' then Some (f\<lparr>rf_config := val\<rparr>)
      else if name = ''reload-interval''
      then map_option (\<lambda>d. f\<lparr>rf_interval := d\<rparr>) (time_parse_duration val)
      else if name = ''operations-listen'' then Some (f\<lparr>rf_operations := val\<rparr>)
      else None)"

text \<open>\<open>FlagSet.Parse\<close>: one or two dashes, a value after \<open>=\<close> or in the next argument.\<close>

fun parse_flags :: "run_flags \<Rightarrow> string list \<Rightarrow> run_flags option" where
  "parse_flags f [] = Some f"
| "parse_flags f (s # args) =
     (if length s < 2 \<or> hd s \<noteq> CHR ''-'' then Some f
      else if s = ''--'' then Some f
      else
        (let name = (if s ! 1 = CHR ''-'' then drop 2 s else drop 1 s) in
         if hd name = CHR ''-'' \<or> hd name = CHR ''='' then None
         else (case split_first CHR ''='' name of
             Some (key, val) \<Rightarrow> (case set_flag key val f of None \<Rightarrow> None | Some f \<Rightarrow> parse_flags f args)
           | None \<Rightarrow> (case args of
                 [] \<Rightarrow> None
               | val # rest \<Rightarrow> (case set_flag name val f of None \<Rightarrow> None | Some f \<Rightarrow> parse_flags f rest)))))"

definition minPositiveDuration :: "duration \<Rightarrow> duration \<Rightarrow> duration" where
  "minPositiveDuration a b = (if a \<le> 0 then b else if b \<le> 0 \<or> a < b then a else b)"


subsection \<open>\<open>run\<close>\<close>

datatype setup_error = WizardFailed string | SetupCancelled string | WriteFailed string

datatype run_error =
  BadFlags | NegativeInterval
| SetupFailed setup_error | LoadFailed config_error | TelemetryFailed string | NewFailed new_error
| ListenApplication string | SameListen | ListenOperations string
| UIFailed string | ServerFailed string | ShutdownFailed string

record 'r run_world =
  ru_missing :: "string \<Rightarrow> bool"
  ru_wizard :: "string \<Rightarrow> setup_result \<times> string option"
  ru_write :: "string option"
  ru_files :: file_system
  ru_decode :: "string \<Rightarrow> config option"
  ru_getenv :: "string \<Rightarrow> string"
  ru_telemetry :: "telemetry_config \<Rightarrow> string option"
  ru_connect :: "string \<Rightarrow> string \<Rightarrow> duration \<Rightarrow> ('r \<times> redis_link) option"
  ru_instance :: string
  ru_sha256 :: "string \<Rightarrow> string"
  ru_listen :: "string \<Rightarrow> string option"
  ru_ui :: "(string \<times> bool) option"
  ru_stop :: "string option option"
  ru_stop_operations :: "string option"
  ru_stop_server :: "string option"
  ru_close_limits :: "string option"
  ru_clock :: gotime

datatype 'r run_event =
  SetupWizard string | WroteConfig string string | TelemetryUp | TelemetryDown | GatewayUp | GatewayDown
| BindApplication string | CloseApplication | BindOperations string
| StartApplication "'r gateway" | StartOperations http_server | StopOperations
| StartWatch string duration | CancelReload | RunUI | PrintInfo | PrintSetup "string list"

definition operations_server :: "config_runtime \<Rightarrow> string \<Rightarrow> http_server" where
  "operations_server rt addr =
     \<lparr>hs_addr = addr, hs_read_timeout = rt_read_timeout rt,
      hs_read_header_timeout = minPositiveDuration (10 * nanos_second) (rt_read_timeout rt),
      hs_write_timeout = rt_write_timeout rt, hs_idle_timeout = rt_idle_timeout rt, hs_isolated = False\<rparr>"

definition shutdown ::
  "'r run_world \<Rightarrow> 'r gateway \<Rightarrow> bool \<Rightarrow> string option \<times> 'r run_event list" where
  "shutdown u g operations =
     (let operationsErr = (if operations then ru_stop_operations u else None);
          (gatewayErr, _) = gateway_shutdown (ru_clock u) (ru_stop_server u) (ru_close_limits u) g
      in (if gatewayErr \<noteq> None then gatewayErr else operationsErr,
          (if operations then [StopOperations] else []) @ [GatewayDown]))"

text \<open>From the moment both listeners are bound.\<close>

definition run_servers ::
  "'r run_world \<Rightarrow> bool \<Rightarrow> run_flags \<Rightarrow> 'r gateway \<Rightarrow> http_server option \<Rightarrow>
   run_error option \<times> 'r run_event list" where
  "run_servers u withTUI f g operationsServer =
     (let starts = StartApplication g # (case operationsServer of None \<Rightarrow> [] | Some s \<Rightarrow> [StartOperations s]) @
            (if 0 < rf_interval f then [StartWatch (rf_config f) (rf_interval f)] else []);
          (err, stops) = shutdown u g (operationsServer \<noteq> None)
      in if withTUI then
           ((case ru_ui u of
               Some (e, interrupted) \<Rightarrow>
                 (if interrupted then map_option ShutdownFailed err else Some (UIFailed e))
             | None \<Rightarrow> map_option ShutdownFailed err),
            starts @ [RunUI, CancelReload] @ stops)
         else
           ((case ru_stop u of
               None \<Rightarrow> map_option ShutdownFailed err
             | Some serverErr \<Rightarrow> map_option ServerFailed serverErr),
            starts @ [PrintInfo, CancelReload] @ stops))"

definition run_gateway ::
  "'r run_world \<Rightarrow> bool \<Rightarrow> run_flags \<Rightarrow> config_runtime \<Rightarrow> 'r gateway \<Rightarrow>
   run_error option \<times> 'r run_event list" where
  "run_gateway u withTUI f rt g =
     (let addr = hs_addr (gw_server g); operationsAddr = trim_space (rf_operations f) in
      case ru_listen u addr of
        Some _ \<Rightarrow> (Some (ListenApplication addr), [GatewayDown])
      | None \<Rightarrow>
          (if operationsAddr \<noteq> '''' then
             (if operationsAddr = trim_space (sv_listen (cf_server (rt_config rt)))
              then (Some SameListen, [BindApplication addr, CloseApplication, GatewayDown])
              else (case ru_listen u operationsAddr of
                  Some _ \<Rightarrow> (Some (ListenOperations operationsAddr), [BindApplication addr, CloseApplication, GatewayDown])
                | None \<Rightarrow>
                    (let (err, evs) = run_servers u withTUI f (isolateOperationsEndpoints g)
                           (Some (operations_server rt operationsAddr))
                     in (err, BindApplication addr # BindOperations operationsAddr # evs))))
           else
             (let (err, evs) = run_servers u withTUI f g None in (err, BindApplication addr # evs))))"

text \<open>What it prints once the file is saved.\<close>

definition setup_report :: "string \<Rightarrow> setup_result \<Rightarrow> string list" where
  "setup_report configPath r =
     (let baseURL = LocalBaseURL (sr_listen r) in
      [''Config saved to '' @ configPath,
       ''GemGate URL: '' @ baseURL,
       ''Default Gemini OpenAI-compatible URL: '' @ baseURL @ ''/v1beta/openai/'',
       ''Access token: Bearer '' @ sr_token r,
       ''Add more providers in config.yaml under providers:; see `gemgate providers`.''])"

text \<open>The wizard, its events and the files after it.\<close>

definition runSetupWizard ::
  "'r run_world \<Rightarrow> string \<Rightarrow> setup_error option \<times> 'r run_event list \<times> file_system" where
  "runSetupWizard u configPath =
     (case ru_wizard u configPath of
        (_, Some e) \<Rightarrow> (Some (WizardFailed e), [SetupWizard configPath], ru_files u)
      | (result, None) \<Rightarrow>
          (if sr_cancelled result then (Some (SetupCancelled configPath), [SetupWizard configPath], ru_files u)
           else (case writeConfig (ru_write u) result of
               Inl e \<Rightarrow> (Some (WriteFailed e), [SetupWizard configPath], ru_files u)
             | Inr (path, content) \<Rightarrow>
                 (None, [SetupWizard configPath, WroteConfig path content, PrintSetup (setup_report configPath result)],
                  (ru_files u)(path \<mapsto> content)))))"

definition run :: "'r run_world \<Rightarrow> bool \<Rightarrow> string list \<Rightarrow> run_error option \<times> 'r run_event list" where
  "run u withTUI args =
     (case parse_flags default_flags args of
        None \<Rightarrow> (Some BadFlags, [])
      | Some f \<Rightarrow>
          (if rf_interval f < 0 then (Some NegativeInterval, [])
           else
             (let path = rf_config f;
                  (failed, wizard, files) =
                    (if ru_missing u path then runSetupWizard u path else (None, [], ru_files u)) in
              case failed of
                Some e \<Rightarrow> (Some (SetupFailed e), wizard)
              | None \<Rightarrow>
                  (case load (ru_decode u) (ru_getenv u) files path of
                     Inl e \<Rightarrow> (Some (LoadFailed e), wizard)
                   | Inr rt \<Rightarrow>
                       (case ru_telemetry u (cf_telemetry (rt_config rt)) of
                          Some e \<Rightarrow> (Some (TelemetryFailed e), wizard)
                        | None \<Rightarrow>
                            (case new_gateway (ru_connect u) (ru_instance u) (ru_sha256 u) (ru_clock u) rt of
                               Inl e \<Rightarrow> (Some (NewFailed e), wizard @ [TelemetryUp, TelemetryDown])
                             | Inr g \<Rightarrow>
                                 (let (err, evs) = run_gateway u withTUI f rt g
                                  in (err, wizard @ [TelemetryUp, GatewayUp] @ evs @ [TelemetryDown]))))))))"


subsection \<open>The reload loop\<close>

record tick =
  tk_load :: "config_error + config_runtime"
  tk_now :: gotime
  tk_logged :: gotime

definition watch_tick ::
  "(string \<Rightarrow> string) \<Rightarrow> (reload_error \<Rightarrow> string) \<Rightarrow> (config_error \<Rightarrow> string) \<Rightarrow> 'r gateway \<Rightarrow> tick \<Rightarrow> 'r gateway" where
  "watch_tick sha256 text_of load_text g tk =
     (case tk_load tk of
        Inl e \<Rightarrow> recordReloadFailure (tk_logged tk) (load_text e) g
      | Inr rt \<Rightarrow> snd (reload sha256 text_of (tk_now tk) (tk_logged tk) rt g))"

definition watchConfig ::
  "(string \<Rightarrow> string) \<Rightarrow> (reload_error \<Rightarrow> string) \<Rightarrow> (config_error \<Rightarrow> string) \<Rightarrow> 'r gateway \<Rightarrow> tick list \<Rightarrow>
   'r gateway" where
  "watchConfig sha256 text_of load_text g ticks = foldl (watch_tick sha256 text_of load_text) g ticks"


subsection \<open>Listings\<close>

definition provider_line :: "provider_spec \<Rightarrow> string" where
  "provider_line spec =
     (let base = (if sp_default_base_url spec = '''' then ''<configure base_url>'' else sp_default_base_url spec);
          compat = (if sp_openai_compatible spec then '' [OpenAI-compatible]'' else '''')
      in ''  '' @ pad_right 18 (sp_type spec) @ '' '' @ pad_right 20 (sp_display_name spec) @ '' '' @ base @ compat @ [nl])"

definition printProviders :: string where
  "printProviders = ''Supported provider types:'' @ [nl] @ concat (map provider_line Supported)"


text \<open>\<open>printRuntimeInfo\<close> of the configuration snapshot.\<close>

definition provider_route_line :: "string \<Rightarrow> provider_snap \<Rightarrow> string" where
  "provider_route_line baseURL p =
     ''Provider '' @ pad_right 12 (pn_name p) @ '' type='' @ pad_right 18 (pn_kind p) @ '' route='' @ baseURL
       @ ''/providers/'' @ pn_name p @ ''/'' @ [nl]"

definition printRuntimeInfo :: "config_snapshot \<Rightarrow> string" where
  "printRuntimeInfo cfg =
     ''GemGate listening on '' @ cn_listen cfg @ [nl]
     @ ''Default provider: '' @ cn_default_provider cfg @ '' (root requests proxy there)'' @ [nl]
     @ concat (map (provider_route_line (LocalBaseURL (cn_listen cfg))) (cn_providers cfg))"


subsection \<open>The exit status\<close>

text \<open>\<open>main\<close>: \<open>must\<close> ends the process with status 1 on an error (\<open>log.Fatal\<close>).\<close>

definition must :: "'e option \<Rightarrow> int" where
  "must err = (if err \<noteq> None then 1 else 0)"

definition main_status :: "'r run_world \<Rightarrow> string list \<Rightarrow> int" where
  "main_status u args =
     (case command_of args of
        CmdRun withTUI rest \<Rightarrow> must (fst (run u withTUI rest))
      | CmdProviders \<Rightarrow> 0
      | CmdVersion \<Rightarrow> 0
      | CmdHelp \<Rightarrow> 0
      | CmdUnknown _ \<Rightarrow> 2)"


subsection \<open>What a run does, in order\<close>

text \<open>The condition on an event, given the ones before it.\<close>

fun event_ok :: "'r run_event list \<Rightarrow> 'r run_event \<Rightarrow> bool" where
  "event_ok seen (StartApplication g) \<longleftrightarrow>
     BindApplication (hs_addr (gw_server g)) \<in> set seen \<and> CloseApplication \<notin> set seen \<and>
     (hs_isolated (gw_server g) \<longleftrightarrow> (\<exists>addr. BindOperations addr \<in> set seen))"
| "event_ok seen (StartOperations s) \<longleftrightarrow>
     BindOperations (hs_addr s) \<in> set seen \<and> (\<exists>g. StartApplication g \<in> set seen \<and> hs_isolated (gw_server g))"
| "event_ok seen (StartWatch path interval) \<longleftrightarrow> (\<exists>g. StartApplication g \<in> set seen)"
| "event_ok seen _ \<longleftrightarrow> True"

fun trace_ok :: "'r run_event list \<Rightarrow> 'r run_event list \<Rightarrow> bool" where
  "trace_ok seen [] \<longleftrightarrow> True"
| "trace_ok seen (e # es) \<longleftrightarrow> event_ok seen e \<and> trace_ok (seen @ [e]) es"

lemma trace_ok_split: "trace_ok seen (pre @ e # post) \<Longrightarrow> event_ok (seen @ pre) e"
proof (induction pre arbitrary: seen)
  case (Cons x pre)
  then show ?case using Cons.IH [of "seen @ [x]"] by simp
qed simp

lemma trace_ok_append: "trace_ok seen (xs @ ys) \<longleftrightarrow> trace_ok seen xs \<and> trace_ok (seen @ xs) ys"
  by (induction xs arbitrary: seen) auto

lemma new_gateway_server:
  assumes "new_gateway connect inst sha256 clock rt = Inr g"
  shows "\<not> hs_isolated (gw_server g)" "hs_addr (gw_server g) = sv_listen (cf_server (rt_config rt))"
  using assms by (auto simp: new_gateway_def split: sum.splits prod.splits)

lemma isolate_sel [simp]:
  "hs_isolated (gw_server (isolateOperationsEndpoints g))"
  "hs_addr (gw_server (isolateOperationsEndpoints g)) = hs_addr (gw_server g)"
  by (simp_all add: isolateOperationsEndpoints_def)

lemma shutdown_events: "shutdown u g ops = (err, evs) \<Longrightarrow> evs = (if ops then [StopOperations] else []) @ [GatewayDown]"
  by (auto simp: shutdown_def split: prod.splits)

lemma run_servers_events:
  assumes "run_servers u tui f g ops = (err, evs)"
  shows "evs = StartApplication g # (case ops of None \<Rightarrow> [] | Some s \<Rightarrow> [StartOperations s]) @
    (if 0 < rf_interval f then [StartWatch (rf_config f) (rf_interval f)] else []) @
    [if tui then RunUI else PrintInfo, CancelReload] @ (if ops \<noteq> None then [StopOperations] else []) @ [GatewayDown]"
proof -
  obtain e stops where s: "shutdown u g (ops \<noteq> None) = (e, stops)" by (metis prod.collapse)
  then show ?thesis using assms shutdown_events [OF s] by (auto simp: run_servers_def Let_def)
qed

lemma run_gateway_trace:
  assumes "run_gateway u tui f rt g = (err, evs)" "\<not> hs_isolated (gw_server g)"
    "\<And>addr. BindOperations addr \<notin> set seen" "CloseApplication \<notin> set seen"
  shows "trace_ok seen evs"
  using assms
  by (auto simp: run_gateway_def Let_def operations_server_def split: option.splits if_splits prod.splits
      dest!: run_servers_events) (blast intro: isolate_sel)+

definition wizard_events :: "'r run_event list \<Rightarrow> bool" where
  "wizard_events evs \<longleftrightarrow> (\<forall>e \<in> set evs. \<exists>p c ls. e = SetupWizard p \<or> e = WroteConfig p c \<or> e = PrintSetup ls)"

lemma runSetupWizard_events: "runSetupWizard u path = (err, evs, fs) \<Longrightarrow> wizard_events evs"
  by (auto simp: runSetupWizard_def wizard_events_def split: prod.splits option.splits sum.splits if_splits)

lemma wizard_events_trace: "wizard_events wiz \<Longrightarrow> trace_ok seen wiz"
  by (induction wiz arbitrary: seen) (auto simp: wizard_events_def)

lemma run_shape:
  assumes "run u tui args = (err, evs)"
  obtains wiz where "wizard_events wiz"
    "evs = wiz \<or> evs = wiz @ [TelemetryUp, TelemetryDown] \<or>
      (\<exists>f rt g evs'. \<not> hs_isolated (gw_server g) \<and> run_gateway u tui f rt g = (err, evs') \<and>
         evs = wiz @ [TelemetryUp, GatewayUp] @ evs' @ [TelemetryDown])"
proof (cases "parse_flags default_flags args")
  case None
  then show thesis using assms that [of "[]"] by (auto simp: run_def wizard_events_def)
next
  case (Some f)
  show thesis
  proof (cases "rf_interval f < 0")
    case True
    with assms Some show thesis using that [of "[]"] by (auto simp: run_def wizard_events_def)
  next
    case False
    obtain failed wiz files where w: "(if ru_missing u (rf_config f) then runSetupWizard u (rf_config f)
        else (None, [], ru_files u)) = (failed, wiz, files)" by (metis prod.collapse)
    then have "wizard_events wiz"
      using runSetupWizard_events [of u "rf_config f"] by (auto simp: wizard_events_def split: if_splits)
    moreover have "evs = wiz \<or> evs = wiz @ [TelemetryUp, TelemetryDown] \<or>
        (\<exists>f rt g evs'. \<not> hs_isolated (gw_server g) \<and> run_gateway u tui f rt g = (err, evs') \<and>
           evs = wiz @ [TelemetryUp, GatewayUp] @ evs' @ [TelemetryDown])"
      using assms Some False w
      by (auto simp: run_def Let_def split: option.splits sum.splits prod.splits)
         (blast dest: new_gateway_server(1))+
    ultimately show thesis by (rule that)
  qed
qed

text \<open>
  C32. No request is served before its listener is ready: in every run, whatever the arguments
  and the outcomes, the application server starts only after its port is bound (and not
  released again), and it runs with the operational endpoints isolated exactly when the
  operations port has been bound; the operations server and the reload loop start only after
  that.
\<close>

theorem run_serves_when_bound:
  assumes "run u withTUI args = (err, pre @ e # post)"
  shows "event_ok pre e"
proof (rule run_shape [OF assms])
  fix wiz
  assume w: "wizard_events wiz"
    and shape: "pre @ e # post = wiz \<or> pre @ e # post = wiz @ [TelemetryUp, TelemetryDown] \<or>
      (\<exists>f rt g evs'. \<not> hs_isolated (gw_server g) \<and> run_gateway u withTUI f rt g = (err, evs') \<and>
         pre @ e # post = wiz @ [TelemetryUp, GatewayUp] @ evs' @ [TelemetryDown])"
  note wiz = wizard_events_trace [OF w, of "[]"]
  have "trace_ok [] (wiz @ [TelemetryUp, GatewayUp] @ evs' @ [TelemetryDown])"
    if "run_gateway u withTUI f rt g = (err, evs')" "\<not> hs_isolated (gw_server g)" for f rt g evs'
    using wiz w run_gateway_trace [OF that, of "wiz @ [TelemetryUp, GatewayUp]"]
    by (auto simp: trace_ok_append wizard_events_def)
  moreover have "trace_ok [] (wiz @ [TelemetryUp, TelemetryDown])" using wiz by (simp add: trace_ok_append)
  ultimately have "trace_ok [] (pre @ e # post)" using wiz shape by auto
  from trace_ok_split [OF this] show ?thesis by simp
qed

lemma wizard_events_quiet:
  assumes "wizard_events wiz"
  shows "filter (\<lambda>e. e \<in> {TelemetryUp, TelemetryDown, GatewayUp, GatewayDown}) wiz = []"
    "BindApplication b \<notin> set wiz" "StartOperations s \<notin> set wiz" "StopOperations \<notin> set wiz"
  using assms by (auto simp: wizard_events_def filter_empty_conv)

lemma run_gateway_balance:
  assumes "run_gateway u tui f rt g = (err, evs)"
  shows "filter (\<lambda>e. e \<in> {TelemetryUp, TelemetryDown, GatewayUp, GatewayDown}) evs = [GatewayDown] \<and>
    (BindApplication a \<in> set evs \<longrightarrow> CloseApplication \<in> set evs \<or> (\<exists>g. StartApplication g \<in> set evs)) \<and>
    ((\<exists>s. StartOperations s \<in> set evs) \<longleftrightarrow> StopOperations \<in> set evs)"
  using assms
  by (auto simp: run_gateway_def Let_def split: option.splits if_splits prod.splits dest!: run_servers_events)

text \<open>
  However a run ends, it leaves nothing behind: a gateway that was made is shut down,
  telemetry that was set up is shut down last, an application port that was bound is closed or
  handed to the server of that gateway, and an operations server that was started is stopped.
\<close>

theorem run_releases:
  assumes "run u withTUI args = (err, evs)"
  shows "filter (\<lambda>e. e \<in> {TelemetryUp, TelemetryDown, GatewayUp, GatewayDown}) evs \<in>
      {[], [TelemetryUp, TelemetryDown], [TelemetryUp, GatewayUp, GatewayDown, TelemetryDown]} \<and>
    (BindApplication a \<in> set evs \<longrightarrow> CloseApplication \<in> set evs \<or> (\<exists>g. StartApplication g \<in> set evs)) \<and>
    ((\<exists>s. StartOperations s \<in> set evs) \<longleftrightarrow> StopOperations \<in> set evs)"
proof (rule run_shape [OF assms])
  fix wiz
  assume w: "wizard_events wiz"
    and shape: "evs = wiz \<or> evs = wiz @ [TelemetryUp, TelemetryDown] \<or>
      (\<exists>f rt g evs'. \<not> hs_isolated (gw_server g) \<and> run_gateway u withTUI f rt g = (err, evs') \<and>
         evs = wiz @ [TelemetryUp, GatewayUp] @ evs' @ [TelemetryDown])"
  from shape show ?thesis
    using wizard_events_quiet [OF w] by (auto dest: run_gateway_balance [of _ _ _ _ _ _ _ a])
qed


subsection \<open>The reload loop keeps the last good configuration\<close>

lemma reload_server: "reload sha256 text_of now logged rt g = (res, g') \<Longrightarrow> gw_server g' = gw_server g"
  by (auto simp: reload_def recordReloadFailure_def Let_def split: if_splits sum.splits prod.splits)

text \<open>The settings that are fixed at start; a configuration that changes one is refused.\<close>

definition restart_settings ::
  "config_runtime \<Rightarrow> string \<times> duration \<times> duration \<times> duration \<times> rate_limit_config \<times> telemetry_config" where
  "restart_settings rt =
     (sv_listen (cf_server (rt_config rt)), rt_read_timeout rt, rt_write_timeout rt, rt_idle_timeout rt,
      cf_rate_limit (rt_config rt), cf_telemetry (rt_config rt))"

lemma hot_reload_iff: "validateHotReload old new = Inr () \<longleftrightarrow> restart_settings old = restart_settings new"
  by (auto simp: validateHotReload_def restart_settings_def guard_res_def)

text \<open>The configuration in force after the ticks: the last one that loaded, needed no restart and is new.\<close>

definition takes_over :: "config_runtime \<Rightarrow> tick \<Rightarrow> config_runtime" where
  "takes_over current tk =
     (case tk_load tk of
        Inl _ \<Rightarrow> current
      | Inr rt \<Rightarrow>
          if \<not> same_config (rt_config current) (rt_config rt) \<and> restart_settings current = restart_settings rt
          then rt else current)"

lemma reachable_gateway_inv: "gateway_reachable g \<Longrightarrow> gateway_inv g"
  by (induction rule: gateway_reachable.induct) (auto intro: start_inv gateway_step_inv)

lemma watch_tick_step:
  assumes "gateway_reachable g" "\<And>rt. tk_load tk = Inr rt \<Longrightarrow> loaded_config rt"
    "g' = watch_tick sha256 text_of load_text g tk"
  shows "gateway_reachable g' \<and> gw_server g' = gw_server g \<and>
    (\<forall>e. tk_load tk = Inl e \<longrightarrow> g' = recordReloadFailure (tk_logged tk) (load_text e) g) \<and>
    rs_cfg (gw_runtime g') = takes_over (rs_cfg (gw_runtime g)) tk"
proof (cases "tk_load tk")
  case (Inl e)
  then have g': "g' = recordReloadFailure (tk_logged tk) (load_text e) g"
    using assms(3) by (simp add: watch_tick_def)
  have "gateway_reachable g'"
    unfolding g' using assms(1) gateway_step.unloadable by (rule gateway_reachable.step)
  then show ?thesis by (simp add: g' Inl takes_over_def) (simp add: recordReloadFailure_def)
next
  case (Inr rt)
  let ?current = "rs_cfg (gw_runtime g)"
  obtain res where r: "reload sha256 text_of (tk_now tk) (tk_logged tk) rt g = (res, g')"
    using assms(3) Inr by (simp add: watch_tick_def) (metis prod.collapse)
  have loaded: "loaded_config rt" using assms(2) Inr by simp
  have "gateway_reachable g'"
    using assms(1) gateway_step.reloaded [OF loaded r] by (rule gateway_reachable.step)
  moreover have "rs_cfg (gw_runtime g') = takes_over ?current tk"
  proof (cases "\<not> same_config (rt_config ?current) (rt_config rt) \<and> validateHotReload ?current rt = Inr ()")
    case True
    have "gateway_wf g" using reachable_gateway_inv [OF assms(1)] by (simp add: gateway_inv_def)
    from reload_accepted [OF r loaded_ready [OF loaded] this True [THEN conjunct1] True [THEN conjunct2]]
    have "rs_cfg (gw_runtime g') = rt" by (metis snapshot_of_sel(1))
    with True show ?thesis by (simp add: takes_over_def Inr hot_reload_iff)
  next
    case False
    then have "gw_runtime g' = gw_runtime g"
      using r by (auto simp: reload_def recordReloadFailure_def Let_def split: if_splits sum.splits prod.splits)
    with False show ?thesis by (auto simp: takes_over_def Inr hot_reload_iff)
  qed
  ultimately show ?thesis using reload_server [OF r] by (simp add: Inr)
qed

text \<open>
  C33. The reload loop keeps the last good configuration: whatever the file holds at each tick,
  the gateway stays in a reachable state with its server untouched, and runs, as a whole, exactly
  the last configuration that loaded, was new and needed no restart (the original one when there
  was none); files that do not load change nothing but the log.
\<close>

theorem watch_keeps_last_good:
  assumes "gateway_reachable g" and "\<forall>tk \<in> set ticks. \<forall>rt. tk_load tk = Inr rt \<longrightarrow> loaded_config rt"
    and "g' = watchConfig sha256 text_of load_text g ticks"
  shows "gateway_reachable g' \<and> gw_server g' = gw_server g \<and>
    (\<exists>a. runs_configuration (foldl takes_over (rs_cfg (gw_runtime g)) ticks) a (gw_runtime g')) \<and>
    ((\<forall>tk \<in> set ticks. isl (tk_load tk)) \<longrightarrow>
       gw_runtime g' = gw_runtime g \<and> gw_breakers g' = gw_breakers g \<and>
       gw_rate_limits g' = gw_rate_limits g \<and> gw_metrics g' = gw_metrics g)"
proof -
  have "gateway_reachable g' \<and> gw_server g' = gw_server g \<and>
    rs_cfg (gw_runtime g') = foldl takes_over (rs_cfg (gw_runtime g)) ticks \<and>
    ((\<forall>tk \<in> set ticks. isl (tk_load tk)) \<longrightarrow>
       gw_runtime g' = gw_runtime g \<and> gw_breakers g' = gw_breakers g \<and>
       gw_rate_limits g' = gw_rate_limits g \<and> gw_metrics g' = gw_metrics g)" (is "?kept g' ticks")
    using assms(2,3)
  proof (induction ticks arbitrary: g' rule: rev_induct)
    case Nil
    then show ?case using assms(1) by (simp add: watchConfig_def)
  next
    case (snoc tk ticks)
    let ?g1 = "watchConfig sha256 text_of load_text g ticks"
    have g': "g' = watch_tick sha256 text_of load_text ?g1 tk" using snoc.prems(2) by (simp add: watchConfig_def)
    have IH: "?kept ?g1 ticks" using snoc by simp
    have "\<And>rt. tk_load tk = Inr rt \<Longrightarrow> loaded_config rt" using snoc.prems(1) by simp
    note step = watch_tick_step [OF IH [THEN conjunct1] this g']
    have "gateway_reachable g' \<and> gw_server g' = gw_server g \<and>
        rs_cfg (gw_runtime g') = foldl takes_over (rs_cfg (gw_runtime g)) (ticks @ [tk])"
      using step IH by simp
    moreover have "gw_runtime g' = gw_runtime g \<and> gw_breakers g' = gw_breakers g \<and>
        gw_rate_limits g' = gw_rate_limits g \<and> gw_metrics g' = gw_metrics g" if bad: "\<forall>tk' \<in> set (ticks @ [tk]). isl (tk_load tk')"
    proof -
      obtain e where "tk_load tk = Inl e" using bad by (cases "tk_load tk") auto
      with step have "g' = recordReloadFailure (tk_logged tk) (load_text e) ?g1" by blast
      with IH bad show ?thesis by (simp add: recordReloadFailure_def)
    qed
    ultimately show ?case by blast
  qed
  note kept = this
  then have "gateway_inv g'" by (intro reachable_gateway_inv) simp
  then obtain decode getenv fs path a where "load decode getenv fs path = Inr (rs_cfg (gw_runtime g'))"
    "gw_runtime g' = snapshot_of (rs_cfg (gw_runtime g')) a"
    by (auto simp: gateway_inv_def gateway_wf_def loaded_config_def Let_def)
  from loaded_snapshot_runs [OF this(1), of a] this(2)
  have "runs_configuration (rs_cfg (gw_runtime g')) a (gw_runtime g')" by simp
  with kept show ?thesis by auto
qed


subsection \<open>The first run\<close>

lemma setup_update_path: "setup_update msg sm = (sm', quit) \<Longrightarrow> sm_config_path sm' = sm_config_path sm"
  by (auto simp: setup_update_def setup_key_def setup_enter_def edit_field_def Let_def
      split: setup_msg.splits if_splits)

lemma setup_loop_path: "setup_loop sm msgs = (sm', quit) \<Longrightarrow> sm_config_path sm' = sm_config_path sm"
  by (induction sm msgs rule: setup_loop.induct) (auto split: prod.splits if_splits dest: setup_update_path)

text \<open>
  C34. The first run serves: started without a configuration file, \<open>run\<close> asks, writes exactly
  what the submitted form holds, announces the bearer token, loads that file as any YAML reader
  would, binds the address that was typed and starts a gateway with the API key that was typed,
  on which the announced token authenticates as the client that was named. This is for values of
  printable ASCII without a double quote, a backslash or a dollar sign, when the file can be
  written and the port is free, and without a separate operations listener.
\<close>

theorem first_run_serves:
  assumes "parse_flags default_flags args = Some f" and "0 \<le> rf_interval f" and "rf_operations f = ''''"
    and "ru_missing u (rf_config f)"
    and "ru_wizard u (rf_config f) = runSetup (rf_config f) random msgs ProgramDone"
    and "\<forall>msg \<in> set msgs. key_wf msg"
    and "setup_loop (newSetup (rf_config f) random) msgs = (sm, True)" and "\<not> sm_cancelled sm"
    and "r = setup_result_of sm" and "\<forall>v \<in> result_values r. plain_value v"
    and "ru_write u = None" and "yaml_decoder (ru_decode u)"
    and "\<forall>te. ru_telemetry u te = None" and "ru_listen u (sr_listen r) = None"
  shows "\<exists>g err evs lines. run u withTUI args = (err, evs) \<and>
    WroteConfig (rf_config f) (config_template r) \<in> set evs \<and>
    PrintSetup lines \<in> set evs \<and> ''Access token: Bearer '' @ sr_token r \<in> set lines \<and>
    BindApplication (sr_listen r) \<in> set evs \<and> StartApplication g \<in> set evs \<and>
    map pc_api_key (cf_providers (rt_config (rs_cfg (gw_runtime g)))) = [sr_api_key r] \<and>
    (\<forall>h. header_get h ''Authorization'' = ''Bearer '' @ sr_token r \<longrightarrow>
       authenticate (gw_runtime g) h = (\<lparr>ca_name = sr_client_name r, ca_rate_limit_rpm = 0\<rparr>, sr_token r, True))"
proof -
  have path: "sr_config_path r = rf_config f"
    using setup_loop_path [OF assms(7)] by (simp add: assms(9) setup_result_of_def newSetup_def)
  have wrote: "writeConfig None r = Inr (rf_config f, config_template r)" by (simp add: writeConfig_def path)
  let ?fs = "(ru_files u)(rf_config f \<mapsto> config_template r)"
  have fs: "?fs (rf_config f) = Some (config_template r)" by simp
  have meaning: "ru_decode u (config_template r) = Some (wizard_config r)"
    using assms(10,12) by (intro template_decoded) simp_all
  obtain rt g where g: "load (ru_decode u) (ru_getenv u) ?fs (rf_config f) = Inr rt"
    "new_gateway (ru_connect u) (ru_instance u) (ru_sha256 u) (ru_clock u) rt = Inr g"
    "map pc_api_key (cf_providers (rt_config rt)) = [sr_api_key r]"
    "sv_listen (cf_server (rt_config rt)) = sr_listen r"
    "\<forall>h. header_get h ''Authorization'' = ''Bearer '' @ sr_token r \<longrightarrow>
       authenticate (gw_runtime g) h = (\<lparr>ca_name = sr_client_name r, ca_rate_limit_rpm = 0\<rparr>, sr_token r, True)"
    using wizard_gateway_works [where fs = ?fs and fname = "rf_config f" and decode = "ru_decode u",
        OF assms(6-10) wrote fs meaning, of "ru_getenv u" "ru_connect u" "ru_instance u" "ru_sha256 u" "ru_clock u"]
    by (auto simp: assms(9) setup_result_of_def)
  have cfg: "rs_cfg (gw_runtime g) = rt"
    using g(2) by (auto simp: new_gateway_def buildRuntimeSnapshot_def Let_def split: sum.splits prod.splits option.splits)
  have wizard: "runSetupWizard u (rf_config f) =
      (None, [SetupWizard (rf_config f), WroteConfig (rf_config f) (config_template r),
         PrintSetup (setup_report (rf_config f) r)], ?fs)"
  proof -
    have "ru_wizard u (rf_config f) = (r, None)" using assms(5,7,9) by (simp add: runSetup_def)
    moreover have "\<not> sr_cancelled r" using assms(8,9) by (simp add: setup_result_of_def)
    ultimately show ?thesis using assms(11) by (simp add: runSetupWizard_def wrote)
  qed
  obtain err evs where servers: "run_servers u withTUI f g None = (err, evs)" by fastforce
  then have started: "StartApplication g \<in> set evs" by (drule_tac run_servers_events) simp
  have "run_gateway u withTUI f rt g = (err, BindApplication (sr_listen r) # evs)"
    using assms(3,14) new_gateway_server(2) [OF g(2)] by (simp add: run_gateway_def g(4) servers)
  then have "run u withTUI args = (err, [SetupWizard (rf_config f), WroteConfig (rf_config f) (config_template r),
      PrintSetup (setup_report (rf_config f) r), TelemetryUp, GatewayUp] @ (BindApplication (sr_listen r) # evs) @ [TelemetryDown])"
    using assms(1,2,4,13) g(1,2) by (simp add: run_def wizard Let_def)
  moreover have "''Access token: Bearer '' @ sr_token r \<in> set (setup_report (rf_config f) r)"
    by (simp add: setup_report_def Let_def)
  ultimately show ?thesis using g(3,5) started
    by (intro exI [of _ g] exI [of _ err] exI [of _ "[SetupWizard (rf_config f), WroteConfig (rf_config f) (config_template r),
      PrintSetup (setup_report (rf_config f) r), TelemetryUp, GatewayUp] @ (BindApplication (sr_listen r) # evs) @ [TelemetryDown]"]
      exI [of _ "setup_report (rf_config f) r"]) (simp add: cfg)
qed


subsection \<open>The properties at work\<close>

definition sample_run_world :: "file_system \<Rightarrow> (string \<Rightarrow> config option) \<Rightarrow> bool \<Rightarrow> setup_result \<times> string option \<Rightarrow> unit run_world" where
  "sample_run_world fs decode missing wizard =
     \<lparr>ru_missing = (\<lambda>_. missing), ru_wizard = (\<lambda>_. wizard), ru_write = None, ru_files = fs, ru_decode = decode,
      ru_getenv = (\<lambda>_. ''''), ru_telemetry = (\<lambda>_. None), ru_connect = no_connect, ru_instance = '''',
      ru_sha256 = id, ru_listen = (\<lambda>_. None), ru_ui = None, ru_stop = None, ru_stop_operations = None,
      ru_stop_server = None, ru_close_limits = None, ru_clock = 0\<rparr>"

abbreviation sample_r :: setup_result where "sample_r \<equiv> setup_result_of sample_form"

lemma sample_wizard:
  "parse_flags default_flags [] = Some default_flags"
  "rf_config default_flags = ''config.yaml''" "rf_operations default_flags = ''''" "0 \<le> rf_interval default_flags"
  "\<forall>v \<in> result_values sample_r. plain_value v" "sr_config_path sample_r = ''config.yaml''"
  by (simp_all add: default_flags_def nanos_second_def sample_result) code_simp

text \<open>A wizard's file without an API key is refused, for that reason.\<close>

lemma keyless_file_refused:
  assumes "yaml_decoder decode" "\<forall>v \<in> result_values r. plain_value v" "sr_api_key r = ''''"
    and "fs path = Some (config_template r)"
  shows "load decode getenv fs path = Inl (Invalid ''provider requires api_key or api_key_file'' ''gemini'')"
proof -
  have "CHR ''$'' \<notin> set (config_template r)"
    using assms(2) by (intro template_no_dollar) (simp add: plain_value_def)
  moreover have "decode (config_template r) = Some (wizard_config r)"
    using assms(1,2) by (rule template_decoded)
  moreover obtain rt where "build_runtime (wizard_loaded r) = Inr rt"
    "validate rt = Inl (Invalid ''provider requires api_key or api_key_file'' ''gemini'')"
    using assms(3) by (rule wizard_without_key)
  ultimately show ?thesis
    using assms(4) by (simp add: load_def expand_env_plain wizard_defaults wizard_secrets wizard_sync)
qed

text \<open>
  C36. A wizard stopped by an interrupt is taken for a finished one: \<open>RunSetup\<close> reports no error
  and no cancellation, so whatever had been typed (in plain values), as long as the API key was
  still blank, \<open>run\<close> writes a configuration with what the form held, announces its token and
  refuses it at once; and every later run, with that file in place, is refused the same way and
  never asks again.
\<close>

theorem interrupted_wizard_saved:
  assumes "parse_flags default_flags args = Some f" and "0 \<le> rf_interval f"
    and "ru_missing u (rf_config f)"
    and "ru_wizard u (rf_config f) = runSetup (rf_config f) random msgs ProgramInterrupted"
    and "setup_loop (newSetup (rf_config f) random) msgs = (sm, quit)" and "\<not> sm_cancelled sm"
    and "trim_space (sm_fields sm ! sfAPIKey) = ''''" and "r = setup_result_of sm"
    and "\<forall>v \<in> result_values r. plain_value v"
    and "ru_write u = None" and "yaml_decoder (ru_decode u)"
    and "parse_flags default_flags later_args = Some later" and "0 \<le> rf_interval later"
    and "rf_config later = rf_config f" and "\<not> ru_missing next (rf_config f)"
    and "ru_files next (rf_config f) = Some (config_template r)" and "yaml_decoder (ru_decode next)"
  shows "run u withTUI args =
      (Some (LoadFailed (Invalid ''provider requires api_key or api_key_file'' ''gemini'')),
       [SetupWizard (rf_config f), WroteConfig (rf_config f) (config_template r),
        PrintSetup (setup_report (rf_config f) r)]) \<and>
    run next withTUI' later_args =
      (Some (LoadFailed (Invalid ''provider requires api_key or api_key_file'' ''gemini'')), [])"
proof -
  have r: "sr_config_path r = rf_config f" "\<not> sr_cancelled r" "sr_api_key r = ''''"
    using setup_loop_path [OF assms(5)] assms(6,7) by (simp_all add: assms(8) setup_result_of_def newSetup_def)
  have "ru_wizard u (rf_config f) = (r, None)" using assms(4,5,8) by (simp add: runSetup_def)
  then have wizard: "runSetupWizard u (rf_config f) =
      (None, [SetupWizard (rf_config f), WroteConfig (rf_config f) (config_template r),
         PrintSetup (setup_report (rf_config f) r)],
       (ru_files u)(rf_config f \<mapsto> config_template r))"
    using assms(10) r by (simp add: runSetupWizard_def writeConfig_def)
  have "load (ru_decode u) (ru_getenv u) ((ru_files u)(rf_config f \<mapsto> config_template r)) (rf_config f) =
      Inl (Invalid ''provider requires api_key or api_key_file'' ''gemini'')"
    using assms(11,9) r(3) by (rule keyless_file_refused) simp
  moreover have "load (ru_decode next) (ru_getenv next) (ru_files next) (rf_config f) =
      Inl (Invalid ''provider requires api_key or api_key_file'' ''gemini'')"
    using assms(17,9) r(3) assms(16) by (rule keyless_file_refused)
  ultimately show ?thesis using assms(1-3,12-15) by (simp add: run_def wizard Let_def)
qed

theorem first_run_serves_witness:
  "\<exists>(g :: unit gateway) err evs.
     run (sample_run_world (\<lambda>_. None) yaml_decode True
         (runSetup ''config.yaml'' ''0123456789abcdef'' sample_keys ProgramDone)) False [] = (err, evs) \<and>
     WroteConfig ''config.yaml'' (config_template sample_r) \<in> set evs \<and> BindApplication '':8080'' \<in> set evs \<and>
     StartApplication g \<in> set evs"
proof -
  let ?u = "sample_run_world (\<lambda>_. None) yaml_decode True
         (runSetup ''config.yaml'' ''0123456789abcdef'' sample_keys ProgramDone)"
  have u: "ru_missing ?u (rf_config default_flags)"
    "ru_wizard ?u (rf_config default_flags) =
       runSetup (rf_config default_flags) ''0123456789abcdef'' sample_keys ProgramDone"
    "ru_write ?u = None" "yaml_decoder (ru_decode ?u)"
    "\<forall>te. ru_telemetry ?u te = None" "ru_listen ?u (sr_listen sample_r) = None"
    by (simp_all add: sample_run_world_def sample_wizard(2) yaml_decode_decoder)
  have loop: "setup_loop (newSetup (rf_config default_flags) ''0123456789abcdef'') sample_keys = (sample_form, True)"
    by (simp add: sample_wizard(2) sample_form(1))
  from first_run_serves [OF sample_wizard(1,4,3) u(1,2) sample_form(5) loop sample_form(3) refl sample_wizard(5)
      u(3-6), of False] show ?thesis by (auto simp: sample_wizard(2) sample_result)
qed

text \<open>A form interrupted after the listen address was changed, the key still blank.\<close>

definition half_keys :: "setup_msg list" where
  "half_keys = [KeyPress ''tab'', KeyPress ''tab'', KeyPress ''1'']"

definition half_form :: setup_model where
  "half_form = fst (setup_loop (newSetup ''config.yaml'' ''0123456789abcdef'') half_keys)"

lemma half_form:
  "setup_loop (newSetup ''config.yaml'' ''0123456789abcdef'') half_keys = (half_form, False)"
  "\<not> sm_cancelled half_form" "trim_space (sm_fields half_form ! sfAPIKey) = ''''"
  "\<forall>v \<in> result_values (setup_result_of half_form). plain_value v"
  "sr_listen (setup_result_of half_form) = '':80801''"
proof -
  have "\<not> snd (setup_loop (newSetup ''config.yaml'' ''0123456789abcdef'') half_keys)" by code_simp
  then show "setup_loop (newSetup ''config.yaml'' ''0123456789abcdef'') half_keys = (half_form, False)"
    by (simp add: half_form_def prod_eq_iff)
  show "\<not> sm_cancelled half_form" "trim_space (sm_fields half_form ! sfAPIKey) = ''''"
    "\<forall>v \<in> result_values (setup_result_of half_form). plain_value v"
    "sr_listen (setup_result_of half_form) = '':80801''" by code_simp+
qed

theorem interrupted_wizard_saved_witness:
  "\<exists>content. run (sample_run_world (\<lambda>_. None) yaml_decode True
       (runSetup ''config.yaml'' ''0123456789abcdef'' half_keys ProgramInterrupted)) True [] =
     (Some (LoadFailed (Invalid ''provider requires api_key or api_key_file'' ''gemini'')),
      [SetupWizard ''config.yaml'', WroteConfig ''config.yaml'' content,
       PrintSetup (setup_report ''config.yaml'' (setup_result_of half_form))]) \<and>
     run (sample_run_world (\<lambda>_. Some content) yaml_decode False (cancelled_result, None)) False [] =
      (Some (LoadFailed (Invalid ''provider requires api_key or api_key_file'' ''gemini'')), [])"
proof -
  let ?r = "setup_result_of half_form"
  let ?u = "sample_run_world (\<lambda>_. None) yaml_decode True
       (runSetup ''config.yaml'' ''0123456789abcdef'' half_keys ProgramInterrupted)"
  let ?next = "sample_run_world (\<lambda>_. Some (config_template ?r)) yaml_decode False (cancelled_result, None)"
  have u: "ru_missing ?u (rf_config default_flags)"
    "ru_wizard ?u (rf_config default_flags) = runSetup (rf_config default_flags) ''0123456789abcdef'' half_keys ProgramInterrupted"
    "ru_write ?u = None" "yaml_decoder (ru_decode ?u)"
    by (simp_all add: sample_run_world_def sample_wizard(2) yaml_decode_decoder)
  have n: "\<not> ru_missing ?next (rf_config default_flags)"
    "ru_files ?next (rf_config default_flags) = Some (config_template ?r)" "yaml_decoder (ru_decode ?next)"
    by (simp_all add: sample_run_world_def yaml_decode_decoder)
  have loop: "setup_loop (newSetup (rf_config default_flags) ''0123456789abcdef'') half_keys = (half_form, False)"
    by (simp add: sample_wizard(2) half_form(1))
  from interrupted_wizard_saved [OF sample_wizard(1,4) u(1,2) loop half_form(2,3) refl half_form(4) u(3,4)
      sample_wizard(1,4) refl n, of True False] show ?thesis by (auto simp: sample_wizard(2))
qed

abbreviation sample_args :: "string list" where "sample_args \<equiv> [''--operations-listen=:9090'']"

definition sample_world :: "unit run_world" where
  "sample_world = sample_run_world (\<lambda>_. Some (config_template sample_r)) (\<lambda>_. Some (wizard_config sample_r)) False
     (cancelled_result, None)"

lemma sample_run:
  obtains g :: "unit gateway" and rt err where
    "run sample_world False sample_args =
     (err, [TelemetryUp, GatewayUp, BindApplication (hs_addr (gw_server g)), BindOperations '':9090''] @
        StartApplication (isolateOperationsEndpoints g) #
        [StartOperations (operations_server rt '':9090''),
         StartWatch ''config.yaml'' (5 * nanos_second), PrintInfo, CancelReload, StopOperations, GatewayDown,
         TelemetryDown])"
proof -
  have t: "\<forall>v \<in> result_values sample_r. trim_space v = v \<and> v \<noteq> ''''"
    unfolding sample_result by code_simp
  have d: "\<forall>v \<in> result_values sample_r. CHR ''$'' \<notin> set v"
    using sample_wizard(5) by (simp add: plain_value_def)
  obtain rt and g :: "unit gateway" where g:
    "load (\<lambda>_. Some (wizard_config sample_r)) (\<lambda>_. '''') (\<lambda>_. Some (config_template sample_r)) ''config.yaml'' = Inr rt"
    "new_gateway no_connect '''' id 0 rt = Inr g" "sv_listen (cf_server (rt_config rt)) = '':8080''"
    using loaded_from_template [where fs = "\<lambda>_. Some (config_template sample_r)" and path = "''config.yaml''" and
        decode = "\<lambda>_. Some (wizard_config sample_r)", OF refl refl t d, of "\<lambda>_. ''''" no_connect "''''" id 0]
    by (auto simp: sample_result)
  have f: "parse_flags default_flags sample_args =
      Some \<lparr>rf_config = ''config.yaml'', rf_interval = 5 * nanos_second, rf_operations = '':9090''\<rparr>"
    by code_simp
  have "trim_space '':9090'' = '':9090''" "trim_space '':8080'' = '':8080''" by code_simp+
  then show thesis using g new_gateway_server(2) [OF g(2)]
    by (intro that [of None g rt]) (simp add: run_def f sample_world_def sample_run_world_def run_gateway_def run_servers_def
        shutdown_def gateway_shutdown_def nanos_second_def Let_def del: parse_flags.simps)
qed

theorem run_serves_when_bound_witness:
  "\<exists>(g :: unit gateway) addr. event_ok [TelemetryUp, GatewayUp, BindApplication addr, BindOperations '':9090'']
     (StartApplication (isolateOperationsEndpoints g))"
proof (rule sample_run)
  fix g :: "unit gateway" and rt err
  assume "run sample_world False sample_args =
     (err, [TelemetryUp, GatewayUp, BindApplication (hs_addr (gw_server g)), BindOperations '':9090''] @
        StartApplication (isolateOperationsEndpoints g) #
        [StartOperations (operations_server rt '':9090''),
         StartWatch ''config.yaml'' (5 * nanos_second), PrintInfo, CancelReload, StopOperations, GatewayDown,
         TelemetryDown])"
  from run_serves_when_bound [OF this] show ?thesis by blast
qed

theorem run_releases_witness:
  "\<exists>err evs. run sample_world False sample_args = (err, evs) \<and> StopOperations \<in> set evs"
proof (rule sample_run)
  fix g :: "unit gateway" and rt err
  assume r: "run sample_world False sample_args =
     (err, [TelemetryUp, GatewayUp, BindApplication (hs_addr (gw_server g)), BindOperations '':9090''] @
        StartApplication (isolateOperationsEndpoints g) #
        [StartOperations (operations_server rt '':9090''),
         StartWatch ''config.yaml'' (5 * nanos_second), PrintInfo, CancelReload, StopOperations, GatewayDown,
         TelemetryDown])"
  show ?thesis using run_releases [OF r] r by auto
qed

theorem watch_keeps_last_good_witness:
  "\<exists>(g :: unit gateway) rt. gateway_reachable g \<and> rs_cfg (gw_runtime g) \<noteq> rt \<and>
     rs_cfg (gw_runtime (watchConfig id (\<lambda>_. '''') (\<lambda>_. ''bad'') g
       [\<lparr>tk_load = Inr rt, tk_now = 1, tk_logged = 2\<rparr>, \<lparr>tk_load = Inl ParseConfig, tk_now = 3, tk_logged = 4\<rparr>])) = rt"
proof -
  obtain rt rt' mgr where rt: "load (\<lambda>_. Some sample_config) (\<lambda>_. '''') (\<lambda>_. Some ''x'') sample_path = Inr rt"
    "load (\<lambda>_. Some sample_config2) (\<lambda>_. '''') (\<lambda>_. Some ''x'') sample_path = Inr rt'"
    "newRateLimitManager no_connect '''' rt = Inr mgr"
    "\<not> same_config (rt_config rt) (rt_config rt')" "validateHotReload rt rt' = Inr ()"
    by (rule sample_reload)
  obtain g :: "unit gateway" where g0: "new_gateway no_connect '''' id 0 rt = Inr g" "gw_runtime g = snapshot_of rt 0"
    using new_gateway_ready [OF load_runtime_ready [OF rt(1)] rt(3), of id 0] by blast
  with sample_loaded(1) [OF rt(1)] have g: "gateway_reachable g" by (metis gateway_reachable.start)
  let ?ticks = "[\<lparr>tk_load = Inr rt', tk_now = 1, tk_logged = 2\<rparr>, \<lparr>tk_load = Inl ParseConfig, tk_now = 3, tk_logged = 4\<rparr>]"
  have "\<forall>tk \<in> set ?ticks. \<forall>rt. tk_load tk = Inr rt \<longrightarrow> loaded_config rt" using sample_loaded(2) [OF rt(2)] by simp
  from watch_keeps_last_good [OF g this refl, of id "\<lambda>_. ''''" "\<lambda>_. ''bad''"]
  have "rs_cfg (gw_runtime (watchConfig id (\<lambda>_. '''') (\<lambda>_. ''bad'') g ?ticks)) = rt'"
    using rt(4,5) by (auto simp: g0(2) takes_over_def hot_reload_iff runs_configuration_def)
  moreover have "rs_cfg (gw_runtime g) \<noteq> rt'" using rt(4) by (auto simp: g0(2) same_config_def)
  ultimately show ?thesis using g by blast
qed

end
