(* ===== verification/Tui_Text.thy ===== *)
theory Tui_Text
  imports Tui_Setup Gw_Views
begin

section \<open>Text helpers of the terminal UI (internal/tui/helpers.go)\<close>

text \<open>
  The functions that turn values into text. What Lip Gloss draws is an argument
  (\<open>terminal\<close>): \<open>paint\<close> is \<open>Style.Render\<close>, \<open>boxed\<close> is \<open>Style.Width(w).Render\<close> and \<open>cells\<close> is
  \<open>lipgloss.Width\<close>. So are the texts the standard library makes of times, durations and
  floating-point quotients: \<open>percent1 a b\<close> is \<open>%.1f\<close> of \<open>float64(a)/float64(b)*100\<close>,
  \<open>quotient1 a b\<close> is \<open>%.1f\<close> of \<open>float64(a)/float64(b)\<close>.
\<close>

datatype style =
  TitleStyle | SubtitleStyle | MutedStyle | TextStyle | ValueStyle | LabelStyle | OkStyle | WarnStyle
| BadStyle | StatusPausedStyle | HeaderStyle | FooterStyle | NavigationStyle | NavItemStyle
| NavActiveStyle | ActiveTabStyle | InactiveTabStyle | WorkspaceStyle | SectionRuleStyle
| SelectedPillStyle | DetailBgStyle | KeyStyle | PlainStyle
| SetupTitleSt | SetupSubtitleSt | SetupMutedSt | SetupLabelSt | SetupHintSt | SetupErrSt
| SetupActiveBorder | SetupInactiveBorder

abbreviation statusOKStyle :: style where "statusOKStyle \<equiv> OkStyle"
abbreviation statusWarnStyle :: style where "statusWarnStyle \<equiv> WarnStyle"

text \<open>
  What Lip Gloss is told of each style: \<open>styles.go\<close>, and for the setup form the styles local to
  its \<open>View\<close> in \<open>setup.go\<close>. Colours are the texts given to \<open>lipgloss.Color\<close>.
\<close>

datatype border_sides = NoBorder | LeftBorder | RightBorder | RoundedBorder

record style_attributes =
  sa_bold :: bool
  sa_italic :: bool
  sa_underline :: bool
  sa_foreground :: "string option"
  sa_background :: "string option"
  sa_border :: border_sides
  sa_border_foreground :: "string option"
  sa_padding_left :: nat
  sa_padding_right :: nat

definition foregroundColor :: string where "foregroundColor = ''#d8dee9''"
definition mutedColor :: string where "mutedColor = ''#8792a2''"
definition accentColor :: string where "accentColor = ''#7dd3fc''"
definition borderColor :: string where "borderColor = ''#344054''"
definition successColor :: string where "successColor = ''#86efac''"
definition warningColor :: string where "warningColor = ''#facc15''"
definition errorColor :: string where "errorColor = ''#f87171''"

definition new_style :: style_attributes where
  "new_style = \<lparr>sa_bold = False, sa_italic = False, sa_underline = False, sa_foreground = None,
     sa_background = None, sa_border = NoBorder, sa_border_foreground = None, sa_padding_left = 0, sa_padding_right = 0\<rparr>"

definition coloured :: "bool \<Rightarrow> string \<Rightarrow> style_attributes" where
  "coloured bold colour = new_style\<lparr>sa_bold := bold, sa_foreground := Some colour\<rparr>"

fun attributes :: "style \<Rightarrow> style_attributes" where
  "attributes TitleStyle = coloured True foregroundColor"
| "attributes SubtitleStyle = coloured True foregroundColor"
| "attributes MutedStyle = coloured False mutedColor"
| "attributes TextStyle = coloured False foregroundColor"
| "attributes ValueStyle = coloured True accentColor"
| "attributes LabelStyle = coloured False mutedColor"
| "attributes OkStyle = coloured True successColor"
| "attributes WarnStyle = coloured True warningColor"
| "attributes BadStyle = coloured True errorColor"
| "attributes StatusPausedStyle = coloured True mutedColor"
| "attributes HeaderStyle = (coloured False foregroundColor)\<lparr>sa_padding_left := 1\<rparr>"
| "attributes FooterStyle = (coloured False mutedColor)\<lparr>sa_padding_left := 1\<rparr>"
| "attributes NavigationStyle = new_style\<lparr>sa_border := RightBorder, sa_border_foreground := Some borderColor,
     sa_padding_left := 1, sa_padding_right := 1\<rparr>"
| "attributes NavItemStyle = coloured False mutedColor"
| "attributes NavActiveStyle = coloured True accentColor"
| "attributes ActiveTabStyle = (coloured True accentColor)\<lparr>sa_underline := True\<rparr>"
| "attributes InactiveTabStyle = coloured False mutedColor"
| "attributes WorkspaceStyle = new_style\<lparr>sa_padding_left := 1\<rparr>"
| "attributes SectionRuleStyle = coloured False borderColor"
| "attributes SelectedPillStyle = coloured True accentColor"
| "attributes DetailBgStyle = (coloured False foregroundColor)\<lparr>sa_border := LeftBorder,
     sa_border_foreground := Some borderColor, sa_padding_left := 1\<rparr>"
| "attributes KeyStyle = coloured True accentColor"
| "attributes PlainStyle = new_style"
| "attributes SetupTitleSt = (coloured True ''230'')\<lparr>sa_background := Some ''57'', sa_padding_left := 2, sa_padding_right := 2\<rparr>"
| "attributes SetupSubtitleSt = coloured True ''39''"
| "attributes SetupMutedSt = coloured False ''245''"
| "attributes SetupLabelSt = coloured True ''86''"
| "attributes SetupHintSt = (coloured False ''240'')\<lparr>sa_italic := True\<rparr>"
| "attributes SetupErrSt = coloured True ''203''"
| "attributes SetupActiveBorder = new_style\<lparr>sa_border := RoundedBorder, sa_border_foreground := Some ''57'',
     sa_padding_left := 1, sa_padding_right := 1\<rparr>"
| "attributes SetupInactiveBorder = new_style\<lparr>sa_border := RoundedBorder, sa_border_foreground := Some ''238'',
     sa_padding_left := 1, sa_padding_right := 1\<rparr>"

text \<open>The full-width surfaces keep a left inset only: no border, and nothing on the right.\<close>

lemma surfaces_left_inset:
  "s \<in> {HeaderStyle, FooterStyle, WorkspaceStyle} \<Longrightarrow>
     sa_padding_left (attributes s) = 1 \<and> sa_padding_right (attributes s) = 0 \<and> sa_border (attributes s) = NoBorder"
  by (auto simp: coloured_def new_style_def)

record terminal =
  paint :: "style \<Rightarrow> string \<Rightarrow> string"
  boxed :: "style \<Rightarrow> int \<Rightarrow> string \<Rightarrow> string"
  cells :: "string \<Rightarrow> int"
  join_horizontal :: "string list \<Rightarrow> string"
  join_vertical :: "string list \<Rightarrow> string"
  duration_text :: "duration \<Rightarrow> string"
  time_text :: "string \<Rightarrow> gotime \<Rightarrow> string"
  percent1 :: "int \<Rightarrow> int \<Rightarrow> string"
  quotient1 :: "64 word \<Rightarrow> 64 word \<Rightarrow> string"
  ratio_text :: "ratio \<Rightarrow> string"


subsection \<open>Glyphs\<close>

definition glyph_rule :: string where "glyph_rule = [CHR 0xE2, CHR 0x94, CHR 0x80]"
definition glyph_dot :: string where "glyph_dot = [CHR 0xC2, CHR 0xB7]"
definition glyph_more :: string where "glyph_more = [CHR 0xE2, CHR 0x80, CHR 0xA6]"
definition glyph_up_down :: string where
  "glyph_up_down = [CHR 0xE2, CHR 0x86, CHR 0x91, CHR 0xE2, CHR 0x86, CHR 0x93]"

definition glyph_bullet :: string where "glyph_bullet = [CHR 0xE2, CHR 0x80, CHR 0xA2]"
definition glyph_cursor :: string where "glyph_cursor = [CHR 0xE2, CHR 0x96, CHR 0x8C]"
definition glyph_dash :: string where "glyph_dash = [CHR 0xE2, CHR 0x80, CHR 0x94]"
definition glyph_warning :: string where "glyph_warning = [CHR 0xE2, CHR 0x9A, CHR 0xA0]"

text \<open>The eight bars of a sparkline.\<close>

definition blocks :: "string list" where
  "blocks = map (\<lambda>c. [CHR 0xE2, CHR 0x96, c])
     [CHR 0x81, CHR 0x82, CHR 0x83, CHR 0x84, CHR 0x85, CHR 0x86, CHR 0x87, CHR 0x88]"

definition repeat_text :: "string \<Rightarrow> int \<Rightarrow> string" where
  "repeat_text s n = concat (replicate (nat n) s)"


subsection \<open>Values\<close>

definition enabledClientCount :: "config_snapshot \<Rightarrow> int" where
  "enabledClientCount cfg = int (length (filter sn_enabled (cn_clients cfg)))"

definition limitText :: "int \<Rightarrow> string" where
  "limitText v = (if v \<le> 0 then ''unlimited'' else itoa v @ '' rpm'')"

definition statusText :: "int \<Rightarrow> string" where
  "statusText status = (if status = 0 then ''-'' else itoa status)"

definition coloredStatus :: "terminal \<Rightarrow> int \<Rightarrow> string" where
  "coloredStatus tm status =
     (let s = statusText status in
      if 500 \<le> status then paint tm BadStyle s
      else if 400 \<le> status then paint tm WarnStyle s
      else if 200 \<le> status \<and> status < 300 then paint tm OkStyle s
      else paint tm TextStyle s)"

definition logPath :: "log_entry \<Rightarrow> string" where
  "logPath e =
     (if le_path e \<noteq> '''' then le_path e else if le_message e \<noteq> '''' then le_message e else ''-'')"

definition safeText :: "string \<Rightarrow> string \<Rightarrow> string" where
  "safeText v fallback = (if trim_space v = '''' then fallback else v)"

definition formatDuration :: "terminal \<Rightarrow> duration \<Rightarrow> string" where
  "formatDuration tm d =
     (if d \<le> 0 then ''-''
      else if d < nanos_second then duration_text tm (duration_round d nanos_ms)
      else duration_text tm (duration_round d (100 * nanos_ms)))"

definition percent :: "terminal \<Rightarrow> int \<Rightarrow> int \<Rightarrow> string" where
  "percent tm numerator denominator =
     (if denominator \<le> 0 then ''0.0%'' else percent1 tm numerator denominator @ ''%'')"

definition filterPill :: "terminal \<Rightarrow> string \<Rightarrow> string \<Rightarrow> bool \<Rightarrow> string" where
  "filterPill tm k label selected =
     (let text = k @ '' '' @ label in
      if selected then paint tm SelectedPillStyle (''['' @ text @ '']'') else paint tm MutedStyle text)"

definition routeKey :: "string \<Rightarrow> string" where
  "routeKey path =
     (let path = hd (split_on CHR ''?'' path) in
      if path = ''/_metrics'' then ''metrics''
      else if path = ''/_config'' then ''config''
      else if path = ''/_healthz'' then ''health''
      else if prefix ''/providers/'' path then ''provider''
      else if prefix ''/v1beta/openai/'' path \<or> prefix ''/v1/openai/'' path then ''openai''
      else if prefix ''/v1beta/'' path \<or> prefix ''/v1/'' path then ''native''
      else ''other'')"

text \<open>\<open>localBaseURL\<close> repeats the function of the wizard.\<close>

definition localBaseURL :: "string \<Rightarrow> string" where
  "localBaseURL addr =
     (let addr = trim_space addr in
      if addr = '''' \<or> prefix '':'' addr then ''http://localhost'' @ addr
      else if prefix ''0.0.0.0:'' addr then ''http://localhost:'' @ trim_prefix addr ''0.0.0.0:''
      else if prefix ''127.0.0.1:'' addr \<or> prefix ''localhost:'' addr then ''http://'' @ addr
      else ''http://'' @ addr)"

definition menuIndex :: "string \<Rightarrow> int" where
  "menuIndex v =
     (if v = ''1'' then 0 else if v = ''2'' then 1 else if v = ''3'' then 2 else if v = ''4'' then 3
      else if v = ''5'' then 4 else - 1)"


subsection \<open>Bytes\<close>

text \<open>The loop of \<open>humanBytes\<close>: \<open>n\<close> is the quotient left, \<open>d\<close> the unit reached so far.\<close>

function human_unit :: "64 word \<Rightarrow> 64 word \<Rightarrow> nat \<Rightarrow> 64 word \<times> nat" where
  "human_unit n d e = (if 1024 \<le> n then human_unit (n div 1024) (d * 1024) (Suc e) else (d, e))"
  by pat_completeness auto
termination
proof (relation "measure (\<lambda>(n, _). unat n)")
  fix n d :: "64 word" and e :: nat
  assume "1024 \<le> n"
  then have "1024 \<le> unat n" by (simp add: word_le_nat_alt)
  then show "((n div 1024, d * 1024, Suc e), n, d, e) \<in> measure (\<lambda>(n, _). unat n)"
    by (simp add: unat_div)
qed simp

declare human_unit.simps [simp del]

definition humanBytes :: "terminal \<Rightarrow> 64 word \<Rightarrow> string" where
  "humanBytes tm v =
     (if v < 1024 then itoa (uint v) @ '' B''
      else
        (let (d, e) = human_unit (v div 1024) 1024 0
         in quotient1 tm v d @ '' '' @ [''KMGTPE'' ! e] @ ''iB''))"

text \<open>\<open>uint64(max64(n, 0))\<close>.\<close>

definition byte_text :: "terminal \<Rightarrow> i64 \<Rightarrow> string" where
  "byte_text tm n = humanBytes tm (word_of_int (max n 0))"

subsection \<open>Bars\<close>

definition sparkline :: "terminal \<Rightarrow> int list \<Rightarrow> string" where
  "sparkline tm values =
     (let maxValue = foldl (\<lambda>a v. if a < v then v else a) 0 values in
      if maxValue = 0 then paint tm MutedStyle ''no recent traffic''
      else paint tm ValueStyle (concat (map (\<lambda>v.
        if v = 0 then glyph_dot
        else
          (let idx = (v * int (length blocks) - 1) sdiv maxValue;
               idx = (if idx < 0 then 0 else idx);
               idx = (if int (length blocks) \<le> idx then int (length blocks) - 1 else idx)
           in blocks ! nat idx)) values)))"


subsection \<open>Width\<close>

text \<open>The loop of \<open>truncate\<close> over the runes.\<close>

fun take_cells :: "terminal \<Rightarrow> int \<Rightarrow> int \<Rightarrow> string list \<Rightarrow> string" where
  "take_cells tm target used [] = ''''"
| "take_cells tm target used (r # rs) =
     (if target < used + cells tm r then '''' else r @ take_cells tm target (used + cells tm r) rs)"

definition truncate_text :: "terminal \<Rightarrow> string \<Rightarrow> int \<Rightarrow> string" where
  "truncate_text tm s width =
     (if width \<le> 0 then ''''
      else if cells tm s \<le> width then s
      else if width = 1 then glyph_more
      else take_cells tm (width - 1) 0 (runes s) @ glyph_more)"

definition truncatePlainStyled :: "terminal \<Rightarrow> string \<Rightarrow> int \<Rightarrow> string" where
  "truncatePlainStyled tm s width = (if cells tm s \<le> width then s else s)"

definition padBetween :: "terminal \<Rightarrow> string \<Rightarrow> string \<Rightarrow> int \<Rightarrow> string" where
  "padBetween tm left right width =
     (if width \<le> 0 then left @ '' '' @ right
      else
        (let gap = width - cells tm left - cells tm right in
         if gap < 1 then truncatePlainStyled tm left (max 1 (width - cells tm right - 1)) @ '' '' @ right
         else left @ repeat_text '' '' gap @ right))"

definition sectionRule :: "terminal \<Rightarrow> string \<Rightarrow> int \<Rightarrow> string" where
  "sectionRule tm title width =
     (let label = '' '' @ title @ '' ''; remaining = width - cells tm label in
      if remaining < 2 then paint tm SubtitleStyle title
      else paint tm SubtitleStyle label @ paint tm SectionRuleStyle (repeat_text glyph_rule remaining))"

definition kvRow :: "terminal \<Rightarrow> string \<Rightarrow> string \<Rightarrow> int \<Rightarrow> string" where
  "kvRow tm label val labelWidth =
     (let labelWidth = (if labelWidth < 8 then 8 else labelWidth)
      in paint tm LabelStyle (pad_right (nat labelWidth) label) @ '' '' @ paint tm TextStyle val)"


subsection \<open>The unit a byte count is shown in\<close>

lemma pow1024_bound:
  assumes "(1024 :: nat) ^ k \<le> v" "v < 2 ^ 64" shows "k \<le> 6"
proof (rule ccontr)
  assume "\<not> k \<le> 6"
  then have "(1024 :: nat) ^ 7 \<le> 1024 ^ k" by (intro power_increasing) simp_all
  with assms show False by simp
qed

lemma human_unit_spec:
  assumes "unat n = v div 1024 ^ Suc e" "unat d = 1024 ^ Suc e" "0 < unat n" "e \<le> 5" "v < 2 ^ 64"
    "human_unit n d e = (d', e')"
  shows "e' \<le> 5 \<and> unat d' = 1024 ^ Suc e' \<and> unat d' \<le> v \<and> v < 1024 * unat d'"
  using assms
proof (induction n d e rule: human_unit.induct)
  case (1 n d e)
  have le: "1024 ^ Suc e \<le> v"
    using 1(2,4) by (metis div_less gr_implies_not0 linorder_not_less)
  show ?case
  proof (cases "1024 \<le> n")
    case True
    then have n: "1024 \<le> v div 1024 ^ Suc e" using 1(2) by (simp add: word_le_nat_alt)
    have q: "v div 1024 ^ Suc (Suc e) = v div 1024 ^ Suc e div 1024"
      by (simp add: div_mult2_eq [symmetric] mult.commute)
    with n have "0 < v div 1024 ^ Suc (Suc e)" by (simp add: div_greater_zero_iff)
    then have le': "1024 ^ Suc (Suc e) \<le> v" by (simp only: div_greater_zero_iff)
    then have e: "Suc e \<le> 5" using pow1024_bound [OF _ 1(6)] by fastforce
    have "unat (d * 1024) = 1024 ^ Suc (Suc e)"
      using 1(3) le' 1(6) by (subst unat_mult_lem [THEN iffD1]) simp_all
    moreover have "unat (n div 1024) = v div 1024 ^ Suc (Suc e)" using q 1(2) by (simp add: unat_div)
    moreover have "human_unit (n div 1024) (d * 1024) (Suc e) = (d', e')"
      using 1(7) True by (simp add: human_unit.simps [of n d e])
    ultimately show ?thesis
      using 1(1) [OF True] e 1(6) \<open>0 < v div 1024 ^ Suc (Suc e)\<close> by simp
  next
    case False
    then have "v div 1024 ^ Suc e < 1024" using 1(2) by (simp add: word_le_nat_alt not_le)
    then have "v < 1024 * 1024 ^ Suc e" by (simp add: div_less_iff_less_mult del: power_Suc)
    moreover have "d' = d" "e' = e" using 1(7) False by (simp_all add: human_unit.simps [of n d e])
    ultimately show ?thesis using 1(3,5) le by simp
  qed
qed

text \<open>
  \<open>humanBytes\<close> picks the right unit for every 64-bit count: the divisor never wraps, it is the
  power of 1024 below the count, and the index into the unit letters is in range.
\<close>

theorem human_bytes_unit:
  assumes "1024 \<le> v" and "human_unit (v div 1024) 1024 0 = (d, e)"
  shows "e < length ''KMGTPE'' \<and> unat d = 1024 ^ Suc e \<and> unat d \<le> unat v \<and> unat v < 1024 * unat d"
proof -
  have "1024 \<le> unat v" using assms(1) by (simp add: word_le_nat_alt)
  then have "e \<le> 5 \<and> unat d = 1024 ^ Suc e \<and> unat d \<le> unat v \<and> unat v < 1024 * unat d"
    using assms(2) unsigned_less [of v]
    by (intro human_unit_spec [where n = "v div 1024" and d = 1024 and e = 0]) (simp_all add: unat_div div_greater_zero_iff)
  then show ?thesis by simp
qed

theorem human_bytes_unit_witness:
  "human_unit (- 1 div 1024) 1024 0 = (2 ^ 60, 5) \<and> (5 :: nat) < length ''KMGTPE''"
proof -
  have u: "human_unit (- 1 div 1024) 1024 0 = (2 ^ 60, 5)" by code_simp
  have "(1024 :: 64 word) \<le> - 1" by code_simp
  from human_bytes_unit [OF this u] u show ?thesis by blast
qed

end
