(* ===== verification/Tui_Stats.thy ===== *)
theory Tui_Stats
  imports Tui_Text "HOL-Library.Multiset"
begin

section \<open>Traffic statistics (internal/tui/stats.go)\<close>

text \<open>
  \<open>summarize\<close> as a fold over the retained log entries: counts by status class, the last
  minute, twenty one-minute buckets, latencies, and per client and per route figures in maps.
  The success rate is kept as its quotient, \<open>None\<close> standing for the zero value. The average
  is a 64-bit sum divided; the percentile is the nearest rank of the sorted latencies.
\<close>

record client_stats =
  ct_requests :: int
  ct_errors :: int
  ct_bytes_out :: i64
  ct_avg_latency :: duration
  ct_durations :: "duration list"

record route_stats =
  ro_requests :: int
  ro_errors :: int
  ro_avg_latency :: duration
  ro_durations :: "duration list"

record stats_snapshot =
  st_requests :: int
  st_last_minute :: int
  st_two_xx :: int
  st_four_xx :: int
  st_five_xx :: int
  st_success_rate :: "(int \<times> int) option"
  st_avg_latency :: duration
  st_p95_latency :: duration
  st_trend :: string
  st_last :: log_entry
  st_clients :: "string \<rightharpoonup> client_stats"
  st_routes :: "string \<rightharpoonup> route_stats"

definition zero_entry :: log_entry where
  "zero_entry = \<lparr>le_time = zero_time, le_level = '''', le_client = '''', le_client_ip = '''', le_provider = '''',
     le_method = '''', le_path = '''', le_status = 0, le_bytes = 0, le_duration = 0, le_request_id = '''',
     le_message = ''''\<rparr>"

definition zero_client_stats :: client_stats where
  "zero_client_stats = \<lparr>ct_requests = 0, ct_errors = 0, ct_bytes_out = 0, ct_avg_latency = 0, ct_durations = []\<rparr>"

definition zero_route_stats :: route_stats where
  "zero_route_stats = \<lparr>ro_requests = 0, ro_errors = 0, ro_avg_latency = 0, ro_durations = []\<rparr>"

definition percentile :: "duration list \<Rightarrow> int \<Rightarrow> duration" where
  "percentile values p =
     (if values = [] then 0
      else
        (let cp = sort values; idx = (int (length cp) * p + 99) sdiv 100; idx = (if idx \<le> 0 then 1 else idx)
         in cp ! nat (idx - 1)))"

definition sum_durations :: "duration list \<Rightarrow> duration" where
  "sum_durations values = foldl (\<lambda>total v. wrap64 (total + v)) 0 values"

definition averageDuration :: "duration list \<Rightarrow> duration" where
  "averageDuration values =
     (if values = [] then 0 else wrap64 (sum_durations values sdiv int (length values)))"

text \<open>The loop's state beside the snapshot: the latencies, their sum and the buckets.\<close>

record stats_loop =
  sl_out :: stats_snapshot
  sl_durations :: "duration list"
  sl_total :: duration
  sl_buckets :: "int list"

definition start_stats :: "terminal \<Rightarrow> stats_loop" where
  "start_stats tm =
     \<lparr>sl_out = \<lparr>st_requests = 0, st_last_minute = 0, st_two_xx = 0, st_four_xx = 0, st_five_xx = 0,
        st_success_rate = None, st_avg_latency = 0, st_p95_latency = 0,
        st_trend = paint tm MutedStyle ''no recent traffic'', st_last = zero_entry,
        st_clients = Map.empty, st_routes = Map.empty\<rparr>,
      sl_durations = [], sl_total = 0, sl_buckets = replicate 20 0\<rparr>"

definition minutes_ago :: "gotime \<Rightarrow> log_entry \<Rightarrow> int" where
  "minutes_ago now e = time_sub now (le_time e) sdiv nanos_minute"

definition count_status :: "int \<Rightarrow> stats_snapshot \<Rightarrow> stats_snapshot" where
  "count_status status st =
     (if 200 \<le> status \<and> status < 300 then st\<lparr>st_two_xx := st_two_xx st + 1\<rparr>
      else if 400 \<le> status \<and> status < 500 then st\<lparr>st_four_xx := st_four_xx st + 1\<rparr>
      else if 500 \<le> status then st\<lparr>st_five_xx := st_five_xx st + 1\<rparr>
      else st)"

definition count_bucket :: "int \<Rightarrow> int list \<Rightarrow> int list" where
  "count_bucket ago buckets =
     (if 0 \<le> ago \<and> ago < int (length buckets)
      then (let i = length buckets - 1 - nat ago in buckets[i := buckets ! i + 1]) else buckets)"

definition count_client :: "log_entry \<Rightarrow> client_stats \<Rightarrow> client_stats" where
  "count_client e cs =
     \<lparr>ct_requests = ct_requests cs + 1,
      ct_errors = (if 400 \<le> le_status e then ct_errors cs + 1 else ct_errors cs),
      ct_bytes_out = wrap64 (ct_bytes_out cs + le_bytes e), ct_avg_latency = ct_avg_latency cs,
      ct_durations = (if 0 < le_duration e then ct_durations cs @ [le_duration e] else ct_durations cs)\<rparr>"

definition count_route :: "log_entry \<Rightarrow> route_stats \<Rightarrow> route_stats" where
  "count_route e rs =
     \<lparr>ro_requests = ro_requests rs + 1,
      ro_errors = (if 400 \<le> le_status e then ro_errors rs + 1 else ro_errors rs),
      ro_avg_latency = ro_avg_latency rs,
      ro_durations = (if 0 < le_duration e then ro_durations rs @ [le_duration e] else ro_durations rs)\<rparr>"

definition lookup_or :: "'a \<Rightarrow> ('k \<rightharpoonup> 'a) \<Rightarrow> 'k \<Rightarrow> 'a" where
  "lookup_or z t k = (case t k of None \<Rightarrow> z | Some v \<Rightarrow> v)"

definition count_entry :: "gotime \<Rightarrow> log_entry \<Rightarrow> stats_loop \<Rightarrow> stats_loop" where
  "count_entry now e l =
     (let st = sl_out l;
          st = st\<lparr>st_requests := st_requests st + 1\<rparr>;
          st = (if time_sub now (le_time e) \<le> nanos_minute then st\<lparr>st_last_minute := st_last_minute st + 1\<rparr> else st);
          st = count_status (le_status e) st;
          l = (if 0 < le_duration e
               then l\<lparr>sl_durations := sl_durations l @ [le_duration e], sl_total := wrap64 (sl_total l + le_duration e)\<rparr>
               else l);
          l = l\<lparr>sl_buckets := count_bucket (minutes_ago now e) (sl_buckets l)\<rparr>;
          name = safeText (le_client e) ''unknown'';
          st = st\<lparr>st_clients := (st_clients st)(name \<mapsto> count_client e (lookup_or zero_client_stats (st_clients st) name))\<rparr>;
          route = routeKey (le_path e);
          st = st\<lparr>st_routes := (st_routes st)(route \<mapsto> count_route e (lookup_or zero_route_stats (st_routes st) route))\<rparr>
      in l\<lparr>sl_out := st\<rparr>)"

definition stats_step :: "gotime \<Rightarrow> stats_loop \<Rightarrow> log_entry \<Rightarrow> stats_loop" where
  "stats_step now l e =
     (if le_status e = 0 \<and> le_message e = '''' then l
      else
        (let l = l\<lparr>sl_out := (sl_out l)\<lparr>st_last := e\<rparr>\<rparr>
         in if le_status e = 0 then l else count_entry now e l))"

definition client_average :: "client_stats \<Rightarrow> client_stats" where
  "client_average cs = (if ct_durations cs \<noteq> [] then cs\<lparr>ct_avg_latency := averageDuration (ct_durations cs)\<rparr> else cs)"

definition route_average :: "route_stats \<Rightarrow> route_stats" where
  "route_average rs = (if ro_durations rs \<noteq> [] then rs\<lparr>ro_avg_latency := averageDuration (ro_durations rs)\<rparr> else rs)"

definition summarize :: "terminal \<Rightarrow> gotime \<Rightarrow> log_entry list \<Rightarrow> stats_snapshot" where
  "summarize tm now logs =
     (let l = foldl (stats_step now) (start_stats tm) logs; st = sl_out l;
          st = (if 0 < st_requests st
                then st\<lparr>st_success_rate := Some (st_two_xx st, st_requests st)\<rparr> else st);
          st = (if sl_durations l \<noteq> []
                then st\<lparr>st_avg_latency := wrap64 (sl_total l sdiv int (length (sl_durations l))),
                       st_p95_latency := percentile (sl_durations l) 95\<rparr> else st);
          st = st\<lparr>st_clients := map_option client_average \<circ> st_clients st,
                 st_routes := map_option route_average \<circ> st_routes st\<rparr>
      in st\<lparr>st_trend := sparkline tm (sl_buckets l)\<rparr>)"


subsection \<open>The nearest rank\<close>

lemma sorted_count_le:
  assumes "sorted xs" "i < length xs"
  shows "Suc i \<le> length (filter (\<lambda>v. v \<le> xs ! i) xs)" "length (filter (\<lambda>v. v < xs ! i) xs) \<le> i"
proof -
  have "take (Suc i) xs = filter (\<lambda>v. v \<le> xs ! i) (take (Suc i) xs)"
    using assms by (subst eq_commute) (auto simp: filter_id_conv in_set_conv_nth sorted_iff_nth_mono)
  then have "Suc i = length (filter (\<lambda>v. v \<le> xs ! i) (take (Suc i) xs))" using assms(2) by simp
  also have "\<dots> \<le> length (filter (\<lambda>v. v \<le> xs ! i) (take (Suc i) xs @ drop (Suc i) xs))"
    by (simp only: filter_append length_append)
  finally show "Suc i \<le> length (filter (\<lambda>v. v \<le> xs ! i) xs)" by simp
  have "filter (\<lambda>v. v < xs ! i) (drop i xs) = []"
    using assms by (auto simp: filter_empty_conv in_set_conv_nth not_less sorted_iff_nth_mono)
  then have "length (filter (\<lambda>v. v < xs ! i) (take i xs @ drop i xs)) \<le> i"
    by (simp only: filter_append length_append) (use length_filter_le [of _ "take i xs"] in fastforce)
  then show "length (filter (\<lambda>v. v < xs ! i) xs) \<le> i" by simp
qed

lemma filter_sort_length: "length (filter P (sort xs)) = length (filter P xs)"
  by (metis mset_filter mset_sort size_mset)

lemma percentile_index:
  assumes "values \<noteq> []" "0 \<le> p" "p \<le> 100"
  obtains i where "percentile values p = sort values ! i" "i < length values"
    "int i * 100 < p * int (length values) \<or> i = 0" "p * int (length values) \<le> 100 * int (Suc i)"
proof -
  let ?n = "int (length values)"
  let ?q = "(?n * p + 99) div 100"
  let ?idx = "if ?q \<le> 0 then 1 else ?q"
  have n: "1 \<le> ?n" using assms(1) by (cases "values") auto
  have pn: "0 \<le> ?n * p" "?n * p \<le> ?n * 100" using assms(2,3) by (simp_all add: mult_left_mono)
  have q: "100 * ?q \<le> ?n * p + 99" "?n * p + 99 < 100 * ?q + 100" by linarith+
  have "(?n * p + 99) sdiv 100 = ?q" using pn by (simp add: sdiv_nonneg)
  then have "percentile values p = sort values ! nat (?idx - 1)"
    using assms(1) by (simp add: percentile_def Let_def)
  moreover have "nat (?idx - 1) < length values" using q pn n by (auto split: if_splits)
  moreover have "int (nat (?idx - 1)) * 100 < p * ?n \<or> nat (?idx - 1) = 0"
    using q by (auto simp: mult.commute [of p]) 
  moreover have "p * ?n \<le> 100 * int (Suc (nat (?idx - 1)))" using q pn by (auto simp: mult.commute [of p])
  ultimately show thesis by (rule that)
qed

text \<open>
  C39. The percentile shown is the nearest-rank percentile: one of the latencies, such that at
  least \<open>p\<close> percent of all latencies are no larger and fewer than \<open>p\<close> percent are smaller (none
  when \<open>p\<close> is 0); the index into the sorted copy is always in range.
\<close>

theorem percentile_nearest_rank:
  assumes "values \<noteq> []" and "0 \<le> p" and "p \<le> 100"
  shows "percentile values p \<in> set values \<and>
    p * int (length values) \<le> 100 * int (length (filter (\<lambda>v. v \<le> percentile values p) values)) \<and>
    (100 * int (length (filter (\<lambda>v. v < percentile values p) values)) < p * int (length values) \<or>
     filter (\<lambda>v. v < percentile values p) values = [])"
proof (rule percentile_index [OF assms])
  fix i
  let ?r = "percentile values p"
  assume i: "?r = sort values ! i" "i < length values"
    "int i * 100 < p * int (length values) \<or> i = 0" "p * int (length values) \<le> 100 * int (Suc i)"
  have "?r \<in> set values" using i(1,2) by (metis length_sort nth_mem set_sort)
  moreover have c: "Suc i \<le> length (filter (\<lambda>v. v \<le> ?r) values)" "length (filter (\<lambda>v. v < ?r) values) \<le> i"
    using sorted_count_le [of "sort values" i] i(1,2) by (simp_all add: filter_sort_length)
  moreover have "p * int (length values) \<le> 100 * int (length (filter (\<lambda>v. v \<le> ?r) values))"
  proof -
    have "100 * int (Suc i) \<le> 100 * int (length (filter (\<lambda>v. v \<le> ?r) values))"
      using c(1) by (intro mult_left_mono) (simp_all only: of_nat_le_iff zero_le_numeral)
    with i(4) show ?thesis by (rule order_trans)
  qed
  moreover have "100 * int (length (filter (\<lambda>v. v < ?r) values)) < p * int (length values) \<or>
      filter (\<lambda>v. v < ?r) values = []"
  proof (cases "i = 0")
    case True
    with c(2) show ?thesis by simp
  next
    case False
    with i(3) have "100 * int i < p * int (length values)" by (simp add: mult.commute)
    moreover have "100 * int (length (filter (\<lambda>v. v < ?r) values)) \<le> 100 * int i"
      using c(2) by (intro mult_left_mono) (simp_all only: of_nat_le_iff zero_le_numeral)
    ultimately show ?thesis by (blast intro: le_less_trans)
  qed
  ultimately show ?thesis by blast
qed

theorem percentile_nearest_rank_witness:
  "percentile [30, 10, 20] 95 = 30 \<and> 95 * 3 \<le> 100 * int (length (filter (\<lambda>v. v \<le> 30) [30, 10, 20 :: int]))"
proof -
  have p: "percentile [30, 10, 20] 95 = 30" by code_simp
  from percentile_nearest_rank [of "[30, 10, 20]" 95] show ?thesis by (simp add: p)
qed


subsection \<open>The statistics of a log\<close>

definition served :: "log_entry list \<Rightarrow> log_entry list" where
  "served logs = filter (\<lambda>e. le_status e \<noteq> 0) logs"

text \<open>The entry the dashboard shows last.\<close>

definition latest :: "log_entry list \<Rightarrow> log_entry" where
  "latest logs =
     (let shown = filter (\<lambda>e. le_status e \<noteq> 0 \<or> le_message e \<noteq> '''') logs
      in if shown = [] then zero_entry else last shown)"

definition how_many :: "(log_entry \<Rightarrow> bool) \<Rightarrow> log_entry list \<Rightarrow> int" where
  "how_many P es = int (length (filter P es))"

definition latencies :: "log_entry list \<Rightarrow> duration list" where
  "latencies es = filter (\<lambda>d. 0 < d) (map le_duration es)"

definition bytes_sum :: "log_entry list \<Rightarrow> i64" where
  "bytes_sum es = foldl (\<lambda>t e. wrap64 (t + le_bytes e)) 0 es"

definition client_sums :: "log_entry list \<Rightarrow> client_stats option" where
  "client_sums es =
     (if es = [] then None
      else Some \<lparr>ct_requests = int (length es), ct_errors = how_many (\<lambda>e. 400 \<le> le_status e) es,
        ct_bytes_out = bytes_sum es, ct_avg_latency = 0, ct_durations = latencies es\<rparr>)"

definition route_sums :: "log_entry list \<Rightarrow> route_stats option" where
  "route_sums es =
     (if es = [] then None
      else Some \<lparr>ro_requests = int (length es), ro_errors = how_many (\<lambda>e. 400 \<le> le_status e) es,
        ro_avg_latency = 0, ro_durations = latencies es\<rparr>)"

definition of_client :: "string \<Rightarrow> log_entry list \<Rightarrow> log_entry list" where
  "of_client name es = filter (\<lambda>e. safeText (le_client e) ''unknown'' = name) es"

definition of_route :: "string \<Rightarrow> log_entry list \<Rightarrow> log_entry list" where
  "of_route route es = filter (\<lambda>e. routeKey (le_path e) = route) es"

lemma sums_snoc [simp]:
  "latest [] = zero_entry"
  "latest (es @ [e]) = (if le_status e \<noteq> 0 \<or> le_message e \<noteq> '''' then e else latest es)"
  "how_many P [] = 0" "how_many P (es @ [e]) = how_many P es + (if P e then 1 else 0)"
  "latencies [] = []" "latencies (es @ [e]) = latencies es @ (if 0 < le_duration e then [le_duration e] else [])"
  "bytes_sum [] = 0" "bytes_sum (es @ [e]) = wrap64 (bytes_sum es + le_bytes e)"
  "served [] = []" "served (es @ [e]) = served es @ (if le_status e \<noteq> 0 then [e] else [])"
  "of_client c [] = []"
  "of_client c (es @ [e]) = of_client c es @ (if safeText (le_client e) ''unknown'' = c then [e] else [])"
  "of_route r [] = []"
  "of_route r (es @ [e]) = of_route r es @ (if routeKey (le_path e) = r then [e] else [])"
  by (simp_all add: latest_def how_many_def latencies_def bytes_sum_def served_def of_client_def of_route_def)

lemma client_sums_snoc:
  "Some (count_client e (lookup_or zero_client_stats t k)) = client_sums (es @ [e])" if "t k = client_sums es"
  using that
  by (cases "es = []") (simp_all add: client_sums_def lookup_or_def count_client_def zero_client_stats_def
      how_many_def bytes_sum_def latencies_def)

lemma route_sums_snoc:
  "Some (count_route e (lookup_or zero_route_stats t k)) = route_sums (es @ [e])" if "t k = route_sums es"
  using that
  by (cases "es = []") (simp_all add: route_sums_def lookup_or_def count_route_def zero_route_stats_def
      how_many_def latencies_def)

text \<open>What the loop has computed after a log.\<close>

definition loop_sums :: "gotime \<Rightarrow> log_entry list \<Rightarrow> stats_loop \<Rightarrow> bool" where
  "loop_sums now logs l \<longleftrightarrow>
     (let es = served logs; st = sl_out l in
      st_requests st = int (length es) \<and>
      st_last_minute st = how_many (\<lambda>e. time_sub now (le_time e) \<le> nanos_minute) es \<and>
      st_two_xx st = how_many (\<lambda>e. 200 \<le> le_status e \<and> le_status e < 300) es \<and>
      st_four_xx st = how_many (\<lambda>e. 400 \<le> le_status e \<and> le_status e < 500) es \<and>
      st_five_xx st = how_many (\<lambda>e. 500 \<le> le_status e) es \<and>
      st_last st = latest logs \<and> st_success_rate st = None \<and> st_avg_latency st = 0 \<and> st_p95_latency st = 0 \<and>
      sl_durations l = latencies es \<and> sl_total l = sum_durations (latencies es) \<and>
      (\<forall>c. st_clients st c = client_sums (of_client c es)) \<and>
      (\<forall>r. st_routes st r = route_sums (of_route r es)) \<and>
      length (sl_buckets l) = 20 \<and>
      (\<forall>i < 20. sl_buckets l ! i = how_many (\<lambda>e. minutes_ago now e = 19 - int i) es))"

lemma count_status_sel [simp]:
  "st_requests (count_status s st) = st_requests st" "st_last_minute (count_status s st) = st_last_minute st"
  "st_two_xx (count_status s st) = st_two_xx st + (if 200 \<le> s \<and> s < 300 then 1 else 0)"
  "st_four_xx (count_status s st) = st_four_xx st + (if 400 \<le> s \<and> s < 500 then 1 else 0)"
  "st_five_xx (count_status s st) = st_five_xx st + (if 500 \<le> s then 1 else 0)"
  "st_last (count_status s st) = st_last st" "st_success_rate (count_status s st) = st_success_rate st" "st_avg_latency (count_status s st) = st_avg_latency st"
  "st_p95_latency (count_status s st) = st_p95_latency st"
  "st_clients (count_status s st) = st_clients st" "st_routes (count_status s st) = st_routes st"
  by (auto simp: count_status_def)

lemma count_bucket_nth:
  "length buckets = 20 \<Longrightarrow> i < 20 \<Longrightarrow>
   count_bucket ago buckets ! i = buckets ! i + (if ago = 19 - int i then 1 else 0)"
  by (auto simp: count_bucket_def Let_def nth_list_update)

lemma count_bucket_length [simp]: "length (count_bucket ago buckets) = length buckets"
  by (simp add: count_bucket_def Let_def)

lemma stats_step_sums:
  assumes "loop_sums now logs l" shows "loop_sums now (logs @ [e]) (stats_step now l e)"
proof (cases "le_status e = 0")
  case True
  then show ?thesis using assms by (simp add: stats_step_def loop_sums_def Let_def)
next
  case False
  then show ?thesis
    using assms
    by (simp add: stats_step_def count_entry_def loop_sums_def Let_def sum_durations_def
        client_sums_snoc route_sums_snoc count_bucket_nth)
qed

lemma stats_loop_sums: "loop_sums now logs (foldl (stats_step now) (start_stats tm) logs)"
proof (induction logs rule: rev_induct)
  case Nil
  show ?case
    by (auto simp: loop_sums_def start_stats_def sum_durations_def client_sums_def route_sums_def Let_def)
next
  case (snoc e logs)
  then show ?case by (simp add: stats_step_sums)
qed

text \<open>
  The dashboard's statistics are what the retained log says: for every log, the counts by
  status class, the last-minute count, the success quotient, the average and the 95th
  percentile of the positive latencies, the twenty one-minute bars and the latest entry are
  the declarative ones, and the client and route tables hold, for exactly the names that
  occur, the requests, errors, bytes and average latency of that name's entries.
\<close>

theorem summarize_exact:
  fixes tm now logs defines "es \<equiv> served logs" and "st \<equiv> summarize tm now logs"
  shows "st_requests st = int (length es) \<and>
    st_last_minute st = how_many (\<lambda>e. time_sub now (le_time e) \<le> nanos_minute) es \<and>
    st_two_xx st = how_many (\<lambda>e. 200 \<le> le_status e \<and> le_status e < 300) es \<and>
    st_four_xx st = how_many (\<lambda>e. 400 \<le> le_status e \<and> le_status e < 500) es \<and>
    st_five_xx st = how_many (\<lambda>e. 500 \<le> le_status e) es \<and>
    st_success_rate st = (if es = [] then None else Some (st_two_xx st, st_requests st)) \<and>
    st_avg_latency st = averageDuration (latencies es) \<and>
    st_p95_latency st = percentile (latencies es) 95 \<and> st_last st = latest logs \<and>
    st_trend st = sparkline tm (map (\<lambda>i. how_many (\<lambda>e. minutes_ago now e = 19 - int i) es) [0..<20]) \<and>
    st_clients st = (\<lambda>c. map_option client_average (client_sums (of_client c es))) \<and>
    st_routes st = (\<lambda>r. map_option route_average (route_sums (of_route r es)))"
proof -
  let ?l = "foldl (stats_step now) (start_stats tm) logs"
  note loop = stats_loop_sums [of now logs tm, unfolded loop_sums_def Let_def, folded es_def]
  have buckets: "sl_buckets ?l = map (\<lambda>i. how_many (\<lambda>e. minutes_ago now e = 19 - int i) es) [0..<20]"
    using loop by (intro nth_equalityI) simp_all
  have tables: "st_clients (sl_out ?l) = (\<lambda>c. client_sums (of_client c es))"
    "st_routes (sl_out ?l) = (\<lambda>r. route_sums (of_route r es))" using loop by auto
  show ?thesis
    unfolding st_def
    using loop
    by (simp add: summarize_def Let_def buckets tables averageDuration_def percentile_def comp_def)
qed

end
