(* ===== verification/Tui_Tables.thy ===== *)
theory Tui_Tables
  imports Tui_Stats
begin

section \<open>Layout and tables (internal/tui/layout.go, logs.go, providers.go, clients.go)\<close>

text \<open>
  The layout of a terminal size, and the rows and columns of the three tables, whose shape
  follows the width of the content area.
\<close>


subsection \<open>Layout\<close>

datatype layout_mode = LayoutWide | LayoutMedium | LayoutCompact | LayoutTiny

definition minTerminalWidth :: int where "minTerminalWidth = 54"
definition minTerminalHeight :: int where "minTerminalHeight = 14"

record layout =
  ly_width :: int
  ly_height :: int
  ly_mode :: layout_mode
  ly_header_height :: int
  ly_section_height :: int
  ly_footer_height :: int
  ly_nav_width :: int
  ly_gap :: int
  ly_workspace_width :: int
  ly_body_height :: int

definition zero_layout :: layout where
  "zero_layout = \<lparr>ly_width = 0, ly_height = 0, ly_mode = LayoutWide, ly_header_height = 0, ly_section_height = 0,
     ly_footer_height = 0, ly_nav_width = 0, ly_gap = 0, ly_workspace_width = 0, ly_body_height = 0\<rparr>"

definition calculateLayout :: "int \<Rightarrow> int \<Rightarrow> layout" where
  "calculateLayout width height =
     (let width = (if width \<le> 0 then 100 else width);
          height = (if height \<le> 0 then 30 else height);
          l = zero_layout\<lparr>ly_width := width, ly_height := height, ly_header_height := 1, ly_footer_height := 1,
                ly_gap := 1\<rparr>
      in if width < minTerminalWidth \<or> height < minTerminalHeight
         then l\<lparr>ly_mode := LayoutTiny, ly_workspace_width := max 1 width, ly_body_height := max 1 (height - 2)\<rparr>
         else
           (let l = (if 118 \<le> width
                     then l\<lparr>ly_mode := LayoutWide, ly_nav_width := 20, ly_section_height := 0,
                            ly_workspace_width := max 48 (width - 20 - ly_gap l)\<rparr>
                     else if 80 \<le> width
                     then l\<lparr>ly_mode := LayoutMedium, ly_section_height := 1, ly_workspace_width := width\<rparr>
                     else l\<lparr>ly_mode := LayoutCompact, ly_section_height := 1, ly_workspace_width := width\<rparr>);
                body = height - ly_header_height l - ly_section_height l - ly_footer_height l - 2
            in l\<lparr>ly_body_height := (if body < 8 then 8 else body)\<rparr>))"

definition IsWide :: "layout \<Rightarrow> bool" where "IsWide l \<longleftrightarrow> ly_mode l = LayoutWide"
definition IsCompact :: "layout \<Rightarrow> bool" where "IsCompact l \<longleftrightarrow> ly_mode l = LayoutCompact"
definition IsTiny :: "layout \<Rightarrow> bool" where "IsTiny l \<longleftrightarrow> ly_mode l = LayoutTiny"

definition contentWidth :: "layout \<Rightarrow> int" where
  "contentWidth l = (if 0 < ly_workspace_width l then max 24 (ly_workspace_width l - 4) else 96)"


subsection \<open>Columns\<close>

record column =
  col_title :: string
  col_width :: int

definition columns_of :: "(string \<times> int) list \<Rightarrow> column list" where
  "columns_of cs = map (\<lambda>(t, w). \<lparr>col_title = t, col_width = w\<rparr>) cs"

definition defaultLogColumns :: "int \<Rightarrow> column list" where
  "defaultLogColumns width =
     columns_of
       (if 118 \<le> width then
          [(''TIME'', 8), (''LVL'', 5), (''CLIENT'', 12), (''PROVIDER'', 13), (''METHOD'', 7), (''STATUS'', 7),
           (''DURATION'', 9), (''BYTES'', 9), (''PATH'', max 22 (width - 96))]
        else if 88 \<le> width then
          [(''TIME'', 8), (''CLIENT'', 13), (''PROVIDER'', 13), (''STATUS'', 7), (''DURATION'', 9),
           (''PATH'', max 22 (width - 62))]
        else if 68 \<le> width then
          [(''TIME'', 8), (''PROVIDER'', 13), (''STATUS'', 7), (''DURATION'', 9), (''PATH'', max 20 (width - 45))]
        else [(''TIME'', 5), (''STATUS'', 7), (''PATH'', max 18 (width - 18))])"

definition providerColumns :: "int \<Rightarrow> column list" where
  "providerColumns width =
     columns_of
       (if 112 \<le> width then
          [(''PROVIDER'', 18), (''ROLE'', 9), (''HEALTH'', 9), (''CIRCUIT'', 11), (''REQ'', 7), (''ERROR'', 8),
           (''FLIGHT'', 8), (''AVG'', 10), (''TYPE'', max 14 (width - 98))]
        else if 82 \<le> width then
          [(''PROVIDER'', 18), (''ROLE'', 9), (''HEALTH'', 9), (''CIRCUIT'', 11), (''REQ'', 7), (''ERROR'', 8),
           (''AVG'', max 10 (width - 72))]
        else [(''PROVIDER'', max 16 (width - 31)), (''HEALTH'', 9), (''CIRCUIT'', 11), (''REQ'', 7)])"

definition clientColumns :: "int \<Rightarrow> column list" where
  "clientColumns width =
     columns_of
       (if 102 \<le> width then
          [(''CLIENT'', 22), (''STATE'', 10), (''LIMIT'', 14), (''REQUESTS'', 10), (''ERROR'', 9), (''AVG'', 12),
           (''BYTES'', max 10 (width - 87))]
        else if 76 \<le> width then
          [(''CLIENT'', max 18 (width - 49)), (''STATE'', 10), (''LIMIT'', 14), (''REQUESTS'', 10), (''ERROR'', 9)]
        else [(''CLIENT'', max 18 (width - 26)), (''STATE'', 10), (''REQUESTS'', 10)])"


subsection \<open>Rows\<close>

type_synonym row = "string list"

definition logRow :: "terminal \<Rightarrow> log_entry \<Rightarrow> int \<Rightarrow> row" where
  "logRow tm e width =
     (if 118 \<le> width then
        [time_text tm ''15:04:05'' (le_time e), to_upper (le_level e), safeText (le_client e) ''-'',
         safeText (le_provider e) ''-'', safeText (le_method e) ''-'', statusText (le_status e),
         formatDuration tm (le_duration e), byte_text tm (le_bytes e), logPath e]
      else if 88 \<le> width then
        [time_text tm ''15:04:05'' (le_time e), safeText (le_client e) ''-'', safeText (le_provider e) ''-'',
         statusText (le_status e), formatDuration tm (le_duration e), logPath e]
      else if 68 \<le> width then
        [time_text tm ''15:04:05'' (le_time e), safeText (le_provider e) ''-'', statusText (le_status e),
         formatDuration tm (le_duration e), logPath e]
      else [time_text tm ''15:04'' (le_time e), statusText (le_status e), logPath e])"

definition zero_metrics_snapshot :: provider_metrics_snapshot where
  "zero_metrics_snapshot =
     \<lparr>ps_name = '''', ps_requests = 0, ps_requests2xx = 0, ps_requests4xx = 0, ps_requests5xx = 0,
      ps_transport_errors = 0, ps_in_flight = 0, ps_total_duration = 0, ps_average_duration = 0,
      ps_last_duration = 0, ps_last_status = 0, ps_last_request = zero_time, ps_consecutive_failures = 0,
      ps_health = ''''\<rparr>"

definition zero_circuit_snapshot :: circuit_snapshot where
  "zero_circuit_snapshot = \<lparr>cs_provider = '''', cs_state = '''', cs_failures = 0, cs_retry_after = 0\<rparr>"

text \<open>The two lookup maps: a later item of the same name wins.\<close>

definition providerMetricsByName :: "provider_metrics_snapshot list \<Rightarrow> string \<Rightarrow> provider_metrics_snapshot" where
  "providerMetricsByName items =
     lookup_or zero_metrics_snapshot (foldl (\<lambda>t p. t(ps_name p \<mapsto> p)) Map.empty items)"

definition providerCircuitsByName :: "circuit_snapshot list \<Rightarrow> string \<Rightarrow> circuit_snapshot" where
  "providerCircuitsByName items =
     lookup_or zero_circuit_snapshot (foldl (\<lambda>t c. t(cs_provider c \<mapsto> c)) Map.empty items)"

definition providerAttentionCount :: "provider_metrics_snapshot list \<Rightarrow> circuit_snapshot list \<Rightarrow> int" where
  "providerAttentionCount metrics circuits =
     (let attention = foldl (\<lambda>a p. if ps_health p = ''warning'' \<or> ps_health p = ''degraded'' then insert (ps_name p) a else a)
            {} metrics;
          attention = foldl (\<lambda>a c. if cs_state c = ''open'' \<or> cs_state c = ''half_open'' then insert (cs_provider c) a else a)
            attention circuits
      in int (card attention))"

definition providerHealthCell :: "string \<Rightarrow> string" where
  "providerHealthCell health =
     (if health = ''healthy'' then ''OK'' else if health = ''warning'' then ''WARN''
      else if health = ''degraded'' then ''FAIL'' else ''?'')"

text \<open>The sum of the three counters wraps at 64 bits.\<close>

definition provider_errors :: "provider_metrics_snapshot \<Rightarrow> 64 word" where
  "provider_errors p = ps_requests4xx p + ps_requests5xx p + ps_transport_errors p"

definition providerErrorRate :: "terminal \<Rightarrow> provider_metrics_snapshot \<Rightarrow> string" where
  "providerErrorRate tm p =
     (if ps_requests p = 0 then ''0.0%''
      else percent1 tm (uint (provider_errors p)) (uint (ps_requests p)) @ ''%'')"

definition providerRow ::
  "terminal \<Rightarrow> string \<Rightarrow> string \<Rightarrow> string \<Rightarrow> provider_metrics_snapshot \<Rightarrow> circuit_snapshot \<Rightarrow> int \<Rightarrow> row" where
  "providerRow tm name kind role pm circuit width =
     (let health = providerHealthCell (ps_health pm); circuitState = safeText (cs_state circuit) ''closed'';
          errRate = providerErrorRate tm pm
      in if 112 \<le> width then
           [name, role, health, circuitState, itoa (uint (ps_requests pm)), errRate, itoa (ps_in_flight pm),
            formatDuration tm (ps_average_duration pm), kind]
         else if 82 \<le> width then
           [name, role, health, circuitState, itoa (uint (ps_requests pm)), errRate,
            formatDuration tm (ps_average_duration pm)]
         else [name, health, circuitState, itoa (uint (ps_requests pm))])"

definition clientTableRow :: "terminal \<Rightarrow> string \<Rightarrow> bool \<Rightarrow> int \<Rightarrow> client_stats \<Rightarrow> int \<Rightarrow> row" where
  "clientTableRow tm name enabled limit stats width =
     (let state = (if enabled then ''enabled'' else ''disabled'');
          errRate = percent tm (ct_errors stats) (ct_requests stats)
      in if 102 \<le> width then
           [name, state, limitText limit, itoa (ct_requests stats), errRate,
            formatDuration tm (ct_avg_latency stats), byte_text tm (ct_bytes_out stats)]
         else if 76 \<le> width then [name, state, limitText limit, itoa (ct_requests stats), errRate]
         else [name, state, itoa (ct_requests stats)])"

definition provider_role :: "config_snapshot \<Rightarrow> provider_snap \<Rightarrow> string" where
  "provider_role cfg p = (if pn_name p = cn_default_provider cfg then ''default'' else ''named'')"

definition provider_rows :: "terminal \<Rightarrow> config_snapshot \<Rightarrow> metrics_snapshot \<Rightarrow> int \<Rightarrow> row list" where
  "provider_rows tm cfg metrics width =
     (let byName = providerMetricsByName (ms_providers metrics);
          circuits = providerCircuitsByName (ms_circuits metrics)
      in map (\<lambda>p. providerRow tm (pn_name p) (pn_kind p) (provider_role cfg p) (byName (pn_name p))
            (circuits (pn_name p)) width) (cn_providers cfg))"

definition client_rows :: "terminal \<Rightarrow> gotime \<Rightarrow> config_snapshot \<Rightarrow> log_entry list \<Rightarrow> int \<Rightarrow> row list" where
  "client_rows tm now cfg logs width =
     (let stats = summarize tm now logs
      in map (\<lambda>c. clientTableRow tm (sn_name c) (sn_enabled c) (sn_rate_limit_rpm c)
            (lookup_or zero_client_stats (st_clients stats) (sn_name c)) width) (cn_clients cfg))"


subsection \<open>The geometry of the screen\<close>

lemma calculateLayout_cases:
  assumes "l = calculateLayout width height"
  obtains (tiny) "IsTiny l" "1 \<le> ly_workspace_width l" "1 \<le> ly_body_height l"
    | (usable) "\<not> IsTiny l" "minTerminalWidth \<le> ly_width l" "minTerminalHeight \<le> ly_height l"
      "ly_header_height l + ly_section_height l + ly_body_height l + ly_footer_height l + 2 = ly_height l"
      "ly_workspace_width l + (if IsWide l then ly_nav_width l + ly_gap l else 0) = ly_width l"
  using assms that
  by (auto simp: calculateLayout_def Let_def zero_layout_def IsTiny_def IsWide_def minTerminalWidth_def
      minTerminalHeight_def split: if_splits)

text \<open>
  The layout divides the terminal exactly: in every size that is not too small, the header,
  the section bar, the body, the footer and the two spare lines add up to the height, the
  workspace, the navigation and the gap add up to the width, the body has at least eight
  lines, and in every size, sensible or not, no part is empty.
\<close>

theorem layout_exact:
  fixes width height defines "l \<equiv> calculateLayout width height"
  shows "1 \<le> ly_workspace_width l \<and> 1 \<le> ly_body_height l \<and> 24 \<le> contentWidth l \<and>
    (IsTiny l \<longleftrightarrow> 0 < width \<and> width < minTerminalWidth \<or> 0 < height \<and> height < minTerminalHeight) \<and>
    (\<not> IsTiny l \<longrightarrow>
       8 \<le> ly_body_height l \<and> contentWidth l = ly_workspace_width l - 4 \<and>
       ly_header_height l + ly_section_height l + ly_body_height l + ly_footer_height l + 2 = ly_height l \<and>
       ly_workspace_width l + (if IsWide l then ly_nav_width l + ly_gap l else 0) = ly_width l)"
  unfolding l_def
  by (auto simp: calculateLayout_def Let_def zero_layout_def IsTiny_def IsWide_def minTerminalWidth_def
      minTerminalHeight_def contentWidth_def)

lemma layout_width: "1 \<le> ly_workspace_width (calculateLayout width height)"
  by (auto simp: calculateLayout_def Let_def zero_layout_def)

theorem layout_exact_witness:
  "\<not> IsTiny (calculateLayout 140 40) \<and> ly_workspace_width (calculateLayout 140 40) + 21 = 140"
proof -
  have l: "\<not> IsTiny (calculateLayout 140 40)" "IsWide (calculateLayout 140 40)" "ly_nav_width (calculateLayout 140 40) = 20"
    "ly_gap (calculateLayout 140 40) = 1" "ly_width (calculateLayout 140 40) = 140" by code_simp+
  from layout_exact [of 140 40] l show ?thesis by (simp split: if_splits)
qed

text \<open>A row has as many cells as its table has columns at the same width.\<close>

lemma length_columns_of [simp]: "length (columns_of cs) = length cs"
  by (simp add: columns_of_def)

lemma row_lengths:
  "length (logRow tm e w) = length (defaultLogColumns w)"
  "length (providerRow tm name kind role pm circuit w) = length (providerColumns w)"
  "length (clientTableRow tm name enabled limit stats w) = length (clientColumns w)"
  by (simp_all add: logRow_def defaultLogColumns_def providerRow_def providerColumns_def clientTableRow_def
      clientColumns_def Let_def)

text \<open>The cells a table takes: the widths of its columns and two cells of padding for each.\<close>

definition table_cells :: "column list \<Rightarrow> int" where
  "table_cells cs = sum_list (map col_width cs) + 2 * int (length cs)"

text \<open>
  How wide the tables are drawn in a content area of \<open>w\<close> cells: the request table fits
  except between 68 and 87 cells, where it is two cells too wide, and the provider and client
  tables are four cells too wide below 112, and from 76 on.
\<close>

theorem table_overflow:
  assumes "50 \<le> w"
  shows "table_cells (defaultLogColumns w) = (if 118 \<le> w then w - 8 else if 68 \<le> w \<and> w < 88 then w + 2 else w)"
    "table_cells (providerColumns w) = (if 112 \<le> w then w else w + 4)"
    "table_cells (clientColumns w) = (if 76 \<le> w then w + 4 else w)"
  using assms
  by (simp_all add: table_cells_def columns_of_def defaultLogColumns_def providerColumns_def clientColumns_def)

text \<open>
  The error rate of a provider counts what each call adds: one for a status of 400 or more
  and one more for a transport error, against one request. A response whose status is an error
  and whose body then breaks off is counted twice, so the rate shown can exceed 100 percent: a
  provider whose only call failed that way has an error rate of 200 percent.
\<close>

theorem error_rate_double_counts:
  fixes p p' name dur clock
  defines "s \<equiv> provider_snapshot name p"
    and "after \<equiv> (\<lambda>status failed. provider_snapshot name (finish_provider status dur failed clock p))"
  shows "provider_errors (after status failed) =
      provider_errors s + (if 400 \<le> status then 1 else 0) + (if failed then 1 else 0) \<and>
    ps_requests (after status failed) = ps_requests s + 1 \<and>
    providerErrorRate tm (provider_snapshot name (finish_provider 502 dur True clock zero_provider_metrics)) =
      percent1 tm 2 1 @ ''%''"
proof -
  have sel: "provider_errors (provider_snapshot name q) = pm_requests4xx q + pm_requests5xx q + pm_transport_errors q"
    "ps_requests (provider_snapshot name q) = pm_requests q" for q
    by (simp_all add: provider_errors_def provider_snapshot_def Let_def)
  have "provider_errors (after status failed) =
      provider_errors s + (if 400 \<le> status then 1 else 0) + (if failed then 1 else 0)"
    "ps_requests (after status failed) = ps_requests s + 1"
    by (auto simp: after_def s_def sel finish_provider_def Let_def)
  moreover have "providerErrorRate tm (provider_snapshot name (finish_provider 502 dur True clock zero_provider_metrics)) =
      percent1 tm 2 1 @ ''%''"
    by (simp add: providerErrorRate_def sel finish_provider_def zero_provider_metrics_def Let_def)
  ultimately show ?thesis by blast
qed

end
