(* ===== verification/Tui_Model.thy ===== *)
theory Tui_Model
  imports Tui_Tables
begin

section \<open>The model of the terminal UI (internal/tui/model.go, keys.go, config_view.go, help_view.go)\<close>

text \<open>
  The state of the operator UI and \<open>Update\<close>. The tables and viewports are Bubbles widgets: a
  widget is the sequence of the calls made on it, oldest first, and what it shows or where its
  cursor is are functions of that sequence (arguments of the views). The gateway is read only
  in \<open>refresh\<close>; what it reports then is a \<open>tui_snapshot\<close>. A key press is the text of
  \<open>KeyPressMsg.String\<close>, which is what \<open>key.Matches\<close> compares.
\<close>


subsection \<open>Keys and sections\<close>

type_synonym tab = int

abbreviation (input) tabOverview :: tab where "tabOverview \<equiv> 0"
abbreviation (input) tabRequests :: tab where "tabRequests \<equiv> 1"
abbreviation (input) tabProviders :: tab where "tabProviders \<equiv> 2"
abbreviation (input) tabClients :: tab where "tabClients \<equiv> 3"
abbreviation (input) tabConfig :: tab where "tabConfig \<equiv> 4"

definition section_names :: "string list" where
  "section_names = [''Overview'', ''Requests'', ''Providers'', ''Clients'', ''Config'']"

definition sections :: int where "sections = int (length section_names)"

definition section_name :: "tab \<Rightarrow> string" where "section_name t = section_names ! nat t"

datatype binding = Quit | Refresh | Pause | NextTab | PrevTab | Help | Back | FilterAll | FilterWarn | FilterErr | FilterAuth

fun binding_keys :: "binding \<Rightarrow> string list" where
  "binding_keys Quit = [''q'', ''ctrl+c'']"
| "binding_keys Refresh = [''r'']"
| "binding_keys Pause = ['' '', ''p'']"
| "binding_keys NextTab = [''tab'', '']'']"
| "binding_keys PrevTab = [''shift+tab'', ''['']"
| "binding_keys Help = [''?'']"
| "binding_keys Back = [''esc'']"
| "binding_keys FilterAll = [''a'']"
| "binding_keys FilterWarn = [''w'']"
| "binding_keys FilterErr = [''e'']"
| "binding_keys FilterAuth = [''u'']"

definition matches :: "string \<Rightarrow> binding \<Rightarrow> bool" where
  "matches k b \<longleftrightarrow> k \<in> set (binding_keys b)"


subsection \<open>State\<close>

datatype tui_msg = TuiWindow int int | TuiKey string | TickMsg | TuiOther

datatype table_call =
  SetColumns "column list" | SetRows "row list" | SetTableWidth int | SetTableHeight int | TableMsg tui_msg

datatype viewport_call = SetViewportWidth int | SetViewportHeight int | SetContent string | ViewportMsg tui_msg

datatype log_filter = AllEntries | Warnings | Errors | AuthEntries

record tui_snapshot =
  ts_cfg :: config_snapshot
  ts_metrics :: metrics_snapshot
  ts_logs :: "log_entry list"
  ts_now :: gotime

record tui_model =
  tu_cfg :: config_snapshot
  tu_metrics :: metrics_snapshot
  tu_logs :: "log_entry list"
  tu_active :: tab
  tu_filter :: log_filter
  tu_paused :: bool
  tu_show_help :: bool
  tu_width :: int
  tu_height :: int
  tu_layout :: layout
  tu_last_refresh :: gotime
  tu_visible_logs :: "log_entry list"
  tu_log_table :: "table_call list"
  tu_provider_table :: "table_call list"
  tu_client_table :: "table_call list"
  tu_config_viewport :: "viewport_call list"
  tu_help_viewport :: "viewport_call list"

definition model_width :: "tui_model \<Rightarrow> int" where "model_width tu = contentWidth (tu_layout tu)"


subsection \<open>Texts of the viewports\<close>

definition securityLine :: "terminal \<Rightarrow> bool \<Rightarrow> string \<Rightarrow> string \<Rightarrow> string" where
  "securityLine tm ok success warning =
     (if ok then paint tm OkStyle ''OK '' @ paint tm TextStyle success
      else paint tm WarnStyle ''! '' @ paint tm TextStyle warning)"

definition bool_text :: "bool \<Rightarrow> string" where "bool_text b = (if b then ''true'' else ''false'')"

definition cors_text :: "config_snapshot \<Rightarrow> string" where
  "cors_text cfg =
     (if cn_cors_enabled cfg
      then (let origins = join_with '', '' (cn_cors_origins cfg) in if origins = '''' then ''enabled'' else origins)
      else ''disabled'')"

definition rate_limit_text :: "config_snapshot \<Rightarrow> string" where
  "rate_limit_text cfg =
     (let rateLimit = (if cn_backend cfg = '''' then ''memory'' else cn_backend cfg) in
      if rateLimit = ''redis'' then
        ''redis/'' @ (if cn_mode cfg = '''' then ''standalone'' else cn_mode cfg) @ '', fail_open=''
          @ bool_text (cn_fail_open cfg)
      else rateLimit)"

definition tracing_text :: "terminal \<Rightarrow> config_snapshot \<Rightarrow> string" where
  "tracing_text tm cfg =
     (if cn_telemetry_enabled cfg then
        ''OTLP service='' @ cn_telemetry_service cfg @ '' sample='' @ ratio_text tm (cn_telemetry_ratio cfg)
          @ '' propagate_upstream='' @ bool_text (cn_telemetry_propagate cfg) @ '', ''
          @ (if cn_telemetry_endpoint cfg then ''configured endpoint'' else ''default/environment endpoint'')
          @ (if cn_telemetry_environment cfg \<noteq> '''' then '', env='' @ cn_telemetry_environment cfg else '''')
      else ''off'')"

definition circuit_policy_text :: "provider_snap \<Rightarrow> string" where
  "circuit_policy_text p =
     (if pn_circuit_enabled p
      then ''threshold='' @ itoa (pn_circuit_threshold p) @ '', open='' @ pn_circuit_open_for p else ''disabled'')"

definition config_provider_lines :: "terminal \<Rightarrow> config_snapshot \<Rightarrow> int \<Rightarrow> provider_snap \<Rightarrow> string list" where
  "config_provider_lines tm cfg width p =
     [paint tm ValueStyle (pn_name p) @ ''  '' @ paint tm MutedStyle (pn_kind p) @ ''  ''
        @ paint tm MutedStyle (''role='' @ provider_role cfg p),
      ''  '' @ paint tm MutedStyle (truncate_text tm (pn_url p) (max 24 (width - 8))),
      ''  '' @ paint tm MutedStyle (''key='' @ pn_api_key p @ ''  circuit='' @ circuit_policy_text p)]"

definition configContent :: "terminal \<Rightarrow> config_snapshot \<Rightarrow> int \<Rightarrow> string" where
  "configContent tm cfg width =
     join_with [nl]
       ([paint tm SubtitleStyle ''Server'',
         kvRow tm ''listen'' (cn_listen cfg) 20,
         kvRow tm ''public health'' (bool_text (cn_public_health cfg)) 20,
         kvRow tm ''request body'' (cn_body_limit cfg) 20,
         kvRow tm ''trusted proxies'' (itoa (int (length (cn_trusted_proxies cfg))) @ '' configured'') 20,
         '''',
         paint tm SubtitleStyle ''Control plane'',
         kvRow tm ''operations auth''
           (if cn_dedicated_auth cfg then ''dedicated operations token'' else ''legacy client-token fallback'') 20,
         kvRow tm ''rate limit'' (rate_limit_text cfg) 20,
         kvRow tm ''tracing'' (tracing_text tm cfg) 20,
         kvRow tm ''CORS'' (cors_text cfg) 20,
         kvRow tm ''recent logs'' (itoa (cn_log_recent cfg)) 20,
         '''',
         paint tm SubtitleStyle ''Providers'']
        @ (if cn_providers cfg = [] then [paint tm MutedStyle ''No configured providers.''] else [])
        @ concat (map (config_provider_lines tm cfg width) (cn_providers cfg))
        @ ['''',
           paint tm SubtitleStyle ''Security posture'',
           securityLine tm (cn_dedicated_auth cfg) ''application and operations credentials are separated''
             ''operations endpoints still accept legacy client-token fallback'',
           paint tm TextStyle ''OK provider credentials are stripped inbound and injected server-side'',
           paint tm TextStyle ''OK Redis URLs/credentials and OTLP collector credentials are hidden'',
           paint tm TextStyle ''OK tracing is metadata-only; body/query/arbitrary headers are excluded'',
           paint tm TextStyle ''OK provider trace propagation is opt-in and baggage is never forwarded'',
           paint tm TextStyle ''OK reload candidates validate fully before the runtime snapshot is swapped''])"

definition helpRow :: "terminal \<Rightarrow> string \<Rightarrow> string \<Rightarrow> string" where
  "helpRow tm binding description = paint tm KeyStyle (pad_right 18 binding) @ '' '' @ paint tm TextStyle description"

definition section_help :: "terminal \<Rightarrow> tab \<Rightarrow> string list" where
  "section_help tm active =
     (if active = tabRequests then
        ['''', paint tm SubtitleStyle ''Requests'',
         helpRow tm ''Up / Down, j / k'' ''move through retained request entries'',
         helpRow tm ''PgUp / PgDn'' ''page through requests'',
         helpRow tm ''a'' ''show all requests'',
         helpRow tm ''w'' ''warnings and 4xx'',
         helpRow tm ''e'' ''errors and 5xx'',
         helpRow tm ''u'' ''authentication-related requests'']
      else if active = tabProviders then
        ['''', paint tm SubtitleStyle ''Providers'',
         helpRow tm ''Up / Down, j / k'' ''select a provider'',
         helpRow tm ''PgUp / PgDn'' ''page through providers'']
      else if active = tabClients then
        ['''', paint tm SubtitleStyle ''Clients'',
         helpRow tm ''Up / Down, j / k'' ''select a client'',
         helpRow tm ''PgUp / PgDn'' ''page through clients'']
      else if active = tabConfig then
        ['''', paint tm SubtitleStyle ''Config'',
         helpRow tm ''Up / Down, j / k'' ''scroll the redacted runtime view'',
         helpRow tm ''PgUp / PgDn'' ''page through runtime configuration'']
      else
        ['''', paint tm SubtitleStyle ''Overview'',
         paint tm TextStyle ''No extra mode is required: the screen refreshes automatically and keeps only actionable state visible.''])"

definition helpContent :: "terminal \<Rightarrow> tab \<Rightarrow> string" where
  "helpContent tm active =
     join_with [nl]
       ([paint tm SubtitleStyle ''Navigation'',
         helpRow tm ''1-5'' ''jump directly to a section'',
         helpRow tm ''Tab / ]'' ''next section'',
         helpRow tm ''Shift+Tab / ['' ''previous section'',
         helpRow tm ''Esc'' ''return to Overview; close help when open'',
         '''',
         paint tm SubtitleStyle ''Global'',
         helpRow tm ''r'' ''refresh the local gateway snapshot immediately'',
         helpRow tm ''Space / p'' ''pause or resume the one-second live refresh'',
         helpRow tm ''?'' ''open/close this help'',
         helpRow tm ''q / Ctrl+C'' ''quit and restore the terminal'']
        @ section_help tm active
        @ ['''',
           paint tm SubtitleStyle ''Operator notes'',
           paint tm TextStyle ''- TUI navigation is fully keyboard-first; mouse support is not required.'',
           paint tm TextStyle ''- Colors reinforce state but status text remains readable in monochrome terminals.'',
           paint tm TextStyle ''- Provider health/readiness is passive; the TUI never spends model quota for probes.'',
           paint tm TextStyle ''- Prometheus/config/health surfaces can be moved to a separate operations listener.''])"


subsection \<open>Refreshing the widgets\<close>

definition filterLog :: "log_filter \<Rightarrow> log_entry \<Rightarrow> bool" where
  "filterLog f e =
     (case f of
        Warnings \<Rightarrow> le_level e = ''warn'' \<or> (400 \<le> le_status e \<and> le_status e < 500)
      | Errors \<Rightarrow> le_level e = ''error'' \<or> 500 \<le> le_status e
      | AuthEntries \<Rightarrow>
          contains_sub (to_lower (le_message e)) ''auth'' \<or> le_status e = 401 \<or> le_client e = ''anonymous''
      | AllEntries \<Rightarrow> True)"

text \<open>The loop runs from the newest entry down.\<close>

fun newest_first :: "(log_entry \<Rightarrow> bool) \<Rightarrow> log_entry list \<Rightarrow> nat \<Rightarrow> log_entry list" where
  "newest_first P logs 0 = []"
| "newest_first P logs (Suc i) = (if P (logs ! i) then logs ! i # newest_first P logs i else newest_first P logs i)"

definition updateLogRows :: "terminal \<Rightarrow> tui_model \<Rightarrow> tui_model" where
  "updateLogRows tm tu =
     (let visible = newest_first (filterLog (tu_filter tu)) (tu_logs tu) (length (tu_logs tu)) in
      tu\<lparr>tu_visible_logs := visible,
         tu_log_table := tu_log_table tu @ [SetRows (map (\<lambda>e. logRow tm e (model_width tu)) visible)]\<rparr>)"

definition updateProviderRows :: "terminal \<Rightarrow> tui_model \<Rightarrow> tui_model" where
  "updateProviderRows tm tu =
     tu\<lparr>tu_provider_table := tu_provider_table tu @
        [SetRows (provider_rows tm (tu_cfg tu) (tu_metrics tu) (model_width tu))]\<rparr>"

definition updateClientRows :: "terminal \<Rightarrow> gotime \<Rightarrow> tui_model \<Rightarrow> tui_model" where
  "updateClientRows tm now tu =
     tu\<lparr>tu_client_table := tu_client_table tu @
        [SetRows (client_rows tm now (tu_cfg tu) (tu_logs tu) (model_width tu))]\<rparr>"

definition updateConfigViewport :: "terminal \<Rightarrow> tui_model \<Rightarrow> tui_model" where
  "updateConfigViewport tm tu =
     (if IsTiny (tu_layout tu) then tu
      else tu\<lparr>tu_config_viewport := tu_config_viewport tu @ [SetContent (configContent tm (tu_cfg tu) (model_width tu))]\<rparr>)"

definition updateHelpViewport :: "terminal \<Rightarrow> tui_model \<Rightarrow> tui_model" where
  "updateHelpViewport tm tu =
     (if IsTiny (tu_layout tu) then tu
      else tu\<lparr>tu_help_viewport := tu_help_viewport tu @ [SetContent (helpContent tm (tu_active tu))]\<rparr>)"

definition update_widgets :: "terminal \<Rightarrow> gotime \<Rightarrow> tui_model \<Rightarrow> tui_model" where
  "update_widgets tm now tu =
     (let tu = updateConfigViewport tm (updateClientRows tm now (updateProviderRows tm (updateLogRows tm tu)))
      in if tu_show_help tu then updateHelpViewport tm tu else tu)"

definition refresh :: "terminal \<Rightarrow> tui_snapshot \<Rightarrow> tui_model \<Rightarrow> tui_model" where
  "refresh tm sn tu =
     update_widgets tm (ts_now sn)
       (tu\<lparr>tu_cfg := ts_cfg sn, tu_metrics := ts_metrics sn, tu_logs := ts_logs sn, tu_last_refresh := ts_now sn\<rparr>)"

definition size_table :: "column list \<Rightarrow> int \<Rightarrow> int \<Rightarrow> table_call list" where
  "size_table cs width height = [SetColumns cs, SetTableWidth width, SetTableHeight height]"

definition size_viewport :: "int \<Rightarrow> int \<Rightarrow> viewport_call list" where
  "size_viewport width height = [SetViewportWidth width, SetViewportHeight height]"

definition resize :: "terminal \<Rightarrow> gotime \<Rightarrow> tui_model \<Rightarrow> tui_model" where
  "resize tm now tu =
     (let l = calculateLayout (tu_width tu) (tu_height tu); tu = tu\<lparr>tu_layout := l\<rparr> in
      if IsTiny l then tu
      else
        (let contentWidth = max 24 (ly_workspace_width l - 4); bodyHeight = max 8 (ly_body_height l) in
         update_widgets tm now
           (tu\<lparr>tu_log_table := tu_log_table tu @
                size_table (defaultLogColumns contentWidth) contentWidth (max 5 (bodyHeight - 10)),
              tu_provider_table := tu_provider_table tu @
                size_table (providerColumns contentWidth) contentWidth (max 5 (bodyHeight - 11)),
              tu_client_table := tu_client_table tu @
                size_table (clientColumns contentWidth) contentWidth (max 5 (bodyHeight - 11)),
              tu_config_viewport := tu_config_viewport tu @ size_viewport contentWidth (max 6 (bodyHeight - 3)),
              tu_help_viewport := tu_help_viewport tu @ size_viewport contentWidth (max 6 (bodyHeight - 3))\<rparr>)))"

definition setActive :: "terminal \<Rightarrow> tab \<Rightarrow> tui_model \<Rightarrow> tui_model" where
  "setActive tm nxt tu =
     (if nxt < 0 \<or> sections \<le> nxt then tu
      else
        (let tu = tu\<lparr>tu_active := nxt, tu_show_help := False\<rparr>
         in if nxt = tabConfig then updateConfigViewport tm tu else tu))"

definition setFilter :: "terminal \<Rightarrow> log_filter \<Rightarrow> tui_model \<Rightarrow> tui_model" where
  "setFilter tm f tu = updateLogRows tm (tu\<lparr>tu_filter := f\<rparr>)"

text \<open>
  \<open>New\<close>: the zero values are read by nobody before the first \<open>refresh\<close>. This and the other
  operations give the calls they make on the widgets; whether a table gets through them is
  \<open>tables_alive\<close>, which \<open>tui_reachable\<close> asks of every state.
\<close>

definition empty_model :: "tui_snapshot \<Rightarrow> tui_model" where
  "empty_model sn =
     \<lparr>tu_cfg = ts_cfg sn, tu_metrics = ts_metrics sn, tu_logs = [], tu_active = tabOverview, tu_filter = AllEntries,
      tu_paused = False, tu_show_help = False, tu_width = 100, tu_height = 30, tu_layout = zero_layout,
      tu_last_refresh = zero_time, tu_visible_logs = [], tu_log_table = [], tu_provider_table = [],
      tu_client_table = [], tu_config_viewport = [], tu_help_viewport = []\<rparr>"

definition newModel :: "terminal \<Rightarrow> tui_snapshot \<Rightarrow> tui_model" where
  "newModel tm sn = resize tm (ts_now sn) (refresh tm sn (empty_model sn))"


subsection \<open>\<open>Update\<close>\<close>

text \<open>The command returned: none, quit, the next tick, or whatever a widget asks for.\<close>

datatype tui_cmd = NoCmd | QuitCmd | TickCmd | WidgetCmd

text \<open>A message nobody handled goes to the widget of the active section.\<close>

definition widget_update :: "tui_msg \<Rightarrow> tui_model \<Rightarrow> tui_model \<times> tui_cmd" where
  "widget_update msg tu =
     (if tu_active tu = tabRequests then (tu\<lparr>tu_log_table := tu_log_table tu @ [TableMsg msg]\<rparr>, WidgetCmd)
      else if tu_active tu = tabProviders
      then (tu\<lparr>tu_provider_table := tu_provider_table tu @ [TableMsg msg]\<rparr>, WidgetCmd)
      else if tu_active tu = tabClients
      then (tu\<lparr>tu_client_table := tu_client_table tu @ [TableMsg msg]\<rparr>, WidgetCmd)
      else if tu_active tu = tabConfig
      then (tu\<lparr>tu_config_viewport := tu_config_viewport tu @ [ViewportMsg msg]\<rparr>, WidgetCmd)
      else (tu, NoCmd))"

definition help_key :: "string \<Rightarrow> tui_model \<Rightarrow> tui_model \<times> tui_cmd" where
  "help_key k tu =
     (if matches k Help \<or> matches k Back then (tu\<lparr>tu_show_help := False\<rparr>, NoCmd)
      else (tu\<lparr>tu_help_viewport := tu_help_viewport tu @ [ViewportMsg (TuiKey k)]\<rparr>, WidgetCmd))"

text \<open>The filters of the request section, before the table sees the key.\<close>

definition filter_key :: "terminal \<Rightarrow> string \<Rightarrow> tui_model \<Rightarrow> tui_model \<times> tui_cmd" where
  "filter_key tm k tu =
     (if tu_active tu = tabRequests \<and> matches k FilterAll then (setFilter tm AllEntries tu, NoCmd)
      else if tu_active tu = tabRequests \<and> matches k FilterWarn then (setFilter tm Warnings tu, NoCmd)
      else if tu_active tu = tabRequests \<and> matches k FilterErr then (setFilter tm Errors tu, NoCmd)
      else if tu_active tu = tabRequests \<and> matches k FilterAuth then (setFilter tm AuthEntries tu, NoCmd)
      else widget_update (TuiKey k) tu)"

definition main_key :: "terminal \<Rightarrow> tui_snapshot \<Rightarrow> string \<Rightarrow> tui_model \<Rightarrow> tui_model \<times> tui_cmd" where
  "main_key tm sn k tu =
     (if matches k Help then (updateHelpViewport tm (tu\<lparr>tu_show_help := True\<rparr>), NoCmd)
      else if matches k Refresh then (refresh tm sn tu, NoCmd)
      else if matches k Pause then (tu\<lparr>tu_paused := \<not> tu_paused tu\<rparr>, NoCmd)
      else if matches k NextTab then (setActive tm ((tu_active tu + 1) smod sections) tu, NoCmd)
      else if matches k PrevTab then (setActive tm ((tu_active tu - 1 + sections) smod sections) tu, NoCmd)
      else if matches k Back then ((if tu_active tu \<noteq> tabOverview then setActive tm tabOverview tu else tu), NoCmd)
      else if 0 \<le> menuIndex k then (setActive tm (menuIndex k) tu, NoCmd)
      else filter_key tm k tu)"

definition tui_update :: "terminal \<Rightarrow> tui_snapshot \<Rightarrow> tui_msg \<Rightarrow> tui_model \<Rightarrow> tui_model \<times> tui_cmd" where
  "tui_update tm sn msg tu =
     (case msg of
        TuiWindow w h \<Rightarrow> (resize tm (ts_now sn) (tu\<lparr>tu_width := w, tu_height := h\<rparr>), NoCmd)
      | TuiKey k \<Rightarrow>
          (if matches k Quit then (tu, QuitCmd)
           else if tu_show_help tu then help_key k tu
           else main_key tm sn k tu)
      | TickMsg \<Rightarrow> ((if \<not> tu_paused tu then refresh tm sn tu else tu), TickCmd)
      | TuiOther \<Rightarrow> widget_update TuiOther tu)"

subsection \<open>What a table holds after its calls\<close>

definition table_columns :: "table_call list \<Rightarrow> column list" where
  "table_columns calls = foldl (\<lambda>cs c. case c of SetColumns cs' \<Rightarrow> cs' | _ \<Rightarrow> cs) [] calls"

definition table_rows :: "table_call list \<Rightarrow> row list" where
  "table_rows calls = foldl (\<lambda>rs c. case c of SetRows rs' \<Rightarrow> rs' | _ \<Rightarrow> rs) [] calls"

text \<open>
  A call a table cannot carry out is a panic that ends the program. \<open>renders calls\<close> says whether
  a table gets through the last of these calls; \<open>needs_columns\<close> is a table that looks up the
  column of every cell it draws, as the Bubbles table does in both setters.
\<close>

definition tables_alive :: "(table_call list \<Rightarrow> bool) \<Rightarrow> tui_model \<Rightarrow> bool" where
  "tables_alive renders tu \<longleftrightarrow>
     (\<forall>calls \<in> {tu_log_table tu, tu_provider_table tu, tu_client_table tu}.
        \<forall>k \<le> length calls. renders (take k calls))"

definition needs_columns :: "(table_call list \<Rightarrow> bool) \<Rightarrow> bool" where
  "needs_columns renders \<longleftrightarrow>
     (\<forall>calls. renders calls \<longrightarrow> (\<forall>r \<in> set (table_rows calls). length r \<le> length (table_columns calls)))"

text \<open>The states the program reaches: what \<open>New\<close> and each \<open>Update\<close> return, when they return.\<close>

inductive tui_reachable :: "(table_call list \<Rightarrow> bool) \<Rightarrow> terminal \<Rightarrow> tui_model \<Rightarrow> bool" for renders tm where
  start: "tables_alive renders (newModel tm sn) \<Longrightarrow> tui_reachable renders tm (newModel tm sn)"
| step: "tui_reachable renders tm tu \<Longrightarrow> tui_update tm sn msg tu = (tu', cmd) \<Longrightarrow> tables_alive renders tu' \<Longrightarrow>
     tui_reachable renders tm tu'"

lemma reachable_alive: "tui_reachable renders tm tu \<Longrightarrow> tables_alive renders tu"
  by (induction rule: tui_reachable.induct)

lemma alive_fits:
  assumes "tables_alive renders tu" "needs_columns renders"
    "calls \<in> {tu_log_table tu, tu_provider_table tu, tu_client_table tu}" "r \<in> set (table_rows calls)"
  shows "length r \<le> length (table_columns calls)"
proof -
  have "renders (take (length calls) calls)" using assms(1,3) unfolding tables_alive_def by blast
  with assms(2,4) show ?thesis by (auto simp: needs_columns_def)
qed

lemma table_snoc [simp]:
  "table_columns [] = []" "table_rows [] = []"
  "table_columns (calls @ [c]) = (case c of SetColumns cs \<Rightarrow> cs | _ \<Rightarrow> table_columns calls)"
  "table_rows (calls @ [c]) = (case c of SetRows rs \<Rightarrow> rs | _ \<Rightarrow> table_rows calls)"
  by (simp_all add: table_columns_def table_rows_def split: table_call.split)

lemma size_table_parts [simp]:
  "table_columns (calls @ size_table cs w h) = cs" "table_rows (calls @ size_table cs w h) = table_rows calls"
  by (simp_all add: size_table_def table_columns_def table_rows_def)

lemma newest_first_filter: "i \<le> length logs \<Longrightarrow> newest_first P logs i = filter P (rev (take i logs))"
  by (induction i) (simp_all add: take_Suc_conv_app_nth)


subsection \<open>The parts each operation touches\<close>

definition shown_entries :: "tui_model \<Rightarrow> log_entry list" where
  "shown_entries tu = filter (filterLog (tu_filter tu)) (rev (tu_logs tu))"

lemma updateLogRows_eq:
  "updateLogRows tm tu =
     tu\<lparr>tu_visible_logs := shown_entries tu,
        tu_log_table := tu_log_table tu @ [SetRows (map (\<lambda>e. logRow tm e (model_width tu)) (shown_entries tu))]\<rparr>"
  by (simp add: updateLogRows_def Let_def newest_first_filter shown_entries_def)

text \<open>Everything but what \<open>update_widgets\<close> writes.\<close>

definition tui_core :: "tui_model \<Rightarrow> tui_snapshot \<times> (tab \<times> log_filter \<times> bool \<times> bool) \<times> int \<times> int \<times> layout" where
  "tui_core tu = (\<lparr>ts_cfg = tu_cfg tu, ts_metrics = tu_metrics tu, ts_logs = tu_logs tu, ts_now = tu_last_refresh tu\<rparr>,
     (tu_active tu, tu_filter tu, tu_paused tu, tu_show_help tu), tu_width tu, tu_height tu, tu_layout tu)"

lemma updates_core [simp]:
  "tui_core (updateLogRows tm tu) = tui_core tu" "tui_core (updateProviderRows tm tu) = tui_core tu"
  "tui_core (updateClientRows tm now tu) = tui_core tu" "tui_core (updateConfigViewport tm tu) = tui_core tu"
  "tui_core (updateHelpViewport tm tu) = tui_core tu" "tui_core (update_widgets tm now tu) = tui_core tu"
proof -
  show *: "tui_core (updateLogRows tm tu) = tui_core tu" "tui_core (updateProviderRows tm tu) = tui_core tu"
    "tui_core (updateClientRows tm now tu) = tui_core tu" "tui_core (updateConfigViewport tm tu) = tui_core tu"
    "tui_core (updateHelpViewport tm tu) = tui_core tu" for tu
    by (simp_all add: tui_core_def updateLogRows_def updateProviderRows_def updateClientRows_def
        updateConfigViewport_def updateHelpViewport_def Let_def)
  show "tui_core (update_widgets tm now tu) = tui_core tu"
    by (simp add: update_widgets_def Let_def *)
qed

lemma tui_coreD:
  assumes "tui_core tu = tui_core tu'"
  shows "tu_cfg tu = tu_cfg tu'" "tu_metrics tu = tu_metrics tu'" "tu_logs tu = tu_logs tu'"
    "tu_active tu = tu_active tu'" "tu_filter tu = tu_filter tu'" "tu_layout tu = tu_layout tu'"
    "tu_width tu = tu_width tu'" "tu_height tu = tu_height tu'" "tu_paused tu = tu_paused tu'"
    "tu_show_help tu = tu_show_help tu'" "tu_last_refresh tu = tu_last_refresh tu'"
  using assms by (simp_all add: tui_core_def)

lemmas update_widgets_core [simp] = tui_coreD [OF updates_core(6)]

lemma update_widgets_tables [simp]:
  "tu_visible_logs (update_widgets tm now tu) = shown_entries tu"
  "tu_log_table (update_widgets tm now tu) =
     tu_log_table tu @ [SetRows (map (\<lambda>e. logRow tm e (model_width tu)) (shown_entries tu))]"
  "tu_provider_table (update_widgets tm now tu) =
     tu_provider_table tu @ [SetRows (provider_rows tm (tu_cfg tu) (tu_metrics tu) (model_width tu))]"
  "tu_client_table (update_widgets tm now tu) =
     tu_client_table tu @ [SetRows (client_rows tm now (tu_cfg tu) (tu_logs tu) (model_width tu))]"
  by (simp_all add: update_widgets_def updateLogRows_eq updateProviderRows_def updateClientRows_def
      updateConfigViewport_def updateHelpViewport_def model_width_def Let_def)

lemma client_rows_now: "client_rows tm now cfg logs w = client_rows tm now' cfg logs w"
  using summarize_exact [of tm now logs] summarize_exact [of tm now' logs] by (simp add: client_rows_def Let_def)


subsection \<open>The invariant\<close>

definition tables_agree :: "terminal \<Rightarrow> tui_model \<Rightarrow> bool" where
  "tables_agree tm tu \<longleftrightarrow>
     (let w = model_width tu in
      table_columns (tu_log_table tu) = defaultLogColumns w \<and>
      table_rows (tu_log_table tu) = map (\<lambda>e. logRow tm e w) (tu_visible_logs tu) \<and>
      table_columns (tu_provider_table tu) = providerColumns w \<and>
      table_rows (tu_provider_table tu) = provider_rows tm (tu_cfg tu) (tu_metrics tu) w \<and>
      table_columns (tu_client_table tu) = clientColumns w \<and>
      table_rows (tu_client_table tu) = client_rows tm (tu_last_refresh tu) (tu_cfg tu) (tu_logs tu) w)"

definition screen_ok :: "terminal \<Rightarrow> tui_model \<Rightarrow> bool" where
  "screen_ok tm tu \<longleftrightarrow>
     0 \<le> tu_active tu \<and> tu_active tu < sections \<and>
     tu_layout tu = calculateLayout (tu_width tu) (tu_height tu) \<and>
     tu_visible_logs tu = shown_entries tu \<and> (\<not> IsTiny (tu_layout tu) \<longrightarrow> tables_agree tm tu)"

text \<open>Columns alone: what an operation that writes rows relies on.\<close>

definition columns_agree :: "tui_model \<Rightarrow> bool" where
  "columns_agree tu \<longleftrightarrow>
     (let w = model_width tu in
      table_columns (tu_log_table tu) = defaultLogColumns w \<and>
      table_columns (tu_provider_table tu) = providerColumns w \<and>
      table_columns (tu_client_table tu) = clientColumns w)"

lemma update_widgets_ok:
  assumes "0 \<le> tu_active tu" "tu_active tu < sections" "tu_layout tu = calculateLayout (tu_width tu) (tu_height tu)"
    "\<not> IsTiny (tu_layout tu) \<Longrightarrow> columns_agree tu"
  shows "screen_ok tm (update_widgets tm now tu)"
  using assms client_rows_now [of tm now "tu_cfg tu" "tu_logs tu" "model_width tu" "tu_last_refresh tu"]
  by (simp add: screen_ok_def tables_agree_def columns_agree_def shown_entries_def model_width_def Let_def)

lemma screen_okD:
  assumes "screen_ok tm tu"
  shows "0 \<le> tu_active tu" "tu_active tu < sections" "tu_layout tu = calculateLayout (tu_width tu) (tu_height tu)"
    "\<not> IsTiny (tu_layout tu) \<Longrightarrow> columns_agree tu" "\<not> IsTiny (tu_layout tu) \<Longrightarrow> tables_agree tm tu"
    "tu_visible_logs tu = shown_entries tu"
  using assms by (simp_all add: screen_ok_def tables_agree_def columns_agree_def Let_def)

lemma refresh_ok: "screen_ok tm tu \<Longrightarrow> screen_ok tm (refresh tm sn tu)"
  unfolding refresh_def
  by (rule update_widgets_ok) (auto simp: screen_ok_def columns_agree_def tables_agree_def model_width_def Let_def)

lemma resize_ok:
  assumes "0 \<le> tu_active tu" "tu_active tu < sections" "tu_visible_logs tu = shown_entries tu"
  shows "screen_ok tm (resize tm now tu)"
proof -
  let ?l = "calculateLayout (tu_width tu) (tu_height tu)"
  have w: "max 24 (ly_workspace_width ?l - 4) = contentWidth ?l"
    using layout_width [of "tu_width tu" "tu_height tu"] by (simp add: contentWidth_def)
  show ?thesis
  proof (cases "IsTiny ?l")
    case True
    with assms show ?thesis by (simp add: resize_def screen_ok_def shown_entries_def Let_def)
  next
    case False
    then show ?thesis
      unfolding resize_def Let_def
      by (simp add: w)
         (rule update_widgets_ok, use assms in \<open>simp_all add: columns_agree_def model_width_def Let_def\<close>)
  qed
qed

lemma setActive_ok: "screen_ok tm tu \<Longrightarrow> screen_ok tm (setActive tm nxt tu)"
  by (auto simp: setActive_def updateConfigViewport_def screen_ok_def tables_agree_def model_width_def
      shown_entries_def Let_def)

lemma setFilter_ok: "screen_ok tm tu \<Longrightarrow> screen_ok tm (setFilter tm f tu)"
  by (auto simp: setFilter_def updateLogRows_eq screen_ok_def tables_agree_def model_width_def
      shown_entries_def Let_def)

lemma widget_update_ok: "screen_ok tm tu \<Longrightarrow> screen_ok tm (fst (widget_update msg tu))"
  by (auto simp: widget_update_def screen_ok_def tables_agree_def model_width_def shown_entries_def Let_def)

lemma pause_ok: "screen_ok tm (tu\<lparr>tu_paused := b\<rparr>) \<longleftrightarrow> screen_ok tm tu"
  by (simp add: screen_ok_def tables_agree_def model_width_def shown_entries_def)

lemma open_help_ok: "screen_ok tm (updateHelpViewport tm (tu\<lparr>tu_show_help := b\<rparr>)) \<longleftrightarrow> screen_ok tm tu"
  by (simp add: screen_ok_def tables_agree_def model_width_def shown_entries_def updateHelpViewport_def)

lemma main_key_ok: "screen_ok tm tu \<Longrightarrow> screen_ok tm (fst (main_key tm sn k tu))"
  by (simp add: main_key_def filter_key_def setActive_ok refresh_ok setFilter_ok widget_update_ok pause_ok
      open_help_ok)

lemma tui_update_ok:
  assumes "screen_ok tm tu" "tui_update tm sn msg tu = (tu', cmd)" shows "screen_ok tm tu'"
proof -
  have "screen_ok tm (fst (help_key k tu))" for k
    using assms(1) by (auto simp: help_key_def screen_ok_def tables_agree_def model_width_def shown_entries_def Let_def)
  moreover have "screen_ok tm (resize tm (ts_now sn) (tu\<lparr>tu_width := w, tu_height := h\<rparr>))" for w h
    using screen_okD [OF assms(1)] by (intro resize_ok) (simp_all add: shown_entries_def)
  ultimately have "screen_ok tm (fst (tui_update tm sn msg tu))"
    using assms(1) main_key_ok [OF assms(1)] refresh_ok [OF assms(1)] widget_update_ok [OF assms(1)]
    by (auto simp: tui_update_def split: tui_msg.split)
  then show ?thesis by (simp add: assms(2))
qed

lemma newModel_ok: "screen_ok tm (newModel tm sn)"
  unfolding newModel_def
  by (rule resize_ok) (simp_all add: refresh_def empty_model_def sections_def section_names_def shown_entries_def)

lemma tui_reachable_ok: "tui_reachable renders tm tu \<Longrightarrow> screen_ok tm tu"
  by (induction rule: tui_reachable.induct) (auto intro: newModel_ok tui_update_ok)


lemma provider_rows_length: "r \<in> set (provider_rows tm cfg metrics w) \<Longrightarrow> length r = length (providerColumns w)"
  by (auto simp: provider_rows_def Let_def row_lengths)

lemma client_rows_length: "r \<in> set (client_rows tm now cfg logs w) \<Longrightarrow> length r = length (clientColumns w)"
  by (auto simp: client_rows_def Let_def row_lengths)


subsection \<open>Properties\<close>

text \<open>
  \<open>New\<close> fills the provider table before the table has columns: with a provider
  configured, the first rows are set, with seven cells each, on a table without any column.
\<close>

lemma rows_before_columns:
  assumes "cn_providers (ts_cfg sn) \<noteq> []"
  shows "\<exists>pre post. tu_provider_table (newModel tm sn) = pre @ post \<and> table_columns pre = [] \<and>
    table_rows pre \<noteq> [] \<and> (\<forall>r \<in> set (table_rows pre). length r = 7)"
proof -
  let ?rows = "provider_rows tm (ts_cfg sn) (ts_metrics sn) 96"
  have first: "tu_provider_table (refresh tm sn (empty_model sn)) = [SetRows ?rows]"
    by (simp add: refresh_def empty_model_def model_width_def zero_layout_def contentWidth_def)
  have "\<exists>post. tu_provider_table (resize tm now tu) = tu_provider_table tu @ post" for now tu
    by (simp add: resize_def Let_def)
  then obtain post where "tu_provider_table (newModel tm sn) = [SetRows ?rows] @ post"
    unfolding newModel_def first [symmetric] by blast
  moreover have "table_columns [SetRows ?rows] = []" "table_rows [SetRows ?rows] = ?rows"
    by (simp_all add: table_columns_def table_rows_def)
  moreover have "?rows \<noteq> []" "\<forall>r \<in> set ?rows. length r = 7"
    using assms by (auto simp: provider_rows_def Let_def row_lengths providerColumns_def)
  ultimately show ?thesis by metis
qed

lemma new_gives_up:
  assumes "needs_columns renders" "cn_providers (ts_cfg sn) \<noteq> []"
  shows "\<not> tables_alive renders (newModel tm sn)"
proof
  assume alive: "tables_alive renders (newModel tm sn)"
  obtain pre post where calls: "tu_provider_table (newModel tm sn) = pre @ post" "table_columns pre = []"
    "table_rows pre \<noteq> []" "\<forall>r \<in> set (table_rows pre). length r = 7"
    using rows_before_columns [OF assms(2)] by blast
  have "renders (take (length pre) (pre @ post))"
    using alive unfolding tables_alive_def calls(1) by (metis insertCI length_append le_add1)
  then have "renders pre" by simp
  with assms(1) calls(2,4) have "table_rows pre = []" by (auto simp: needs_columns_def intro: ccontr)
  with calls(3) show False by simp
qed

text \<open>
  C37. The operator UI is well typed in every state it reaches, whatever keys, sizes, ticks and
  gateway reports it has seen, as long as its tables get through what they are asked: the active
  section exists, the layout is the one of the current size, the request list is the filtered
  log, newest first, and unless the terminal is too small every table has rows of exactly as many
  cells as it has columns. With a table that needs a column for each cell, no row is ever longer
  than the columns, but such a table does not get through \<open>New\<close> at all when a provider is
  configured.
\<close>

theorem screen_typed:
  assumes "tui_reachable renders tm tu"
  shows "0 \<le> tu_active tu \<and> nat (tu_active tu) < length section_names \<and>
    tu_layout tu = calculateLayout (tu_width tu) (tu_height tu) \<and>
    tu_visible_logs tu = filter (filterLog (tu_filter tu)) (rev (tu_logs tu)) \<and>
    (\<not> IsTiny (tu_layout tu) \<longrightarrow>
       (\<forall>calls \<in> {tu_log_table tu, tu_provider_table tu, tu_client_table tu}.
          \<forall>r \<in> set (table_rows calls). length r = length (table_columns calls))) \<and>
    (needs_columns renders \<longrightarrow>
       (\<forall>calls \<in> {tu_log_table tu, tu_provider_table tu, tu_client_table tu}.
          \<forall>r \<in> set (table_rows calls). length r \<le> length (table_columns calls)) \<and>
       (\<forall>sn. cn_providers (ts_cfg sn) \<noteq> [] \<longrightarrow> \<not> tables_alive renders (newModel tm sn)))"
proof -
  note ok = tui_reachable_ok [OF assms]
  have "length r = length (table_columns calls)"
    if "\<not> IsTiny (tu_layout tu)" "calls \<in> {tu_log_table tu, tu_provider_table tu, tu_client_table tu}"
      "r \<in> set (table_rows calls)" for calls r
    using screen_okD(5) [OF ok that(1)] that(2,3) provider_rows_length client_rows_length
    by (auto simp: tables_agree_def Let_def row_lengths)
  moreover have "length r \<le> length (table_columns calls)"
    if "needs_columns renders" "calls \<in> {tu_log_table tu, tu_provider_table tu, tu_client_table tu}"
      "r \<in> set (table_rows calls)" for calls r
    using alive_fits [OF reachable_alive [OF assms] that] .
  moreover have "\<not> tables_alive renders (newModel tm sn)" if "needs_columns renders" "cn_providers (ts_cfg sn) \<noteq> []" for sn
    using that new_gives_up by blast
  ultimately show ?thesis
    using screen_okD(1-3,6) [OF ok] by (simp add: shown_entries_def sections_def nat_less_iff)
qed

text \<open>
  Live refresh: a tick of a running UI takes over exactly what the gateway reports, and the
  tables show it, one row per entry that passes the filter, per provider and per client, while
  a paused UI keeps its screen; either way the next tick is scheduled.
\<close>

theorem tick_shows_gateway:
  assumes "tui_reachable renders tm tu" and "tui_update tm sn TickMsg tu = (tu', cmd)"
  shows "cmd = TickCmd \<and>
    (if tu_paused tu then tu' = tu
     else tu_cfg tu' = ts_cfg sn \<and> tu_metrics tu' = ts_metrics sn \<and> tu_logs tu' = ts_logs sn \<and>
       tu_active tu' = tu_active tu \<and> tu_filter tu' = tu_filter tu \<and>
       (\<not> IsTiny (tu_layout tu') \<longrightarrow>
          table_rows (tu_log_table tu') = map (\<lambda>e. logRow tm e (model_width tu'))
            (filter (filterLog (tu_filter tu)) (rev (ts_logs sn))) \<and>
          table_rows (tu_provider_table tu') = provider_rows tm (ts_cfg sn) (ts_metrics sn) (model_width tu') \<and>
          table_rows (tu_client_table tu') = client_rows tm (ts_now sn) (ts_cfg sn) (ts_logs sn) (model_width tu')))"
proof -
  have tu': "tu' = (if tu_paused tu then tu else refresh tm sn tu)" "cmd = TickCmd"
    using assms(2) by (auto simp: tui_update_def)
  have ok: "screen_ok tm (refresh tm sn tu)" using refresh_ok tui_reachable_ok assms(1) by blast
  show ?thesis
    using tu' screen_okD(5,6) [OF ok]
    by (simp add: tables_agree_def shown_entries_def Let_def) (simp add: refresh_def)
qed

text \<open>The request table has rows without columns too, when a wide terminal is made narrow.\<close>

theorem narrowing_tears_rows:
  assumes "tui_reachable renders tm tu" and "\<not> IsTiny (tu_layout tu)" and "118 \<le> model_width tu"
    and "tu_visible_logs tu \<noteq> []"
    and "\<not> IsTiny (calculateLayout w h)" and "contentWidth (calculateLayout w h) < 118"
    and "tui_update tm sn (TuiWindow w h) tu = (tu', cmd)"
  shows "\<exists>pre post. tu_log_table tu' = pre @ post \<and> length pre = Suc (length (tu_log_table tu)) \<and>
    (\<exists>r \<in> set (table_rows pre). length (table_columns pre) < length r)"
proof -
  let ?l = "calculateLayout w h"
  let ?cs = "defaultLogColumns (max 24 (ly_workspace_width ?l - 4))"
  let ?pre = "tu_log_table tu @ [SetColumns ?cs]"
  have cw: "max 24 (ly_workspace_width ?l - 4) = contentWidth ?l"
    using layout_width [of w h] by (simp add: contentWidth_def)
  obtain post where post: "tu_log_table tu' = ?pre @ post"
    using assms(5,7) by (auto simp: tui_update_def resize_def size_table_def Let_def)
  have rows: "table_rows ?pre = map (\<lambda>e. logRow tm e (model_width tu)) (tu_visible_logs tu)"
    using screen_okD(5) [OF tui_reachable_ok [OF assms(1)] assms(2)] by (simp add: tables_agree_def Let_def)
  obtain e where e: "e \<in> set (tu_visible_logs tu)" using assms(4) by (cases "tu_visible_logs tu") auto
  have "length (table_columns ?pre) < 9" using assms(6) by (simp add: cw defaultLogColumns_def)
  moreover have "length (logRow tm e (model_width tu)) = 9" using assms(3) by (simp add: logRow_def)
  ultimately have "\<exists>r \<in> set (table_rows ?pre). length (table_columns ?pre) < length r"
    using rows e by (intro bexI [of _ "logRow tm e (model_width tu)"]) auto
  with post show ?thesis by (intro exI [of _ ?pre] exI [of _ post]) simp
qed


subsection \<open>A screen\<close>

definition sample_tm :: terminal where
  "sample_tm =
     \<lparr>paint = (\<lambda>_ s. s), boxed = (\<lambda>_ _ s. s), cells = (\<lambda>s. int (length s)), join_horizontal = concat,
      join_vertical = concat, duration_text = itoa, time_text = (\<lambda>_ t. itoa t), percent1 = (\<lambda>a b. itoa (100 * a div b)),
      quotient1 = (\<lambda>a b. itoa (uint a div uint b)), ratio_text = (\<lambda>_. '''')\<rparr>"

definition sample_snapshot :: "log_entry list \<Rightarrow> tui_snapshot" where
  "sample_snapshot logs =
     \<lparr>ts_cfg = \<lparr>cn_listen = '':8080'', cn_public_health = True, cn_body_limit = ''32MiB'', cn_trusted_proxies = [],
        cn_dedicated_auth = True, cn_backend = ''memory'', cn_mode = '''', cn_fail_open = False,
        cn_telemetry_enabled = False, cn_telemetry_service = '''', cn_telemetry_ratio = None,
        cn_telemetry_environment = '''', cn_telemetry_propagate = False, cn_telemetry_endpoint = False,
        cn_upstream_url = '''', cn_upstream_key = '''', cn_default_provider = ''main'',
        cn_providers = [\<lparr>pn_name = ''main'', pn_kind = ''openai'', pn_url = ''https://api.openai.com'',
          pn_api_key = ''sk-1...'', pn_timeout = ''0s'', pn_openai = True, pn_circuit_enabled = True,
          pn_circuit_threshold = 5, pn_circuit_open_for = ''30s''\<rparr>],
        cn_log_recent = 300, cn_clients = [\<lparr>sn_name = ''app'', sn_enabled = True, sn_token = ''t...'',
          sn_rate_limit_rpm = 60\<rparr>], cn_cors_enabled = False, cn_cors_origins = []\<rparr>,
      ts_metrics = \<lparr>ms_started_at = 0, ms_uptime = 0, ms_requests = 1, ms_requests2xx = 1, ms_requests4xx = 0,
        ms_requests5xx = 0, ms_bytes_in = 0, ms_bytes_out = 0, ms_in_flight = 0, ms_upstream_errors = 0,
        ms_auth_failures = 0, ms_rate_limited = 0, ms_rate_limit_backend_errors = 0, ms_providers = [],
        ms_circuits = []\<rparr>,
      ts_logs = logs, ts_now = 5\<rparr>"

definition no_providers :: "tui_snapshot \<Rightarrow> tui_snapshot" where
  "no_providers sn = sn\<lparr>ts_cfg := (ts_cfg sn)\<lparr>cn_providers := [], cn_clients := []\<rparr>\<rparr>"

definition sample_entry :: log_entry where
  "sample_entry = zero_entry\<lparr>le_status := 200, le_client := ''app'', le_provider := ''main'', le_path := ''/v1/models'',
     le_duration := 3\<rparr>"

definition sample_screen :: tui_model where
  "sample_screen = newModel sample_tm (sample_snapshot [])"

text \<open>A table that draws whatever it is given, and one that needs a column for each cell.\<close>

definition table_fits :: "table_call list \<Rightarrow> bool" where
  "table_fits calls \<longleftrightarrow> list_all (\<lambda>r. length r \<le> length (table_columns calls)) (table_rows calls)"

lemma sample_screen: "tui_reachable (\<lambda>_. True) sample_tm sample_screen"
  unfolding sample_screen_def by (rule tui_reachable.start) (simp add: tables_alive_def)

lemma no_rows_fit:
  assumes "\<forall>rs. SetRows rs \<in> set calls \<longrightarrow> rs = []" shows "table_fits (take k calls)"
proof -
  have "(\<forall>rs. SetRows rs \<in> set calls \<longrightarrow> rs = []) \<Longrightarrow> table_rows calls = []" for calls
    by (induction calls rule: rev_induct) (auto split: table_call.split)
  then have "table_rows (take k calls) = []" using assms in_set_takeD by metis
  then show ?thesis by (simp add: table_fits_def)
qed

lemma sample_fits: "tui_reachable table_fits sample_tm (newModel sample_tm (no_providers (sample_snapshot [])))"
proof (rule tui_reachable.start)
  let ?sn = "no_providers (sample_snapshot [])"
  have sn: "cn_providers (ts_cfg ?sn) = []" "cn_clients (ts_cfg ?sn) = []" "ts_logs ?sn = []"
    by (simp_all add: no_providers_def sample_snapshot_def)
  have tiny: "\<not> IsTiny (calculateLayout 100 30)" by code_simp
  have "\<forall>rs. SetRows rs \<in> set calls \<longrightarrow> rs = []"
    if "calls \<in> {tu_log_table (newModel sample_tm ?sn), tu_provider_table (newModel sample_tm ?sn),
        tu_client_table (newModel sample_tm ?sn)}" for calls
    using that
    by (auto simp: newModel_def resize_def refresh_def empty_model_def size_table_def shown_entries_def
        provider_rows_def client_rows_def sn tiny Let_def)
  then show "tables_alive table_fits (newModel sample_tm ?sn)" using no_rows_fit unfolding tables_alive_def by blast
qed

lemma sample_screen_sel:
  "tu_paused sample_screen = False" "tu_width sample_screen = 100" "tu_height sample_screen = 30"
  "tu_filter sample_screen = AllEntries"
  by (simp_all add: sample_screen_def newModel_def resize_def refresh_def empty_model_def Let_def)

theorem screen_typed_witness:
  "nat (tu_active sample_screen) < length section_names \<and>
   \<not> tables_alive table_fits (newModel sample_tm (sample_snapshot []))"
proof -
  have "needs_columns table_fits" by (simp add: needs_columns_def table_fits_def list_all_iff)
  moreover have "cn_providers (ts_cfg (sample_snapshot [])) \<noteq> []" by (simp add: sample_snapshot_def)
  ultimately show ?thesis
    using screen_typed [OF sample_screen] screen_typed [OF sample_fits] by blast
qed

theorem tick_shows_gateway_witness:
  "\<exists>tu'. tui_update sample_tm (sample_snapshot [sample_entry]) TickMsg sample_screen = (tu', TickCmd) \<and>
     tu_logs tu' = [sample_entry]"
proof -
  obtain tu' cmd where u: "tui_update sample_tm (sample_snapshot [sample_entry]) TickMsg sample_screen = (tu', cmd)"
    by fastforce
  from tick_shows_gateway [OF sample_screen u] u show ?thesis
    by (simp add: sample_screen_sel) (simp add: sample_snapshot_def)
qed

end
