(* ===== verification/Tui_Views.thy ===== *)
theory Tui_Views
  imports Tui_Model
begin

section \<open>The views of the terminal UI (internal/tui: model.go, dashboard.go, logs.go, providers.go, clients.go, config_view.go, help_view.go, setup.go)\<close>

text \<open>
  The text of every screen. What a widget draws, and where its cursor is, are functions of the
  calls made on it (\<open>widgets\<close>); styles, joins and cell widths come from \<open>terminal\<close>.
\<close>

record widgets =
  draw_table :: "table_call list \<Rightarrow> string"
  table_cursor :: "table_call list \<Rightarrow> int"
  draw_viewport :: "viewport_call list \<Rightarrow> string"

abbreviation lines_text :: "string list \<Rightarrow> string" where "lines_text \<equiv> join_with [nl]"


subsection \<open>Requests\<close>

text \<open>The selected item of a list: the cursor, or the first when it is out of range.\<close>

definition selected :: "int \<Rightarrow> 'a list \<Rightarrow> 'a" where
  "selected idx xs = xs ! nat (if idx < 0 \<or> int (length xs) \<le> idx then 0 else idx)"

definition logDetailView :: "terminal \<Rightarrow> widgets \<Rightarrow> tui_model \<Rightarrow> string" where
  "logDetailView tm wd tu =
     (if tu_visible_logs tu = [] then paint tm MutedStyle ''No matching request entries.''
      else
        (let e = selected (table_cursor wd (tu_log_table tu)) (tu_visible_logs tu); w = model_width tu;
             message = le_message e \<noteq> '''' \<and> le_message e \<noteq> le_path e in
         if w < 82 then
           lines_text
             ([safeText (le_method e) ''-'' @ '' '' @ coloredStatus tm (le_status e) @ '' '' @ logPath e,
               paint tm MutedStyle (''provider='' @ safeText (le_provider e) ''-'' @ ''  client='' @ safeText (le_client e) ''-''),
               paint tm MutedStyle (''duration='' @ formatDuration tm (le_duration e) @ ''  bytes='' @ byte_text tm (le_bytes e))]
              @ (if message then [paint tm WarnStyle (truncate_text tm (le_message e) (max 24 (w - 2)))] else []))
         else
           paint tm DetailBgStyle
             (join_with ''  ''
                [''request_id='' @ safeText (le_request_id e) ''-'',
                 ''client='' @ safeText (le_client e) ''-'',
                 ''provider='' @ safeText (le_provider e) ''-'',
                 ''status='' @ statusText (le_status e),
                 ''duration='' @ formatDuration tm (le_duration e),
                 ''bytes='' @ byte_text tm (le_bytes e)]
              @ (if message then [nl] @ paint tm WarnStyle (le_message e) else ''''))))"

definition logsView :: "terminal \<Rightarrow> widgets \<Rightarrow> tui_model \<Rightarrow> string" where
  "logsView tm wd tu =
     (let w = model_width tu;
          filter = join_with ''   ''
            [filterPill tm ''a'' ''all'' (tu_filter tu = AllEntries), filterPill tm ''w'' ''warn'' (tu_filter tu = Warnings),
             filterPill tm ''e'' ''errors'' (tu_filter tu = Errors), filterPill tm ''u'' ''auth'' (tu_filter tu = AuthEntries)];
          title = ''Requests  '' @ itoa (int (length (tu_visible_logs tu))) @ '' shown / ''
            @ itoa (int (length (tu_logs tu))) @ '' retained''
      in lines_text [sectionRule tm title w, filter, '''', draw_table wd (tu_log_table tu), '''',
           sectionRule tm ''Selected request'' w, logDetailView tm wd tu])"


subsection \<open>Providers\<close>

definition providerHealthText :: "terminal \<Rightarrow> string \<Rightarrow> string" where
  "providerHealthText tm health =
     (if health = ''healthy'' then paint tm OkStyle ''OK healthy''
      else if health = ''warning'' then paint tm WarnStyle ''! warning''
      else if health = ''degraded'' then paint tm BadStyle ''! degraded''
      else paint tm MutedStyle ''? unknown'')"

definition providerHealthSummary :: "terminal \<Rightarrow> provider_metrics_snapshot list \<Rightarrow> string" where
  "providerHealthSummary tm items =
     (if items = [] then paint tm MutedStyle ''no providers configured''
      else join_with ''   ''
        (map (\<lambda>p. paint tm TextStyle (ps_name p) @ '' '' @ providerHealthText tm (ps_health p)) items))"

definition providerCircuitText :: "terminal \<Rightarrow> string \<Rightarrow> string" where
  "providerCircuitText tm state =
     (if state = ''closed'' then paint tm OkStyle ''closed''
      else if state = ''half_open'' then paint tm WarnStyle ''half-open''
      else if state = ''open'' then paint tm BadStyle ''open''
      else if state = ''disabled'' then paint tm MutedStyle ''disabled''
      else paint tm MutedStyle ''closed'')"

definition providerErrorText :: "terminal \<Rightarrow> string \<Rightarrow> provider_metrics_snapshot \<Rightarrow> string" where
  "providerErrorText tm rate p =
     (if 0 < ps_requests5xx p + ps_transport_errors p then paint tm BadStyle rate
      else if 0 < ps_requests4xx p then paint tm WarnStyle rate
      else paint tm TextStyle rate)"

definition providerDetailView :: "terminal \<Rightarrow> widgets \<Rightarrow> tui_model \<Rightarrow> string" where
  "providerDetailView tm wd tu =
     (let cfg = tu_cfg tu in
      if cn_providers cfg = [] then paint tm MutedStyle ''No configured providers.''
      else
        (let p = selected (table_cursor wd (tu_provider_table tu)) (cn_providers cfg);
             pm = providerMetricsByName (ms_providers (tu_metrics tu)) (pn_name p);
             circuit = providerCircuitsByName (ms_circuits (tu_metrics tu)) (pn_name p);
             line1 = paint tm ValueStyle (pn_name p) @ ''  '' @ paint tm MutedStyle (pn_kind p) @ ''  role='' @ provider_role cfg p;
             line2 = ''health='' @ providerHealthText tm (ps_health pm) @ ''  circuit='' @ providerCircuitText tm (cs_state circuit)
               @ ''  requests='' @ itoa (uint (ps_requests pm)) @ ''  error='' @ providerErrorText tm (providerErrorRate tm pm) pm
               @ ''  in-flight='' @ itoa (ps_in_flight pm) @ ''  avg='' @ formatDuration tm (ps_average_duration pm);
             line3 = paint tm MutedStyle (''base: '' @ truncate_text tm (pn_url p) (max 24 (model_width tu - 8)));
             line4 = paint tm MutedStyle (''circuit policy: '' @ circuit_policy_text p)
               @ (if 82 \<le> model_width tu
                  then [nl] @ paint tm MutedStyle (''route: '' @ localBaseURL (cn_listen cfg) @ ''/providers/'' @ pn_name p @ ''/...'')
                  else '''')
         in paint tm DetailBgStyle (lines_text [line1, line2, line3, line4])))"

definition providersView :: "terminal \<Rightarrow> widgets \<Rightarrow> tui_model \<Rightarrow> string" where
  "providersView tm wd tu =
     (let w = model_width tu in
      lines_text [sectionRule tm (''Providers  '' @ itoa (int (length (cn_providers (tu_cfg tu)))) @ '' configured'') w,
        paint tm MutedStyle ''Passive health + full-stream circuit accounting. No automatic generation retries.'',
        '''', draw_table wd (tu_provider_table tu), '''', sectionRule tm ''Selected provider'' w, providerDetailView tm wd tu])"


subsection \<open>Clients\<close>

definition clientErrorText :: "terminal \<Rightarrow> client_stats \<Rightarrow> string" where
  "clientErrorText tm stats =
     (let rate = percent tm (ct_errors stats) (ct_requests stats) in
      if 0 < ct_errors stats then paint tm WarnStyle rate else paint tm TextStyle rate)"

definition clientDetailView :: "terminal \<Rightarrow> widgets \<Rightarrow> gotime \<Rightarrow> tui_model \<Rightarrow> string" where
  "clientDetailView tm wd now tu =
     (if cn_clients (tu_cfg tu) = [] then paint tm MutedStyle ''No configured clients.''
      else
        (let c = selected (table_cursor wd (tu_client_table tu)) (cn_clients (tu_cfg tu));
             stats = lookup_or zero_client_stats (st_clients (summarize tm now (tu_logs tu))) (sn_name c);
             stateText = (if sn_enabled c then paint tm OkStyle ''OK enabled'' else paint tm MutedStyle ''disabled'');
             line1 = paint tm ValueStyle (sn_name c) @ ''  '' @ stateText @ ''  limit='' @ limitText (sn_rate_limit_rpm c);
             line2 = ''requests='' @ itoa (ct_requests stats) @ ''  errors='' @ clientErrorText tm stats @ ''  avg=''
               @ formatDuration tm (ct_avg_latency stats) @ ''  bytes='' @ byte_text tm (ct_bytes_out stats);
             line3 = paint tm MutedStyle ''Token material is intentionally omitted from the operator UI.''
         in paint tm DetailBgStyle (lines_text [line1, line2, line3])))"

definition clientsView :: "terminal \<Rightarrow> widgets \<Rightarrow> gotime \<Rightarrow> tui_model \<Rightarrow> string" where
  "clientsView tm wd now tu =
     (let w = model_width tu; cfg = tu_cfg tu in
      lines_text [sectionRule tm (''Clients  '' @ itoa (enabledClientCount cfg) @ '' enabled / ''
          @ itoa (int (length (cn_clients cfg))) @ '' configured'') w,
        paint tm MutedStyle ''One token per consumer keeps usage, revocation and rate limits attributable.'',
        '''', draw_table wd (tu_client_table tu), '''', sectionRule tm ''Selected client'' w, clientDetailView tm wd now tu])"


subsection \<open>Configuration and help\<close>

definition configView :: "terminal \<Rightarrow> widgets \<Rightarrow> tui_model \<Rightarrow> string" where
  "configView tm wd tu =
     lines_text [sectionRule tm ''Effective runtime configuration'' (model_width tu),
       paint tm MutedStyle ''Read-only, redacted operator view. Secrets and collector/Redis endpoints are never rendered.'',
       '''', draw_viewport wd (tu_config_viewport tu)]"

definition helpView :: "terminal \<Rightarrow> widgets \<Rightarrow> tui_model \<Rightarrow> string" where
  "helpView tm wd tu =
     lines_text [sectionRule tm (''Keyboard help / '' @ section_name (tu_active tu)) (model_width tu),
       paint tm MutedStyle ''Context-sensitive commands only. Press Esc or ? to return.'',
       '''', draw_viewport wd (tu_help_viewport tu)]"


subsection \<open>Overview\<close>

definition metricInline :: "terminal \<Rightarrow> string \<Rightarrow> string \<Rightarrow> string" where
  "metricInline tm label val = paint tm MutedStyle (label @ '' '') @ val"

definition success_text :: "terminal \<Rightarrow> (int \<times> int) option \<Rightarrow> string" where
  "success_text tm rate = (case rate of None \<Rightarrow> ''0.0%'' | Some (n, d) \<Rightarrow> percent1 tm n d @ ''%'')"

definition overviewSummary :: "terminal \<Rightarrow> metrics_snapshot \<Rightarrow> stats_snapshot \<Rightarrow> int \<Rightarrow> string" where
  "overviewSummary tm metrics stats width =
     (let errors = st_four_xx stats + st_five_xx stats;
          errorText = (if 0 < errors then paint tm WarnStyle (itoa errors) else itoa errors);
          errorText = (if 0 < st_five_xx stats \<or> 0 < ms_upstream_errors metrics then paint tm BadStyle (itoa errors)
                       else errorText);
          items = [metricInline tm ''requests'' (paint tm ValueStyle (itoa (uint (ms_requests metrics)))),
                   metricInline tm ''success'' (paint tm ValueStyle (success_text tm (st_success_rate stats))),
                   metricInline tm ''errors'' errorText,
                   metricInline tm ''p95'' (paint tm ValueStyle (formatDuration tm (st_p95_latency stats))),
                   metricInline tm ''in-flight'' (paint tm ValueStyle (itoa (ms_in_flight metrics))),
                   metricInline tm ''limited'' (paint tm ValueStyle (itoa (uint (ms_rate_limited metrics))))]
      in if width < 72
         then lines_text [sectionRule tm ''Now'' width, join_with ''   '' (take 3 items), join_with ''   '' (drop 3 items)]
         else lines_text [sectionRule tm ''Now'' width, join_with ''   '' items])"

definition needs_attention :: "provider_metrics_snapshot \<Rightarrow> circuit_snapshot \<Rightarrow> bool" where
  "needs_attention pm circuit \<longleftrightarrow>
     \<not> (ps_health pm \<noteq> ''warning'' \<and> ps_health pm \<noteq> ''degraded'' \<and> cs_state circuit \<noteq> ''open''
        \<and> cs_state circuit \<noteq> ''half_open'')"

definition providerAttentionView :: "terminal \<Rightarrow> config_snapshot \<Rightarrow> metrics_snapshot \<Rightarrow> string" where
  "providerAttentionView tm cfg metrics =
     (if cn_providers cfg = [] then paint tm MutedStyle ''No providers configured.''
      else
        (let byName = providerMetricsByName (ms_providers metrics);
             circuits = providerCircuitsByName (ms_circuits metrics);
             shown = take 5 (filter (\<lambda>p. needs_attention (byName (pn_name p)) (circuits (pn_name p))) (cn_providers cfg));
             attention = map (\<lambda>p. ''! '' @ pad_right 18 (truncate_text tm (pn_name p) 18) @ '' ''
               @ pad_right 10 (providerHealthText tm (ps_health (byName (pn_name p)))) @ '' circuit=''
               @ safeText (cs_state (circuits (pn_name p))) ''closed'') shown
         in if attention = [] then paint tm OkStyle ''OK  all configured providers are passive-healthy''
            else lines_text attention))"

definition latestRequestView :: "terminal \<Rightarrow> stats_snapshot \<Rightarrow> int \<Rightarrow> string" where
  "latestRequestView tm stats width =
     (let e = st_last stats in
      if le_status e = 0 \<and> le_message e = '''' then paint tm MutedStyle ''No requests yet.''
      else
        (let line1 = time_text tm ''15:04:05'' (le_time e) @ ''  '' @ coloredStatus tm (le_status e) @ ''  ''
               @ truncate_text tm (logPath e) (max 20 (width - 24));
             line2 = ''client='' @ safeText (le_client e) ''-'' @ ''  provider='' @ safeText (le_provider e) ''-''
               @ ''  duration='' @ formatDuration tm (le_duration e)
               @ (if le_request_id e \<noteq> '''' \<and> 90 \<le> width then ''  request_id='' @ le_request_id e else '''')
         in paint tm TextStyle line1 @ [nl] @ paint tm MutedStyle line2))"

definition dashboardView :: "terminal \<Rightarrow> gotime \<Rightarrow> tui_model \<Rightarrow> string" where
  "dashboardView tm now tu =
     (let stats = summarize tm now (tu_logs tu); w = model_width tu;
          summary = overviewSummary tm (tu_metrics tu) stats w;
          traffic = lines_text [sectionRule tm ''Traffic'' w,
            paint tm ValueStyle (itoa (st_last_minute stats) @ ''/min'') @ ''  '' @ st_trend stats,
            paint tm MutedStyle ''rolling last 20 minutes; each cell is one minute''];
          providers = lines_text [sectionRule tm ''Provider state'' w, providerAttentionView tm (tu_cfg tu) (tu_metrics tu)];
          latest = lines_text [sectionRule tm ''Latest request'' w, latestRequestView tm stats w]
      in if IsWide (tu_layout tu) \<and> 96 \<le> w then
           (let leftW = (w * 58) div 100; rightW = max 32 (w - leftW - 3);
                left = boxed tm PlainStyle (max 1 leftW) (lines_text [summary, '''', traffic]);
                right = boxed tm PlainStyle (max 1 rightW) (lines_text [providers, '''', latest])
            in join_horizontal tm [left, ''   '', right])
         else lines_text [summary, '''', traffic, '''', providers, '''', latest])"


subsection \<open>The frame\<close>

definition overallStatus :: "terminal \<Rightarrow> tui_model \<Rightarrow> string" where
  "overallStatus tm tu =
     (if tu_paused tu then paint tm StatusPausedStyle ''PAUSED''
      else if 0 < ms_requests5xx (tu_metrics tu) \<or> 0 < ms_upstream_errors (tu_metrics tu) \<or>
        0 < providerAttentionCount (ms_providers (tu_metrics tu)) (ms_circuits (tu_metrics tu))
      then paint tm statusWarnStyle ''! DEGRADED''
      else paint tm statusOKStyle ''OK LIVE'')"

definition headerView :: "terminal \<Rightarrow> tui_model \<Rightarrow> string" where
  "headerView tm tu =
     (let W = ly_width (tu_layout tu);
          left = paint tm TitleStyle ''GemGate'' @ paint tm MutedStyle '' / '' @ paint tm TextStyle (section_name (tu_active tu));
          updated = (if tu_last_refresh tu \<noteq> zero_time then time_text tm ''15:04:05'' (tu_last_refresh tu) else ''--:--:--'');
          right = overallStatus tm tu;
          right = (if 72 \<le> W
                   then right @ ''  req '' @ itoa (uint (ms_requests (tu_metrics tu))) @ ''  in ''
                     @ itoa (ms_in_flight (tu_metrics tu)) @ ''  '' @ paint tm MutedStyle updated
                   else right);
          right = (if 110 \<le> W then paint tm MutedStyle (cn_listen (tu_cfg tu)) @ ''  '' @ right else right)
      in boxed tm HeaderStyle (max 1 (W - 2)) (padBetween tm left right (max 1 (W - 4))))"

definition nav_item :: "terminal \<Rightarrow> tab \<Rightarrow> int \<Rightarrow> string" where
  "nav_item tm active i =
     (let text = itoa (i + 1) @ ''  '' @ section_name i in
      if i = active then paint tm NavActiveStyle (''> '' @ text) else paint tm NavItemStyle (''  '' @ text))"

definition navigationView :: "terminal \<Rightarrow> tui_model \<Rightarrow> string" where
  "navigationView tm tu =
     (let navWidth = ly_nav_width (tu_layout tu); cfg = tu_cfg tu in
      boxed tm NavigationStyle (max 12 (navWidth - 3))
        (lines_text
          ([paint tm SubtitleStyle ''Sections'', ''''] @ map (nav_item tm (tu_active tu)) [0, 1, 2, 3, 4] @
           ['''', paint tm SectionRuleStyle (repeat_text glyph_rule (max 1 (navWidth - 4))), '''',
            paint tm MutedStyle ''listen'', paint tm TextStyle (truncate_text tm (cn_listen cfg) (max 10 (navWidth - 4))), '''',
            paint tm MutedStyle (itoa (int (length (cn_providers cfg))) @ '' providers''),
            paint tm MutedStyle (itoa (enabledClientCount cfg) @ '' clients'')])))"

definition sectionBarView :: "terminal \<Rightarrow> tui_model \<Rightarrow> string" where
  "sectionBarView tm tu =
     (let l = tu_layout tu; W = ly_width l; active = tu_active tu in
      if IsCompact l then
        (let current = itoa (active + 1) @ ''/'' @ itoa sections @ '' '' @ section_name active;
             hint = paint tm MutedStyle ''[ ] / tab sections''
         in boxed tm HeaderStyle (max 1 (W - 2)) (padBetween tm (paint tm NavActiveStyle current) hint (max 1 (W - 4))))
      else
        paint tm HeaderStyle (join_with ''   ''
          (map (\<lambda>i. paint tm (if i = active then ActiveTabStyle else InactiveTabStyle) (itoa (i + 1) @ '' '' @ section_name i))
            [0, 1, 2, 3, 4])))"

definition bodyView :: "terminal \<Rightarrow> widgets \<Rightarrow> gotime \<Rightarrow> tui_model \<Rightarrow> string" where
  "bodyView tm wd now tu =
     (if tu_active tu = tabOverview then dashboardView tm now tu
      else if tu_active tu = tabRequests then logsView tm wd tu
      else if tu_active tu = tabProviders then providersView tm wd tu
      else if tu_active tu = tabClients then clientsView tm wd now tu
      else if tu_active tu = tabConfig then configView tm wd tu
      else '''')"

definition workspaceView :: "terminal \<Rightarrow> widgets \<Rightarrow> gotime \<Rightarrow> tui_model \<Rightarrow> string" where
  "workspaceView tm wd now tu =
     boxed tm WorkspaceStyle (max 1 (ly_workspace_width (tu_layout tu) - 2))
       (if tu_show_help tu then helpView tm wd tu else bodyView tm wd now tu)"

definition footerView :: "terminal \<Rightarrow> tui_model \<Rightarrow> string" where
  "footerView tm tu =
     (let width = max 1 (ly_width (tu_layout tu) - 2) in
      if tu_show_help tu then boxed tm FooterStyle width (glyph_up_down @ '' scroll   esc close   q quit'')
      else
        (let active = tu_active tu;
             ctxt = (if active = tabRequests then glyph_up_down @ '' select   a/w/e/u filter''
               else if active = tabProviders \<or> active = tabClients then glyph_up_down @ '' select''
               else if active = tabConfig then glyph_up_down @ ''/pgup/pgdn scroll''
               else ''r refresh'');
             global = (if 76 \<le> ly_width (tu_layout tu) then ''tab/[ ] section   r refresh   ? help   q quit''
               else ''? help   q quit'')
         in boxed tm FooterStyle width (padBetween tm ctxt global (max 1 (width - 2)))))"

definition tinyView :: "terminal \<Rightarrow> tui_model \<Rightarrow> string" where
  "tinyView tm tu =
     lines_text [paint tm TitleStyle ''GemGate'', '''', paint tm WarnStyle ''Terminal too small for the operator UI.'',
       ''Minimum: '' @ itoa minTerminalWidth @ ''x'' @ itoa minTerminalHeight,
       ''Current: '' @ itoa (tu_width tu) @ ''x'' @ itoa (tu_height tu), '''',
       paint tm MutedStyle ''Resize the terminal or press q to quit.'']"

definition tui_view :: "terminal \<Rightarrow> widgets \<Rightarrow> gotime \<Rightarrow> tui_model \<Rightarrow> string" where
  "tui_view tm wd now tu =
     (let l = tu_layout tu in
      if IsTiny l then tinyView tm tu
      else
        (let header = headerView tm tu; footer = footerView tm tu; body = workspaceView tm wd now tu in
         if IsWide l
         then join_vertical tm [header,
                join_horizontal tm [navigationView tm tu, repeat_text '' '' (ly_gap l), body], footer]
         else join_vertical tm [header, sectionBarView tm tu, body, footer]))"


subsection \<open>What the screens depend on\<close>

text \<open>A run of the UI: the gateway's report at each message, and the message.\<close>

fun tui_run :: "terminal \<Rightarrow> tui_model \<Rightarrow> (tui_snapshot \<times> tui_msg) list \<Rightarrow> tui_model" where
  "tui_run tm tu [] = tu"
| "tui_run tm tu ((sn, msg) # steps) = tui_run tm (fst (tui_update tm sn msg tu)) steps"

text \<open>The configuration snapshot without the two kinds of secret the screens never use.\<close>

definition public_cfg :: "config_snapshot \<Rightarrow> config_snapshot" where
  "public_cfg cfg = cfg\<lparr>cn_upstream_key := '''', cn_clients := map (\<lambda>c. c\<lparr>sn_token := ''''\<rparr>) (cn_clients cfg)\<rparr>"

definition public_report :: "tui_snapshot \<Rightarrow> tui_snapshot" where
  "public_report sn = sn\<lparr>ts_cfg := public_cfg (ts_cfg sn)\<rparr>"

definition public_model :: "tui_model \<Rightarrow> tui_model" where
  "public_model tu = tu\<lparr>tu_cfg := public_cfg (tu_cfg tu)\<rparr>"

lemma public_cfg_sel:
  "cn_listen (public_cfg cfg) = cn_listen cfg" "cn_providers (public_cfg cfg) = cn_providers cfg"
  "cn_default_provider (public_cfg cfg) = cn_default_provider cfg"
  "cn_public_health (public_cfg cfg) = cn_public_health cfg" "cn_body_limit (public_cfg cfg) = cn_body_limit cfg"
  "cn_trusted_proxies (public_cfg cfg) = cn_trusted_proxies cfg"
  "cn_dedicated_auth (public_cfg cfg) = cn_dedicated_auth cfg" "cn_backend (public_cfg cfg) = cn_backend cfg"
  "cn_mode (public_cfg cfg) = cn_mode cfg" "cn_fail_open (public_cfg cfg) = cn_fail_open cfg"
  "cn_telemetry_enabled (public_cfg cfg) = cn_telemetry_enabled cfg"
  "cn_telemetry_service (public_cfg cfg) = cn_telemetry_service cfg"
  "cn_telemetry_ratio (public_cfg cfg) = cn_telemetry_ratio cfg"
  "cn_telemetry_environment (public_cfg cfg) = cn_telemetry_environment cfg"
  "cn_telemetry_propagate (public_cfg cfg) = cn_telemetry_propagate cfg"
  "cn_telemetry_endpoint (public_cfg cfg) = cn_telemetry_endpoint cfg"
  "cn_log_recent (public_cfg cfg) = cn_log_recent cfg" "cn_cors_enabled (public_cfg cfg) = cn_cors_enabled cfg"
  "cn_cors_origins (public_cfg cfg) = cn_cors_origins cfg"
  "cn_clients (public_cfg cfg) = map (\<lambda>c. c\<lparr>sn_token := ''''\<rparr>) (cn_clients cfg)"
  by (simp_all add: public_cfg_def)

lemma public_client_sel:
  "sn_name (c\<lparr>sn_token := t\<rparr>) = sn_name c" "sn_enabled (c\<lparr>sn_token := t\<rparr>) = sn_enabled c"
  "sn_rate_limit_rpm (c\<lparr>sn_token := t\<rparr>) = sn_rate_limit_rpm c"
  by simp_all

lemma public_role: "provider_role (public_cfg cfg) = provider_role cfg"
  by (simp only: provider_role_def public_cfg_sel fun_eq_iff) simp

lemma public_enabled: "enabledClientCount (public_cfg cfg) = enabledClientCount cfg"
  by (simp add: enabledClientCount_def public_cfg_sel filter_map comp_def)

lemma public_provider_rows: "provider_rows tm (public_cfg cfg) = provider_rows tm cfg"
  by (simp only: provider_rows_def public_cfg_sel public_role fun_eq_iff) simp

lemma public_client_rows: "client_rows tm now (public_cfg cfg) = client_rows tm now cfg"
  by (simp only: client_rows_def public_cfg_sel map_map comp_def public_client_sel fun_eq_iff) simp

lemma public_attention: "providerAttentionView tm (public_cfg cfg) = providerAttentionView tm cfg"
  by (simp only: providerAttentionView_def public_cfg_sel fun_eq_iff) simp

lemma public_provider_lines: "config_provider_lines tm (public_cfg cfg) = config_provider_lines tm cfg"
  by (simp only: config_provider_lines_def public_role fun_eq_iff) simp

lemma public_config_content: "configContent tm (public_cfg cfg) = configContent tm cfg"
  by (simp only: configContent_def cors_text_def rate_limit_text_def tracing_text_def public_cfg_sel
      public_provider_lines fun_eq_iff) simp

lemmas public_functions =
  public_role public_enabled public_provider_rows public_client_rows public_attention public_config_content

lemma public_model_sel:
  "tu_cfg (public_model tu) = public_cfg (tu_cfg tu)" "tu_metrics (public_model tu) = tu_metrics tu"
  "tu_logs (public_model tu) = tu_logs tu" "tu_active (public_model tu) = tu_active tu"
  "tu_filter (public_model tu) = tu_filter tu" "tu_paused (public_model tu) = tu_paused tu"
  "tu_show_help (public_model tu) = tu_show_help tu" "tu_width (public_model tu) = tu_width tu"
  "tu_height (public_model tu) = tu_height tu" "tu_layout (public_model tu) = tu_layout tu"
  "tu_last_refresh (public_model tu) = tu_last_refresh tu" "tu_visible_logs (public_model tu) = tu_visible_logs tu"
  "tu_log_table (public_model tu) = tu_log_table tu" "tu_provider_table (public_model tu) = tu_provider_table tu"
  "tu_client_table (public_model tu) = tu_client_table tu"
  "tu_config_viewport (public_model tu) = tu_config_viewport tu"
  "tu_help_viewport (public_model tu) = tu_help_viewport tu"
  "model_width (public_model tu) = model_width tu" "shown_entries (public_model tu) = shown_entries tu"
  by (simp_all add: public_model_def model_width_def shown_entries_def)

lemma selected_map: "xs \<noteq> [] \<Longrightarrow> selected i (map f xs) = f (selected i xs)"
  by (auto simp: selected_def)

lemma public_client_detail: "clientDetailView tm wd now (public_model tu) = clientDetailView tm wd now tu"
proof (cases "cn_clients (tu_cfg tu) = []")
  case True
  then show ?thesis by (simp only: clientDetailView_def public_model_sel public_cfg_sel list.map)
next
  case False
  then show ?thesis
    by (simp only: clientDetailView_def public_model_sel public_cfg_sel map_is_Nil_conv selected_map [OF False]
        public_client_sel Let_def)
qed

lemma public_details:
  "providerDetailView tm wd (public_model tu) = providerDetailView tm wd tu"
  "logDetailView tm wd (public_model tu) = logDetailView tm wd tu"
  by (simp_all only: providerDetailView_def logDetailView_def public_model_sel public_cfg_sel public_functions Let_def)

lemma public_screens:
  "dashboardView tm now (public_model tu) = dashboardView tm now tu"
  "logsView tm wd (public_model tu) = logsView tm wd tu"
  "providersView tm wd (public_model tu) = providersView tm wd tu"
  "clientsView tm wd now (public_model tu) = clientsView tm wd now tu"
  "configView tm wd (public_model tu) = configView tm wd tu"
  "helpView tm wd (public_model tu) = helpView tm wd tu"
  by (simp_all only: dashboardView_def logsView_def providersView_def clientsView_def configView_def helpView_def
      public_client_detail public_details public_model_sel public_cfg_sel public_functions length_map Let_def)

lemma public_frame:
  "headerView tm (public_model tu) = headerView tm tu" "footerView tm (public_model tu) = footerView tm tu"
  "navigationView tm (public_model tu) = navigationView tm tu"
  "sectionBarView tm (public_model tu) = sectionBarView tm tu" "tinyView tm (public_model tu) = tinyView tm tu"
  by (simp_all only: headerView_def overallStatus_def footerView_def navigationView_def sectionBarView_def
      tinyView_def public_model_sel public_cfg_sel public_functions Let_def)

lemma public_view: "tui_view tm wd now (public_model tu) = tui_view tm wd now tu"
  by (simp only: tui_view_def workspaceView_def bodyView_def public_screens public_frame public_model_sel Let_def)

text \<open>Hiding commutes with every write to the model.\<close>

lemma public_push:
  "public_model (tu\<lparr>tu_filter := f\<rparr>) = (public_model tu)\<lparr>tu_filter := f\<rparr>"
  "public_model (tu\<lparr>tu_paused := b\<rparr>) = (public_model tu)\<lparr>tu_paused := b\<rparr>"
  "public_model (tu\<lparr>tu_active := a\<rparr>) = (public_model tu)\<lparr>tu_active := a\<rparr>"
  "public_model (tu\<lparr>tu_show_help := b\<rparr>) = (public_model tu)\<lparr>tu_show_help := b\<rparr>"
  "public_model (tu\<lparr>tu_width := w\<rparr>) = (public_model tu)\<lparr>tu_width := w\<rparr>"
  "public_model (tu\<lparr>tu_height := w\<rparr>) = (public_model tu)\<lparr>tu_height := w\<rparr>"
  "public_model (tu\<lparr>tu_layout := l\<rparr>) = (public_model tu)\<lparr>tu_layout := l\<rparr>"
  "public_model (tu\<lparr>tu_metrics := me\<rparr>) = (public_model tu)\<lparr>tu_metrics := me\<rparr>"
  "public_model (tu\<lparr>tu_logs := es\<rparr>) = (public_model tu)\<lparr>tu_logs := es\<rparr>"
  "public_model (tu\<lparr>tu_last_refresh := t\<rparr>) = (public_model tu)\<lparr>tu_last_refresh := t\<rparr>"
  "public_model (tu\<lparr>tu_visible_logs := es\<rparr>) = (public_model tu)\<lparr>tu_visible_logs := es\<rparr>"
  "public_model (tu\<lparr>tu_log_table := c\<rparr>) = (public_model tu)\<lparr>tu_log_table := c\<rparr>"
  "public_model (tu\<lparr>tu_provider_table := c\<rparr>) = (public_model tu)\<lparr>tu_provider_table := c\<rparr>"
  "public_model (tu\<lparr>tu_client_table := c\<rparr>) = (public_model tu)\<lparr>tu_client_table := c\<rparr>"
  "public_model (tu\<lparr>tu_config_viewport := v\<rparr>) = (public_model tu)\<lparr>tu_config_viewport := v\<rparr>"
  "public_model (tu\<lparr>tu_help_viewport := v\<rparr>) = (public_model tu)\<lparr>tu_help_viewport := v\<rparr>"
  "public_model (tu\<lparr>tu_cfg := cfg\<rparr>) = (public_model tu)\<lparr>tu_cfg := public_cfg cfg\<rparr>"
  by (simp_all add: public_model_def)

lemma public_updates:
  "public_model (updateLogRows tm tu) = updateLogRows tm (public_model tu)"
  "public_model (updateProviderRows tm tu) = updateProviderRows tm (public_model tu)"
  "public_model (updateClientRows tm now tu) = updateClientRows tm now (public_model tu)"
  "public_model (updateConfigViewport tm tu) = updateConfigViewport tm (public_model tu)"
  "public_model (updateHelpViewport tm tu) = updateHelpViewport tm (public_model tu)"
  by (simp_all only: updateLogRows_eq updateProviderRows_def updateClientRows_def updateConfigViewport_def
      updateHelpViewport_def if_distrib [of public_model] public_push public_model_sel public_functions)

lemma public_widgets: "public_model (update_widgets tm now tu) = update_widgets tm now (public_model tu)"
proof -
  have "tu_show_help (updateConfigViewport tm (updateClientRows tm now (updateProviderRows tm (updateLogRows tm t))))
      = tu_show_help t" for t
    by (rule tui_coreD(10)) simp
  then show ?thesis
    by (simp only: update_widgets_def Let_def if_distrib [of public_model] public_updates public_model_sel)
qed

lemma public_refresh: "public_model (refresh tm sn tu) = refresh tm (public_report sn) (public_model tu)"
proof -
  have "ts_cfg (public_report sn) = public_cfg (ts_cfg sn)" "ts_metrics (public_report sn) = ts_metrics sn"
    "ts_logs (public_report sn) = ts_logs sn" "ts_now (public_report sn) = ts_now sn"
    by (simp_all add: public_report_def)
  then show ?thesis by (simp only: refresh_def public_widgets public_push)
qed

lemma public_resize: "public_model (resize tm now tu) = resize tm now (public_model tu)"
  unfolding resize_def Let_def
  by (simp only: if_distrib [of public_model] public_widgets public_push public_model_sel)
     (simp add: public_model_sel)

lemma public_setActive: "public_model (setActive tm nxt tu) = setActive tm nxt (public_model tu)"
  by (simp only: setActive_def Let_def if_distrib [of public_model] public_updates public_push)

lemma public_setFilter: "public_model (setFilter tm f tu) = setFilter tm f (public_model tu)"
  by (simp only: setFilter_def public_updates public_push)

lemmas public_steps = public_refresh public_resize public_setActive public_setFilter public_updates public_push

lemma public_update:
  "apfst public_model (tui_update tm sn msg tu) = tui_update tm (public_report sn) msg (public_model tu)"
proof -
  have now: "ts_now (public_report sn) = ts_now sn" by (simp add: public_report_def)
  have widget: "apfst public_model (widget_update m t) = widget_update m (public_model t)" for m t
    by (simp only: widget_update_def if_distrib [of "apfst public_model"] apfst_conv public_steps public_model_sel)
  have keys: "apfst public_model (help_key k t) = help_key k (public_model t)" for k t
    by (simp only: help_key_def if_distrib [of "apfst public_model"] apfst_conv public_steps public_model_sel)
  have main: "apfst public_model (main_key tm sn k t) = main_key tm (public_report sn) k (public_model t)" for k t
    by (simp only: main_key_def filter_key_def if_distrib [of "apfst public_model"] if_distrib [of public_model]
        apfst_conv public_steps public_model_sel widget)
  show ?thesis
    by (cases msg) (simp_all only: tui_update_def tui_msg.case if_distrib [of "apfst public_model"]
      if_distrib [of public_model] apfst_conv public_steps public_model_sel widget keys main now)
qed

lemma public_new: "public_model (newModel tm sn) = newModel tm (public_report sn)"
proof -
  have "empty_model (public_report sn) = public_model (empty_model sn)" "ts_now (public_report sn) = ts_now sn"
    by (simp_all add: empty_model_def public_report_def public_model_def)
  then show ?thesis by (simp only: newModel_def public_steps)
qed

lemma public_run:
  "public_model (tui_run tm tu steps) = tui_run tm (public_model tu) (map (apfst public_report) steps)"
proof (induction tm tu steps rule: tui_run.induct)
  case (2 tm tu sn msg steps)
  have "public_model (fst (tui_update tm sn msg tu)) = fst (tui_update tm (public_report sn) msg (public_model tu))"
    by (simp only: public_update [symmetric] fst_apfst)
  with 2 show ?case by simp
qed simp


subsection \<open>Secrets\<close>

text \<open>What \<open>refresh\<close> reads: \<open>ConfigSnapshot\<close>, \<open>Metrics\<close> and \<open>Logs\<close>, at the times they are read.\<close>

definition gateway_report :: "rendering \<Rightarrow> gotime \<Rightarrow> gotime \<Rightarrow> 'r gateway \<Rightarrow> tui_snapshot" where
  "gateway_report rn now later g =
     \<lparr>ts_cfg = configSnapshot rn g, ts_metrics = gateway_metrics now later g,
      ts_logs = logring_snapshot (gw_logs g), ts_now = later\<rparr>"

text \<open>The same gateway with other provider keys (\<open>fk\<close>) and other client and operations tokens (\<open>ft\<close>).\<close>

definition swap_config :: "(string \<Rightarrow> string) \<Rightarrow> (string \<Rightarrow> string) \<Rightarrow> config_runtime \<Rightarrow> config_runtime" where
  "swap_config fk ft rt =
     (let cfg = rt_config rt in
      rt\<lparr>rt_config := cfg\<lparr>
           cf_providers := map (\<lambda>p. p\<lparr>pc_api_key := fk (pc_api_key p)\<rparr>) (cf_providers cfg),
           cf_clients := map (\<lambda>c. c\<lparr>cl_token := ft (cl_token c)\<rparr>) (cf_clients cfg),
           cf_operations := (cf_operations cfg)\<lparr>op_token := ft (op_token (cf_operations cfg))\<rparr>\<rparr>\<rparr>)"

definition swap_key :: "(string \<Rightarrow> string) \<Rightarrow> provider_runtime \<Rightarrow> provider_runtime" where
  "swap_key fk pr = pr\<lparr>pr_api_key := fk (pr_api_key pr)\<rparr>"

definition swap_secrets :: "(string \<Rightarrow> string) \<Rightarrow> (string \<Rightarrow> string) \<Rightarrow> 'r gateway \<Rightarrow> 'r gateway" where
  "swap_secrets fk ft g =
     (let s = gw_runtime g in
      g\<lparr>gw_runtime := s\<lparr>rs_cfg := swap_config fk ft (rs_cfg s),
           rs_providers := map (apsnd (swap_key fk)) (rs_providers s), rs_default := swap_key fk (rs_default s),
           rs_tokens := map (apfst ft) (rs_tokens s), rs_operations_token := ft (rs_operations_token s)\<rparr>\<rparr>)"

lemma swap_secrets_report:
  assumes "\<forall>s. redact (fk s) = redact s" "\<forall>s. ft s = '''' \<longleftrightarrow> s = ''''"
  shows "public_report (gateway_report rn now later (swap_secrets fk ft g)) = public_report (gateway_report rn now later g)"
proof -
  let ?rt = "rs_cfg (gw_runtime g)" and ?g' = "swap_secrets fk ft g"
  have pol: "circuitPolicyFor (swap_config fk ft ?rt) n = circuitPolicyFor ?rt n" for n
    by (simp add: circuitPolicyFor_def swap_config_def Let_def)
  have sel: "cf_server (rt_config (swap_config fk ft ?rt)) = cf_server (rt_config ?rt)"
    "cf_telemetry (rt_config (swap_config fk ft ?rt)) = cf_telemetry (rt_config ?rt)"
    "cf_logging (rt_config (swap_config fk ft ?rt)) = cf_logging (rt_config ?rt)"
    "cf_default_provider (rt_config (swap_config fk ft ?rt)) = cf_default_provider (rt_config ?rt)"
    "cf_providers (rt_config (swap_config fk ft ?rt)) =
       map (\<lambda>p. p\<lparr>pc_api_key := fk (pc_api_key p)\<rparr>) (cf_providers (rt_config ?rt))"
    "cf_clients (rt_config (swap_config fk ft ?rt)) =
       map (\<lambda>c. c\<lparr>cl_token := ft (cl_token c)\<rparr>) (cf_clients (rt_config ?rt))"
    by (simp_all add: swap_config_def Let_def)
  have g': "gw_runtime ?g' = (gw_runtime g)\<lparr>rs_cfg := swap_config fk ft ?rt,
      rs_providers := map (apsnd (swap_key fk)) (rs_providers (gw_runtime g)),
      rs_default := swap_key fk (rs_default (gw_runtime g)), rs_tokens := map (apfst ft) (rs_tokens (gw_runtime g)),
      rs_operations_token := ft (rs_operations_token (gw_runtime g))\<rparr>"
    "gw_metrics ?g' = gw_metrics g" "gw_breakers ?g' = gw_breakers g" "gw_logs ?g' = gw_logs g"
    "gw_rate_limits ?g' = gw_rate_limits g"
    by (simp_all add: swap_secrets_def Let_def)
  have "provider_breakers (gw_runtime ?g') ?g' = provider_breakers (gw_runtime g) g"
    by (simp add: provider_breakers_def g' swap_key_def case_prod_unfold)
  then have metrics: "gateway_metrics now later ?g' = gateway_metrics now later g"
    by (simp add: gateway_metrics_def g'(2))
  have snap: "provider_snap_of rn (swap_config fk ft ?rt) (p\<lparr>pc_api_key := fk (pc_api_key p)\<rparr>) = provider_snap_of rn ?rt p"
    for p using assms(1) by (simp add: provider_snap_of_def pol)
  have "public_cfg (configSnapshot rn ?g') = public_cfg (configSnapshot rn g)"
    using assms(2) by (simp add: configSnapshot_def public_cfg_def Let_def g' sel comp_def snap)
      (simp add: client_snap_def swap_key_def)
  then show ?thesis by (simp add: gateway_report_def public_report_def metrics g'(4))
qed

text \<open>The UI attached to a gateway whose state at each message is given.\<close>

definition attached_run ::
  "terminal \<Rightarrow> rendering \<Rightarrow> ('r gateway \<Rightarrow> 'r gateway) \<Rightarrow> 'r gateway \<times> gotime \<times> gotime \<Rightarrow>
   (('r gateway \<times> gotime \<times> gotime) \<times> tui_msg) list \<Rightarrow> tui_model" where
  "attached_run tm rn h g0 steps =
     (let report = (\<lambda>(g, now, later). gateway_report rn now later (h g))
      in tui_run tm (newModel tm (report g0)) (map (apfst report) steps))"

text \<open>
  C38. The operator screens hide the secrets, over whole runs: replace the client tokens and the
  operations token of the gateway by any others (set ones by set ones), and the provider keys
  by any with the same redaction, and after every sequence of keys, sizes and ticks, with
  whatever states the gateway passes through, the screen shows the same text.
\<close>

theorem operator_ui_hides:
  assumes "\<forall>s. redact (fk s) = redact s" and "\<forall>s. ft s = '''' \<longleftrightarrow> s = ''''"
  shows "tui_view tm wd now (attached_run tm rn (swap_secrets fk ft) g0 steps) =
    tui_view tm wd now (attached_run tm rn id g0 steps)"
proof -
  let ?r = "\<lambda>h (g, now, later). gateway_report rn now later (h g)"
  have report: "public_report (?r (swap_secrets fk ft) x) = public_report (?r id x)" for x
    by (cases x) (simp add: swap_secrets_report [OF assms])
  then have maps: "map (apfst public_report) (map (apfst (?r (swap_secrets fk ft))) steps) =
      map (apfst public_report) (map (apfst (?r id)) steps)"
    by (auto simp: apfst_def map_prod_def intro!: map_cong)
  have "public_model (attached_run tm rn (swap_secrets fk ft) g0 steps) = public_model (attached_run tm rn id g0 steps)"
    unfolding attached_run_def Let_def public_run public_new maps report ..
  then have "tui_view tm wd now (public_model (attached_run tm rn (swap_secrets fk ft) g0 steps)) =
      tui_view tm wd now (public_model (attached_run tm rn id g0 steps))" by (rule arg_cong)
  then show ?thesis unfolding public_view .
qed

theorem operator_ui_hides_witness:
  "mask_secret ''sk-secret-1'' \<noteq> ''sk-secret-1'' \<and> rev ''t1'' \<noteq> ''t1'' \<and>
   tui_view sample_tm \<lparr>draw_table = (\<lambda>_. ''''), table_cursor = (\<lambda>_. 0), draw_viewport = (\<lambda>_. '''')\<rparr> 9
     (attached_run sample_tm sample_rendering (swap_secrets mask_secret rev) (sample_gw tripped, 1, 2)
        [((sample_gw tripped, 3, 4), TuiKey ''4''), ((sample_gw tripped, 5, 6), TickMsg)]) =
   tui_view sample_tm \<lparr>draw_table = (\<lambda>_. ''''), table_cursor = (\<lambda>_. 0), draw_viewport = (\<lambda>_. '''')\<rparr> 9
     (attached_run sample_tm sample_rendering id (sample_gw tripped, 1, 2)
        [((sample_gw tripped, 3, 4), TuiKey ''4''), ((sample_gw tripped, 5, 6), TickMsg)])"
proof -
  have "redact ''sk-secret-1'' = redact ''sk-sXXXet-1''" by code_simp
  then have k: "\<forall>s. redact (mask_secret s) = redact s" by (simp add: mask_secret_def)
  have t: "\<forall>s :: string. rev s = '''' \<longleftrightarrow> s = ''''" by simp
  have "mask_secret ''sk-secret-1'' \<noteq> ''sk-secret-1''" "rev ''t1'' \<noteq> ''t1''" by (simp_all add: mask_secret_def)
  then show ?thesis using operator_ui_hides [OF k t] by blast
qed

subsection \<open>The setup form\<close>

definition setup_hints :: "string list" where
  "setup_hints =
     [''Get yours at https://aistudio.google.com/apikey'',
      ''Enter the secret part; access token will be saved with gg- prefix'',
      ''e.g. :8080 or 0.0.0.0:9090'',
      ''Friendly label for this client slot'']"

definition setup_masks :: "bool list" where "setup_masks = [True, True, False, False]"

definition setup_display :: "nat \<Rightarrow> string \<Rightarrow> string" where
  "setup_display i val =
     (if setup_masks ! i \<and> 0 < length val then repeat_text glyph_bullet (int (length (runes val))) else val)"

definition setup_field_lines :: "terminal \<Rightarrow> int \<Rightarrow> setup_model \<Rightarrow> nat \<Rightarrow> string list" where
  "setup_field_lines tm w sm i =
     (let display = setup_display i (sm_fields sm ! i);
          cursor = (if i = sm_active sm then glyph_cursor else '''');
          border = (if i = sm_active sm then SetupActiveBorder else SetupInactiveBorder)
      in [paint tm SetupLabelSt (setup_labels ! i), boxed tm border (w - 6) (display @ cursor),
          paint tm SetupHintSt (''  '' @ setup_hints ! i), ''''])"

definition setup_connection_lines :: "terminal \<Rightarrow> setup_model \<Rightarrow> string list" where
  "setup_connection_lines tm sm =
     (let listen = trim_space (sm_fields sm ! sfListen); token = trim_space (sm_fields sm ! sfToken) in
      if listen \<noteq> '''' then
        [paint tm SetupSubtitleSt ''Client connection'',
         paint tm SetupMutedSt (''  Base URL: '' @ LocalBaseURL listen @ ''/v1beta/openai/'')]
        @ (if token \<noteq> '''' then [paint tm SetupMutedSt (''  Authorization: Bearer '' @ AccessToken token)] else [])
        @ ['''']
      else [])"

definition setup_view :: "terminal \<Rightarrow> setup_model \<Rightarrow> string" where
  "setup_view tm sm =
     (let w = (if sm_width sm \<le> 0 then 80 else sm_width sm) in
      lines_text
        ([paint tm SetupTitleSt (''  GemGate '' @ glyph_dash @ '' First-time Setup  ''), '''',
          paint tm SetupSubtitleSt ''Welcome! Fill in your settings to get started.'',
          paint tm SetupMutedSt ''Press Enter to advance, Esc to cancel.'', '''']
         @ concat (map (setup_field_lines tm w sm) [0 ..< sfDone])
         @ (if sm_err sm \<noteq> '''' then [paint tm SetupErrSt (glyph_warning @ ''  '' @ sm_err sm), ''''] else [])
         @ setup_connection_lines tm sm
         @ [paint tm SetupMutedSt
              (if sm_active sm < sfDone - 1 then ''Press Enter to continue, Tab/Shift+Tab to navigate''
               else ''Press Enter to save config and start GemGate'')]))"

text \<open>The form shows a masked key by its length alone.\<close>

theorem setup_view_masks_key:
  assumes "length (sm_fields sm) = sfDone" and "length (runes key') = length (runes (sm_fields sm ! sfAPIKey))"
    and "key' \<noteq> ''''" and "sm_fields sm ! sfAPIKey \<noteq> ''''"
  shows "setup_view tm (sm\<lparr>sm_fields := (sm_fields sm)[sfAPIKey := key']\<rparr>) = setup_view tm sm"
proof -
  let ?sm = "sm\<lparr>sm_fields := (sm_fields sm)[sfAPIKey := key']\<rparr>"
  have "setup_display sfAPIKey key' = setup_display sfAPIKey (sm_fields sm ! sfAPIKey)"
    using assms(2-4) by (simp add: setup_display_def setup_masks_def)
  then have d: "setup_display i (sm_fields ?sm ! i) = setup_display i (sm_fields sm ! i)" for i
    using assms(1) by (cases i) simp_all
  have f: "sm_fields ?sm ! sfListen = sm_fields sm ! sfListen" "sm_fields ?sm ! sfToken = sm_fields sm ! sfToken"
    "sm_active ?sm = sm_active sm" "sm_width ?sm = sm_width sm" "sm_err ?sm = sm_err sm" by simp_all
  have "setup_field_lines tm w ?sm = setup_field_lines tm w sm" for w
    by (simp only: setup_field_lines_def d f fun_eq_iff) simp
  moreover have "setup_connection_lines tm ?sm = setup_connection_lines tm sm"
    by (simp only: setup_connection_lines_def f)
  ultimately show ?thesis by (simp only: setup_view_def f)
qed

end
