(* ===== verification/Spec2Isabelle.thy ===== *)
theory Spec2Isabelle
  imports Go_Prelude Go_Strings Go_Json Go_Url Go_Duration Go_Netip Http_Header
    Circuit_Breaker Rate_Window Rate_Backend Rate_Redis Rate_Limiter Log_Ring Gw_Metrics
    Http_Helpers Provider_Catalog Config_Types Config_Parse Config_Defaults Config_Validate
    Config_Load Cors_Policy Trusted_Proxy Gw_Runtime Provider_Transport Ops_Auth Gw_Proxy
    Gw_Views Gw_Serve Serve_Props Gw_Tracing Gw_Runs Tui_Setup Wizard_Yaml Wizard_Start
    Cmd_Run Tui_Text Tui_Stats Tui_Tables Tui_Model Tui_Views
begin

text \<open>
  GemGate, an authenticating reverse proxy for language-model providers.

  A client sends a request with a bearer token. The gateway applies CORS, authenticates the
  client, counts the request against the client's per-minute quota (in memory or in Redis),
  picks a provider by path, rewrites the request (the client's credentials out, the provider's
  key in), asks the provider's circuit breaker, forwards it and streams the response back,
  while metrics and a bounded log are kept. Operators read health, readiness, metrics and the
  redacted configuration on the same listener or on one of their own. The configuration is
  loaded from YAML and can be replaced while the gateway runs.

  The parts and their theories (file names are under \<open>src/internal/\<close>):

  \<^item> Go and its library. \<open>Go_Prelude\<close>: \<open>int64\<close> values as integers that wrap explicitly
    (\<open>wrap64\<close>), durations, instants, \<open>(T, error)\<close> results as sums with \<open>bind_res\<close>, loops over
    results. \<open>Go_Strings\<close>: the \<open>strings\<close> package on byte strings. \<open>Go_Duration\<close>, \<open>Go_Netip\<close>,
    \<open>Go_Url\<close>, \<open>Go_Json\<close>, \<open>Http_Header\<close>: the parts of \<open>time\<close>, \<open>net/netip\<close>, \<open>net/url\<close>,
    \<open>encoding/json\<close> and \<open>net/http\<close> the code uses; a response writer holds the pending header,
    the status and headers sent, the bytes delivered and how many more the peer will take.
  \<^item> Admission. \<open>Circuit_Breaker\<close> (\<open>gateway/circuitbreaker.go\<close>): breakers, permits and the
    interleavings of requests as a step relation. \<open>Rate_Window\<close> (\<open>gateway/ratelimit.go\<close>): the
    sliding window of a client. \<open>Rate_Backend\<close>, \<open>Rate_Redis\<close>, \<open>Rate_Limiter\<close>
    (\<open>gateway/ratelimit_backend.go\<close>, \<open>gateway/ratelimit_redis.go\<close>): the backend interface as a
    locale, its two implementations (the Redis server is a record of commands with documented
    laws), their sum, and the manager with its failure policy. \<open>Trusted_Proxy\<close>
    (\<open>gateway/trusted_proxy.go\<close>): client addresses. \<open>Cors_Policy\<close> (\<open>gateway/cors.go\<close>).
    \<open>Ops_Auth\<close> (\<open>gateway/operations_auth.go\<close>, \<open>authenticate\<close> of \<open>gateway/proxy.go\<close>): the two
    trust domains.
  \<^item> Observation. \<open>Log_Ring\<close> (\<open>gateway/logring.go\<close>), \<open>Gw_Metrics\<close> (\<open>gateway/metrics.go\<close>, with
    the Prometheus text), \<open>Gw_Views\<close> (\<open>gateway/health.go\<close>, \<open>gateway/readiness.go\<close>,
    \<open>safeConfig\<close> and \<open>ConfigSnapshot\<close>), \<open>Gw_Tracing\<close> (\<open>gateway/tracing.go\<close>, the spans of
    \<open>gateway/provider_metrics_transport.go\<close>, \<open>telemetry/telemetry.go\<close>): a span is the history of the
    calls made on it.
  \<^item> Configuration. \<open>Config_Types\<close>, \<open>Config_Parse\<close>, \<open>Config_Defaults\<close>, \<open>Config_Validate\<close>,
    \<open>Config_Load\<close> (\<open>config/config.go\<close>, \<open>config/telemetry.go\<close>, \<open>config/logging_config.go\<close>) and
    \<open>Provider_Catalog\<close> (\<open>provider/catalog.go\<close>).
  \<^item> The gateway. \<open>Gw_Runtime\<close> (\<open>gateway/runtime.go\<close>, \<open>New\<close>): the record \<open>gateway\<close> is the Go
    struct; breakers, which old and new snapshots share by pointer, are in a store and a
    provider holds an index. \<open>Http_Helpers\<close> (\<open>gateway/http_helpers.go\<close>), \<open>Provider_Transport\<close>
    (\<open>gateway/provider_metrics_transport.go\<close>, \<open>gateway/request_context.go\<close>), \<open>Gw_Proxy\<close>
    (\<open>gateway/proxy.go\<close>), \<open>Gw_Serve\<close> (\<open>gateway/gateway.go\<close>, \<open>gateway/operations_listener.go\<close>,
    \<open>gateway/server.go\<close>), with their properties in \<open>Serve_Props\<close> and the runs of a whole gateway,
    requests, reloads and all, in \<open>Gw_Runs\<close>.
  \<^item> The command. \<open>Cmd_Run\<close> (\<open>cmd/gemgate/main.go\<close>): the dispatch of the arguments, the flags,
    \<open>run\<close> as the ordered effects on listeners, servers and the gateway, the reload watcher and
    the shutdown. What the process meets outside is the record \<open>run_world\<close>. \<open>Tui_Setup\<close>
    (\<open>tui/setup.go\<close>): the first-run wizard, its form and the file it writes. \<open>Wizard_Yaml\<close>: a
    reader of the part of YAML that file is written in, leaf by leaf into the fields the struct
    tags of \<open>config/config.go\<close> name. \<open>Wizard_Start\<close>: what that configuration means to
    \<open>Config_Load\<close>, so that a first run can be followed to a gateway that serves.
  \<^item> The terminal UI (\<open>tui/\<close>). \<open>Tui_Text\<close> (\<open>helpers.go\<close>): truncation, human units, styled
    lines. \<open>Tui_Stats\<close> (\<open>stats.go\<close>): the summary of the request log. \<open>Tui_Tables\<close> (\<open>layout.go\<close>
    and the columns and rows of \<open>providers.go\<close>, \<open>clients.go\<close>, \<open>logs.go\<close>). \<open>Tui_Model\<close>
    (\<open>model.go\<close>, \<open>keys.go\<close>): the model and \<open>Update\<close> as the step of \<open>tui_reachable\<close>.
    \<open>Tui_Views\<close>: every view, and a run of the UI attached to a gateway. Bubble Tea's widgets
    are kept as the history of the calls made on them, and what Lip Gloss and the widgets make
    of that history is an argument (\<open>terminal\<close>, \<open>widgets\<close>). A table may not get through a call
    that gives it rows with more cells than columns: which calls a table survives is an argument
    of \<open>tui_reachable\<close> (\<open>tables_alive\<close>), and \<open>needs_columns\<close> is a table that needs a column for
    each cell.

  What the lemmas show. The breaker never has two probes out and opens exactly at its
  threshold; the transport refines that protocol and books every call exactly once, so proxying
  leaves no call behind; a window never admits more than its quota in any minute and both
  backends keep one contract. Validation accepts exactly the declared conditions, a loaded
  configuration always starts, and a reload is all or nothing: the whole snapshot is the new
  configuration's or the old one stays. Only admitted requests reach a provider. Every
  application request is logged and counted once, in the class of the status its client got,
  except that one its client gave up is logged with status 0 and not counted. What a client
  sends in a credential header never reaches a provider (cookies and the query do), identity
  headers cannot be forged, and addresses a client puts in front of a forwarded chain do not
  change its own (a value that is no address discards the chain). A copy to a client returns
  exactly when the body ends, fails or is not taken. Trust domains and listeners are kept
  apart, and views reveal no secret. The command serves when its listeners are bound, runs
  exactly the last configuration that loaded and needed no restart, and a completed wizard of
  plain values leads to a gateway that serves; what the operator reads on the screen is the
  log's own summary and does not depend on any secret; the spans tell the response and the books
  of the provider call, and no more than names. In every reachable state of a gateway its
  invariant holds.
  Where the code falls short, a theorem says so: a reload after the cooldown of an open circuit
  takes the provider out of service (\<open>Gw_Runs.reload_wedges_provider\<close>), the largest body limit
  empties every body, a padded client token can never authenticate, \<open>Retry-After\<close> may come
  half a second early, a wizard interrupted while its API key is blank is saved and refused, in
  that run and every later one (\<open>Cmd_Run.interrupted_wizard_saved\<close>), the gateway's own
  refusals are traced as provider errors (\<open>Gw_Tracing.refusal_blamed_on_provider\<close>), the tables receive their rows before their columns
  (\<open>Tui_Model.rows_before_columns\<close>), which a table that needs a column for each cell does not
  survive (\<open>Tui_Model.new_gives_up\<close>), and the error column counts failures twice
  (\<open>Tui_Tables.error_rate_double_counts\<close>).

  Interfaces are locales with an interpretation on the model's own definitions:
  \<open>breaker_gate\<close> (the transport's view of a breaker), \<open>rate_backend_if\<close> and \<open>redis_server\<close>
  (rate limiting), \<open>log_sink\<close>, \<open>byte_writer\<close> (the streaming copy) and the header map.

  Time, randomness and the network are arguments: every reading of the clock is an \<open>int\<close> of
  nanoseconds given to the operation, a provider's network is a function from requests to
  results, and a request body or response body is the sequence of reads it yields, which is
  finite. A body without an end is the infinite sequence of reads of \<open>copy_stream\<close>, the same
  copy loop as a \<open>partial_function\<close> whose \<open>None\<close> is not returning. No fuel is used: the other
  loops are structural recursions or have termination proofs. Operations of one component
  on shared state are atomic, as the mutexes and atomics of the code make them. The two steps of
  a call's beginning and of its end, on the breaker and on the metrics, are under separate locks
  in the code and one step here (\<open>begin_call\<close>, \<open>end_call\<close>). Interleavings are explicit for
  breakers and transport calls, and one request at a time runs in \<open>Gw_Runs\<close>.

  Not modelled: OpenTelemetry behind the calls of \<open>Gw_Tracing\<close> (the propagator, the sampler and
  the exporter); the text of the command's usage; the operating system's side of signals, files and sockets, which
  are outcomes in \<open>run_world\<close>; Bubble Tea's event loop and the drawing done by Lip Gloss and the
  Bubbles widgets (arguments of the views); the YAML decoder (an argument of \<open>load\<close>, of which the
  first run only relies on the part of YAML in \<open>Wizard_Yaml\<close>, hypothesis \<open>yaml_decoder\<close>) and the
  Redis client library (an argument with documented laws). SHA-256 and the decimal rendering of
  floats are arguments.
\<close>

end
